theory Spec2Isabelle
  imports Complex_Main "HOL-Library.Product_Lexorder" "HOL-Library.Log_Nat"
begin

section \<open>The random source\<close>

text \<open>
  The program draws from Python's global \<open>random\<close> module. The generator is modelled as
  an infinite stream of raw draws that every call consumes from the front:
  \<open>random.choice(xs)\<close> reads one draw and indexes \<open>xs\<close> with it (IndexError on an empty
  list), \<open>random.randint(a, b)\<close> reads one draw and maps it into \<open>a..b\<close> (ValueError on an
  empty range). Every outcome Python can produce is produced by some stream, and no other.
\<close>

type_synonym rng = "nat \<Rightarrow> nat"

definition rng_next :: "rng \<Rightarrow> nat \<times> rng" where
  "rng_next g = (g 0, \<lambda>n. g (Suc n))"

definition random_choice :: "'a list \<Rightarrow> rng \<Rightarrow> 'a option \<times> rng" where
  "random_choice xs g =
     (if xs = [] then (None, g)
      else (Some (xs ! (fst (rng_next g) mod length xs)), snd (rng_next g)))"

definition random_randint :: "int \<Rightarrow> int \<Rightarrow> rng \<Rightarrow> int option \<times> rng" where
  "random_randint a b g =
     (if b < a then (None, g)
      else (Some (a + int (fst (rng_next g)) mod (b - a + 1)), snd (rng_next g)))"

section \<open>Stargate route tables (stargate\_bridge.py)\<close>

text \<open>Python dictionaries are association lists in insertion order, with distinct keys;
  \<open>k in d\<close> is \<open>dict_has\<close> and \<open>d[k]\<close> is \<open>map_of\<close>.\<close>

definition dict_has :: "('k \<times> 'v) list \<Rightarrow> 'k \<Rightarrow> bool" where
  "dict_has d k = (map_of d k \<noteq> None)"

definition STARGATE_CHAINS :: "(string \<times> (nat \<times> string)) list" where
  "STARGATE_CHAINS =
    [(''ethereum'', (1, ''0x8731d54E9D02c286767d56ac03e8037C07e01e98'')),
     (''bsc'', (2, ''0x4a364f8c717cAAD9A442737Eb7b8A55cc6cf18D8'')),
     (''avalanche'', (6, ''0x45A01E4e04F14f7A4a6702c74187c5F6222033cd'')),
     (''polygon'', (9, ''0x45A01E4e04F14f7A4a6702c74187c5F6222033cd'')),
     (''arbitrum'', (10, ''0x53Bf833A5d6c4ddA888F69c22C88C9f356a41614'')),
     (''optimism'', (11, ''0xB0D502E938ed5f4df2E681fE6E419ff29631d62b'')),
     (''base'', (30, ''0x45f5b7eDBCB52D6BF06C80395498097B6A8e9251''))]"

definition STARGATE_POOLS :: "(string \<times> (string \<times> nat) list) list" where
  "STARGATE_POOLS =
    [(''USDC'', [(''ethereum'', 1), (''bsc'', 1), (''avalanche'', 1), (''polygon'', 1),
                 (''arbitrum'', 1), (''optimism'', 1), (''base'', 1)]),
     (''USDT'', [(''ethereum'', 2), (''bsc'', 2), (''avalanche'', 2), (''polygon'', 2),
                 (''arbitrum'', 2), (''optimism'', 2), (''base'', 2)]),
     (''ETH'', [(''ethereum'', 13), (''bsc'', 0), (''avalanche'', 0), (''polygon'', 0),
                (''arbitrum'', 13), (''optimism'', 13), (''base'', 13)])]"

section \<open>Provider selection (bridge\_aggregator.py, select\_random\_service)\<close>

text \<open>The condition under which \<open>select_random_service\<close> appends \<open>"stargate"\<close>; the
  conjunction short-circuits, so \<open>STARGATE_POOLS[token_symbol]\<close> is read only when the key
  is there.\<close>

definition stargate_condition :: "string \<Rightarrow> string \<Rightarrow> string \<Rightarrow> bool" where
  "stargate_condition from_chain to_chain token_symbol =
     (dict_has STARGATE_CHAINS from_chain \<and> dict_has STARGATE_CHAINS to_chain \<and>
      (case map_of STARGATE_POOLS token_symbol of
         None \<Rightarrow> False
       | Some pools \<Rightarrow> dict_has pools from_chain \<and> dict_has pools to_chain))"

definition supported_services :: "string \<Rightarrow> string \<Rightarrow> string \<Rightarrow> string list" where
  "supported_services from_chain to_chain token_symbol =
     [''jumper''] @
     (if stargate_condition from_chain to_chain token_symbol then [''stargate''] else []) @
     [''relay'']"

definition select_random_service :: "string \<Rightarrow> string \<Rightarrow> string \<Rightarrow> rng \<Rightarrow> string option \<times> rng" where
  "select_random_service from_chain to_chain token_symbol g =
     random_choice (supported_services from_chain to_chain token_symbol) g"

section \<open>Python floats\<close>

text \<open>
  A Python float is an IEEE-754 binary64 number. A finite float is modelled by the real
  number it denotes (negative zero is zero), and the result of an operation is a finite
  float or an infinity. An operation rounds its exact result to the nearest float, ties to
  the even significand: a real \<open>x\<close> with \<open>2 ^ e \<le> \<bar>x\<bar> < 2 ^ (e + 1)\<close> is rounded to a
  multiple of \<open>2 ^ k\<close> with \<open>k = max (e - 52) (- 1074)\<close>, which is 53 significant bits in the
  normal range and the spacing \<open>2 ^ (- 1074)\<close> of the subnormal range, and the result is an
  infinity when the rounded magnitude reaches \<open>2 ^ 1024\<close>. Not-a-number does not arise from a
  product of finite operands or a quotient of finite operands with a non-zero divisor, and
  is not modelled.
\<close>

datatype pyfloat = Finite real | PosInf | NegInf

text \<open>The exponent \<open>e\<close> with \<open>2 ^ e \<le> x < 2 ^ (e + 1)\<close>, for \<open>0 < x\<close>, from the bit length of
  the integer part of \<open>x\<close> or of \<open>1 / x\<close>.\<close>

definition floor_log2 :: "real \<Rightarrow> int" where
  "floor_log2 x =
     (if 1 \<le> x then bitlen \<lfloor>x\<rfloor> - 1
      else let f = bitlen \<lfloor>1 / x\<rfloor> - 1 in if 2 powi f = 1 / x then - f else - f - 1)"

definition round_half_even :: "real \<Rightarrow> int" where
  "round_half_even x =
     (let f = \<lfloor>x\<rfloor>; r = x - of_int f in
      if r < 1 / 2 then f else if 1 / 2 < r then f + 1 else if even f then f else f + 1)"

definition overflow_threshold :: real where
  "overflow_threshold = 2 ^ 1024"

definition min_exponent :: int where
  "min_exponent = - 1074"

definition ulp_exponent :: "real \<Rightarrow> int" where
  "ulp_exponent a = max (floor_log2 a - 52) min_exponent"

definition fl_round :: "real \<Rightarrow> pyfloat" where
  "fl_round x =
     (if x = 0 then Finite 0
      else
        let a = \<bar>x\<bar>;
            k = ulp_exponent a;
            v = of_int (round_half_even (a / 2 powi k)) * 2 powi k
        in if overflow_threshold \<le> v then (if 0 < x then PosInf else NegInf)
           else Finite (if 0 < x then v else - v))"

text \<open>A real number is a float when rounding leaves it unchanged.\<close>

definition is_double :: "real \<Rightarrow> bool" where
  "is_double x = (fl_round x = Finite x)"

text \<open>\<open>a * b\<close> and \<open>a / d\<close> on finite floats (\<open>d\<close> not zero).\<close>

definition float_mul :: "real \<Rightarrow> real \<Rightarrow> pyfloat" where
  "float_mul a b = fl_round (a * b)"

definition float_div :: "real \<Rightarrow> real \<Rightarrow> pyfloat" where
  "float_div a d = fl_round (a / d)"

section \<open>Transfer selection (bridge\_aggregator.py, select\_random\_transaction)\<close>

text \<open>
  A Python call either returns a value or raises; \<open>Raised\<close> stands for any exception.
\<close>

datatype 'a outcome = Raised | Returned 'a

text \<open>
  The per-token dictionary \<open>{"address": ..., "balance": ...}\<close>: a field is \<open>None\<close> when the
  key is missing, which is what the two \<open>.get\<close> calls of the source distinguish. A balance
  is a finite float, as balance\_checker.py returns it (\<open>float(...)\<close> of an on-chain amount);
  an amount is the float that the arithmetic of the source produces.
\<close>

record token_info =
  ti_address :: "string option"
  ti_balance :: "real option"

type_synonym token_table = "(string \<times> (string \<times> token_info) list) list"

text \<open>The tuple \<open>(from_chain, to_chain, token_symbol, token_address, amount)\<close>.\<close>

type_synonym transfer = "string \<times> string \<times> string \<times> string option \<times> pyfloat"

text \<open>
  \<open>token_balance * percentage / 100\<close>, evaluated left to right in float arithmetic: the
  integer operands (\<open>percentage\<close> is between 10 and 90) convert to floats exactly, the
  product is rounded, and the rounded product is divided by 100 and rounded again; an
  infinite product stays infinite.
\<close>

definition percentage_amount :: "real \<Rightarrow> int \<Rightarrow> pyfloat" where
  "percentage_amount token_balance percentage =
     (case float_mul token_balance (real_of_int percentage) of
        Finite product \<Rightarrow> float_div product 100
      | PosInf \<Rightarrow> PosInf
      | NegInf \<Rightarrow> NegInf)"

text \<open>The first loop: a chain is kept when it is a key of \<open>available_tokens\<close> and its
  token dictionary is truthy, that is, not empty.\<close>

definition valid_chains_of :: "string list \<Rightarrow> token_table \<Rightarrow> string list" where
  "valid_chains_of available_chains available_tokens =
     filter (\<lambda>chain. case map_of available_tokens chain of
                        None \<Rightarrow> False
                      | Some tokens \<Rightarrow> tokens \<noteq> [])
            available_chains"

definition balance_or_zero :: "token_info \<Rightarrow> real" where
  "balance_or_zero info = (case ti_balance info of None \<Rightarrow> 0 | Some b \<Rightarrow> b)"

definition select_random_transaction ::
  "string \<Rightarrow> string list \<Rightarrow> token_table \<Rightarrow> rng \<Rightarrow> transfer option outcome \<times> rng" where
  "select_random_transaction wallet_address available_chains available_tokens g =
     (let valid_chains = valid_chains_of available_chains available_tokens in
      if valid_chains = [] then (Returned None, g)
      else
       (case random_choice valid_chains g of
          (None, g1) \<Rightarrow> (Raised, g1)
        | (Some from_chain, g1) \<Rightarrow>
           (case map_of available_tokens from_chain of
              None \<Rightarrow> (Raised, g1)
            | Some available_tokens_on_chain \<Rightarrow>
               (if available_tokens_on_chain = [] then (Returned None, g1)
                else
                 (case random_choice (map fst available_tokens_on_chain) g1 of
                    (None, g2) \<Rightarrow> (Raised, g2)
                  | (Some token_symbol, g2) \<Rightarrow>
                     (case map_of available_tokens_on_chain token_symbol of
                        None \<Rightarrow> (Raised, g2)
                      | Some info \<Rightarrow>
                         (let token_address = ti_address info;
                              token_balance = balance_or_zero info;
                              other_chains = filter (\<lambda>chain. chain \<noteq> from_chain) valid_chains
                          in
                            if token_balance \<le> 0 then (Returned None, g2)
                            else if other_chains = [] then (Returned None, g2)
                            else
                             (case random_choice other_chains g2 of
                                (None, g3) \<Rightarrow> (Raised, g3)
                              | (Some to_chain, g3) \<Rightarrow>
                                 (case random_randint 10 90 g3 of
                                    (None, g4) \<Rightarrow> (Raised, g4)
                                  | (Some percentage, g4) \<Rightarrow>
                                     (Returned (Some (from_chain, to_chain, token_symbol,
                                        token_address,
                                        percentage_amount token_balance percentage)), g4))))))))))"

text \<open>The filter as the specification words it: the chains "with at least one
  positive-balance token".\<close>

definition spec_eligible_chains :: "string list \<Rightarrow> token_table \<Rightarrow> string list" where
  "spec_eligible_chains available_chains available_tokens =
     filter (\<lambda>chain. case map_of available_tokens chain of
                        None \<Rightarrow> False
                      | Some tokens \<Rightarrow> list_ex (\<lambda>(sym, info). 0 < balance_or_zero info) tokens)
            available_chains"

section \<open>Schedule generation (bridge\_aggregator.py, generate\_random\_transaction\_times)\<close>

text \<open>
  A naive \<open>datetime\<close>. The calendar date is kept as its proleptic Gregorian day ordinal
  (\<open>date.toordinal()\<close>, 1 for 0001-01-01 up to 3652059 for 9999-12-31), which is in
  order-preserving bijection with (year, month, day); adding \<open>timedelta(days=1)\<close> adds one
  to the ordinal, keeps the clock time and raises OverflowError beyond the last day.
  Datetimes compare lexicographically on (date, hour, minute, second, microsecond).
\<close>

record datetime =
  dt_ordinal :: int
  dt_hour :: int
  dt_minute :: int
  dt_second :: int
  dt_microsecond :: int

definition MAXORDINAL :: int where
  "MAXORDINAL = 3652059"

definition valid_datetime :: "datetime \<Rightarrow> bool" where
  "valid_datetime d =
     (1 \<le> dt_ordinal d \<and> dt_ordinal d \<le> MAXORDINAL \<and>
      0 \<le> dt_hour d \<and> dt_hour d < 24 \<and> 0 \<le> dt_minute d \<and> dt_minute d < 60 \<and>
      0 \<le> dt_second d \<and> dt_second d < 60 \<and>
      0 \<le> dt_microsecond d \<and> dt_microsecond d < 1000000)"

definition dt_tuple :: "datetime \<Rightarrow> int \<times> int \<times> int \<times> int \<times> int" where
  "dt_tuple d = (dt_ordinal d, dt_hour d, dt_minute d, dt_second d, dt_microsecond d)"

definition dt_less :: "datetime \<Rightarrow> datetime \<Rightarrow> bool" where
  "dt_less a b = (dt_tuple a < dt_tuple b)"

text \<open>\<open>d + timedelta(days=n)\<close>.\<close>

definition add_days :: "datetime \<Rightarrow> int \<Rightarrow> datetime outcome" where
  "add_days d n =
     (if 1 \<le> dt_ordinal d + n \<and> dt_ordinal d + n \<le> MAXORDINAL
      then Returned (d\<lparr>dt_ordinal := dt_ordinal d + n\<rparr>)
      else Raised)"

text \<open>\<open>d.replace(hour=h, minute=m, second=s)\<close>, which raises ValueError on a field out
  of range.\<close>

definition replace_time :: "datetime \<Rightarrow> int \<Rightarrow> int \<Rightarrow> int \<Rightarrow> datetime outcome" where
  "replace_time d h m s =
     (if 0 \<le> h \<and> h < 24 \<and> 0 \<le> m \<and> m < 60 \<and> 0 \<le> s \<and> s < 60
      then Returned (d\<lparr>dt_hour := h, dt_minute := m, dt_second := s\<rparr>)
      else Raised)"

text \<open>config.py\<close>

definition TRANSACTIONS_PER_DAY :: int where
  "TRANSACTIONS_PER_DAY = 2"

text \<open>The body of the \<open>for\<close> loop: three draws, the timestamp on today's date, and the
  shift to the next day when it is before \<open>now\<close>.\<close>

definition draw_transaction_time :: "datetime \<Rightarrow> datetime \<Rightarrow> rng \<Rightarrow> datetime outcome \<times> rng" where
  "draw_transaction_time now today g =
     (case random_randint 8 22 g of
        (None, g1) \<Rightarrow> (Raised, g1)
      | (Some random_hour, g1) \<Rightarrow>
         (case random_randint 0 59 g1 of
            (None, g2) \<Rightarrow> (Raised, g2)
          | (Some random_minute, g2) \<Rightarrow>
             (case random_randint 0 59 g2 of
                (None, g3) \<Rightarrow> (Raised, g3)
              | (Some random_second, g3) \<Rightarrow>
                 (case replace_time today random_hour random_minute random_second of
                    Raised \<Rightarrow> (Raised, g3)
                  | Returned tx_time \<Rightarrow>
                     (if dt_less tx_time now then (add_days tx_time 1, g3)
                      else (Returned tx_time, g3))))))"

text \<open>The loop \<open>for _ in range(num_tx)\<close>, appending to \<open>transaction_times\<close>.\<close>

fun generate_loop ::
  "nat \<Rightarrow> datetime \<Rightarrow> datetime \<Rightarrow> rng \<Rightarrow> datetime list \<Rightarrow> datetime list outcome \<times> rng" where
  "generate_loop 0 now today g transaction_times = (Returned transaction_times, g)"
| "generate_loop (Suc n) now today g transaction_times =
     (case draw_transaction_time now today g of
        (Raised, g') \<Rightarrow> (Raised, g')
      | (Returned tx_time, g') \<Rightarrow> generate_loop n now today g' (transaction_times @ [tx_time]))"

text \<open>\<open>now\<close> is the value read from \<open>datetime.now()\<close>; \<open>range\<close> of a negative count is
  empty; \<open>list.sort()\<close> orders by the comparison of datetimes.\<close>

definition generate_random_transaction_times ::
  "int option \<Rightarrow> datetime \<Rightarrow> rng \<Rightarrow> datetime list outcome \<times> rng" where
  "generate_random_transaction_times num_transactions now g =
     (let num_tx = (case num_transactions of Some n \<Rightarrow> n | None \<Rightarrow> TRANSACTIONS_PER_DAY);
          today = now\<lparr>dt_hour := 0, dt_minute := 0, dt_second := 0, dt_microsecond := 0\<rparr>
      in
        case add_days today 1 of
          Raised \<Rightarrow> (Raised, g)
        | Returned tomorrow \<Rightarrow>
           (case generate_loop (nat num_tx) now today g [] of
              (Raised, g') \<Rightarrow> (Raised, g')
            | (Returned transaction_times, g') \<Rightarrow>
                (Returned (sort_key dt_tuple transaction_times), g')))"

section \<open>Python values and integer parsing\<close>

text \<open>
  JSON scalars that the adapters pass through or parse: \<open>null\<close>/\<open>None\<close>, a string, an
  integer.
\<close>

datatype jval = JNone | JStr string | JInt int

text \<open>
  \<open>int(s, base)\<close> on a string, for base 10 and 16, as the interpreter parses it: surrounding
  whitespace, an optional sign, for base 16 an optional \<open>0x\<close>/\<open>0X\<close> prefix that may be
  followed by one underscore, then digits with single underscores between them. \<open>None\<close> is
  ValueError. Digits are read most significant first. The interpreter's configurable cap
  on the length of decimal literals is not modelled.

  A Python string is the list of its code points, and a \<open>char\<close> is a code point from
  U+0000 to U+00FF. In that range the whitespace that \<open>int\<close> strips is the characters 9 to
  13 and 32 and the two non-ASCII characters U+0085 and U+00A0 (the separators 28 to 31 are
  whitespace for \<open>str.strip\<close> but not for \<open>int\<close>), and the only digits are the ASCII ones:
  every other non-ASCII character of the range makes the conversion fail. Code points
  beyond U+00FF, among them the decimal digits of other scripts, which \<open>int\<close> also accepts,
  have no representation in this type.
\<close>

definition py_isspace :: "char \<Rightarrow> bool" where
  "py_isspace c =
     (let n = (of_char c :: nat) in (9 \<le> n \<and> n \<le> 13) \<or> n = 32 \<or> n = 133 \<or> n = 160)"

definition digit_value :: "char \<Rightarrow> nat" where
  "digit_value c =
     (let n = (of_char c :: nat) in
      if 48 \<le> n \<and> n \<le> 57 then n - 48
      else if 97 \<le> n \<and> n \<le> 122 then n - 87
      else if 65 \<le> n \<and> n \<le> 90 then n - 55
      else 37)"

fun adjacent_underscores :: "string \<Rightarrow> bool" where
  "adjacent_underscores (a # b # r) =
     ((a = CHR ''_'' \<and> b = CHR ''_'') \<or> adjacent_underscores (b # r))"
| "adjacent_underscores _ = False"

definition strip_sign :: "string \<Rightarrow> bool \<times> string" where
  "strip_sign s =
     (case s of
        [] \<Rightarrow> (False, s)
      | c # r \<Rightarrow> if c = CHR ''+'' then (False, r)
                 else if c = CHR ''-'' then (True, r)
                 else (False, s))"

definition strip_prefix :: "nat \<Rightarrow> string \<Rightarrow> string" where
  "strip_prefix base s =
     (case s of
        c0 # c1 # r \<Rightarrow>
          if base = 16 \<and> c0 = CHR ''0'' \<and> (c1 = CHR ''x'' \<or> c1 = CHR ''X'')
          then (case r of [] \<Rightarrow> r | u # r' \<Rightarrow> if u = CHR ''_'' then r' else r)
          else s
      | _ \<Rightarrow> s)"

text \<open>The digits after sign and prefix, and the trailing whitespace.\<close>

definition parse_digits :: "nat \<Rightarrow> bool \<Rightarrow> string \<Rightarrow> int option" where
  "parse_digits base negative s =
     (let run = takeWhile (\<lambda>c. digit_value c < base \<or> c = CHR ''_'') s;
          rest = dropWhile (\<lambda>c. digit_value c < base \<or> c = CHR ''_'') s
      in
        if run = [] \<or> hd run = CHR ''_'' \<or> last run = CHR ''_'' \<or> adjacent_underscores run
           \<or> \<not> list_all py_isspace rest
        then None
        else
          let magnitude = foldl (\<lambda>acc c. acc * base + digit_value c) 0
                            (filter (\<lambda>c. c \<noteq> CHR ''_'') run)
          in Some (if negative then - int magnitude else int magnitude))"

definition py_int_str :: "string \<Rightarrow> nat \<Rightarrow> int option" where
  "py_int_str s base =
     (case strip_sign (dropWhile py_isspace s) of
        (negative, s2) \<Rightarrow> parse_digits base negative (strip_prefix base s2))"

section \<open>Quotes, ports and the call log\<close>

text \<open>
  A result dictionary is an association list in key order. Provider quotes are JSON
  objects; a field typed \<open>jval option\<close> is \<open>None\<close> when the key is missing (the source
  gives these a default). Of the object-valued fields, \<open>transactionRequest\<close> and \<open>tx\<close> are
  \<open>None\<close> when the key is missing, which is what the source tests (an empty object is
  \<open>Some\<close> of a record whose optional fields are all \<open>None\<close>), and \<open>approvalData\<close> is \<open>None\<close>
  when the key is missing or its value is falsy, which is what the source tests there.
\<close>

type_synonym result_dict = "(string \<times> jval) list"

record jumper_tx_request =
  jtr_to :: jval
  jtr_data :: jval
  jtr_value :: "jval option"
  jtr_gasLimit :: "jval option"
  jtr_gasPrice :: "jval option"

record jumper_approval =
  ja_tokenAddress :: jval
  ja_spenderAddress :: jval
  ja_amount :: "jval option"

record jumper_quote =
  jq_transactionRequest :: "jumper_tx_request option"
  jq_fromChainId :: jval
  jq_approvalData :: "jumper_approval option"
  jq_tool :: jval

record jumper_tx_data =
  td_to :: jval
  td_data :: jval
  td_value :: jval
  td_gasLimit :: jval
  td_gasPrice :: jval
  td_chain_id :: jval

record relay_tx =
  rtx_to :: jval
  rtx_data :: jval
  rtx_value :: "jval option"
  rtx_gasLimit :: "jval option"

record relay_approval =
  ra_spender :: jval
  ra_amount :: "jval option"

record relay_quote =
  rq_tx :: "relay_tx option"
  rq_fromChainId :: jval
  rq_requestId :: jval
  rq_approvalData :: "relay_approval option"

record relay_tx_data =
  rtd_to :: jval
  rtd_data :: jval
  rtd_value :: jval
  rtd_gas_limit :: jval
  rtd_chain_id :: jval
  rtd_request_id :: jval

record swap_params =
  sp_dst_chain_id :: nat
  sp_src_pool_id :: nat
  sp_dst_pool_id :: nat
  sp_refund_address :: string
  sp_amount :: int
  sp_min_amount :: int
  sp_to_address_bytes :: string
  sp_payload :: string
  sp_additional_data :: string

text \<open>
  One entry of the call log, with the arguments and the reply: the three operations of the
  wallet service and Relay's notification request (\<open>True\<close> when it returned a truthy
  response).
\<close>

datatype port_call =
    Approve string jval jval jval int "string option outcome"
  | Wait jval string int "bool outcome"
  | Send string jval jval int jval "string option outcome"
  | Notify jval string bool

text \<open>
  Everything outside the orchestrator, over a world state \<open>'w\<close>: the wallet service (each
  call returns or raises), the HTTP calls of \<open>get_quote\<close> and \<open>notify_transaction\<close> (which
  catch their own exceptions and return \<open>None\<close>), the Stargate adapter's web3 helpers, the
  clock and the formatting of numbers by \<open>str\<close>. \<open>stargate_min_amount\<close> stands for
  \<open>int(amount_wei * 0.97)\<close>, whose float arithmetic is not modelled.
\<close>

record 'w ports =
  update_balances :: "string \<Rightarrow> 'w \<Rightarrow> (string \<times> (string \<times> real) list) list outcome \<times> 'w"
  approve_token_for_bridge ::
    "string \<Rightarrow> jval \<Rightarrow> jval \<Rightarrow> jval \<Rightarrow> int \<Rightarrow> 'w \<Rightarrow> string option outcome \<times> 'w"
  send_transaction ::
    "string \<Rightarrow> jval \<Rightarrow> jval \<Rightarrow> int \<Rightarrow> jval \<Rightarrow> 'w \<Rightarrow> string option outcome \<times> 'w"
  wait_for_transaction :: "jval \<Rightarrow> string \<Rightarrow> int \<Rightarrow> 'w \<Rightarrow> bool outcome \<times> 'w"
  jumper_get_quote ::
    "string \<Rightarrow> string \<Rightarrow> string \<Rightarrow> string \<Rightarrow> string \<Rightarrow> string \<Rightarrow> 'w \<Rightarrow> jumper_quote option \<times> 'w"
  relay_get_quote ::
    "string \<Rightarrow> string \<Rightarrow> jval \<Rightarrow> jval \<Rightarrow> string \<Rightarrow> string \<Rightarrow> 'w \<Rightarrow> relay_quote option \<times> 'w"
  relay_notify_transaction :: "jval \<Rightarrow> string \<Rightarrow> 'w \<Rightarrow> bool \<times> 'w"
  stargate_router_contracts :: "string list"
  web3_to_wei :: "string \<Rightarrow> int outcome"
  stargate_min_amount :: "int \<Rightarrow> int outcome"
  web3_to_bytes :: "string \<Rightarrow> string outcome"
  stargate_quote_layer_zero_fee ::
    "string \<Rightarrow> nat \<Rightarrow> nat \<Rightarrow> nat \<Rightarrow> string \<Rightarrow> 'w \<Rightarrow> int outcome \<times> 'w"
  stargate_encode_swap :: "swap_params \<Rightarrow> string outcome"
  now_isoformat :: "'w \<Rightarrow> string \<times> 'w"
  str_of_amount :: "pyfloat \<Rightarrow> string"

record 'w run_state =
  rs_world :: 'w
  rs_calls :: "port_call list"

definition call_world :: "('w \<Rightarrow> 'a \<times> 'w) \<Rightarrow> 'w run_state \<Rightarrow> 'a \<times> 'w run_state" where
  "call_world f st = (case f (rs_world st) of (r, w') \<Rightarrow> (r, st\<lparr>rs_world := w'\<rparr>))"

definition call_approve ::
  "'w ports \<Rightarrow> string \<Rightarrow> jval \<Rightarrow> jval \<Rightarrow> jval \<Rightarrow> int \<Rightarrow> 'w run_state
     \<Rightarrow> string option outcome \<times> 'w run_state" where
  "call_approve P wallet chain token spender amount st =
     (case approve_token_for_bridge P wallet chain token spender amount (rs_world st) of
        (r, w') \<Rightarrow>
          (r, \<lparr>rs_world = w',
               rs_calls = rs_calls st @ [Approve wallet chain token spender amount r]\<rparr>))"

definition call_wait ::
  "'w ports \<Rightarrow> jval \<Rightarrow> string \<Rightarrow> int \<Rightarrow> 'w run_state \<Rightarrow> bool outcome \<times> 'w run_state" where
  "call_wait P chain tx_hash timeout st =
     (case wait_for_transaction P chain tx_hash timeout (rs_world st) of
        (r, w') \<Rightarrow>
          (r, \<lparr>rs_world = w', rs_calls = rs_calls st @ [Wait chain tx_hash timeout r]\<rparr>))"

definition call_send ::
  "'w ports \<Rightarrow> string \<Rightarrow> jval \<Rightarrow> jval \<Rightarrow> int \<Rightarrow> jval \<Rightarrow> 'w run_state
     \<Rightarrow> string option outcome \<times> 'w run_state" where
  "call_send P wallet chain to_address tx_value tx_bytes st =
     (case send_transaction P wallet chain to_address tx_value tx_bytes (rs_world st) of
        (r, w') \<Rightarrow>
          (r, \<lparr>rs_world = w',
               rs_calls = rs_calls st @ [Send wallet chain to_address tx_value tx_bytes r]\<rparr>))"

definition call_notify ::
  "'w ports \<Rightarrow> jval \<Rightarrow> string \<Rightarrow> 'w run_state \<Rightarrow> bool \<times> 'w run_state" where
  "call_notify P request_id tx_hash st =
     (case relay_notify_transaction P request_id tx_hash (rs_world st) of
        (r, w') \<Rightarrow>
          (r, \<lparr>rs_world = w', rs_calls = rs_calls st @ [Notify request_id tx_hash r]\<rparr>))"

definition jval_of :: "string option \<Rightarrow> jval" where
  "jval_of s = (case s of None \<Rightarrow> JNone | Some x \<Rightarrow> JStr x)"

definition int_result :: "int option \<Rightarrow> int outcome" where
  "int_result r = (case r of None \<Rightarrow> Raised | Some n \<Rightarrow> Returned n)"

definition or_default :: "jval option \<Rightarrow> jval \<Rightarrow> jval" where
  "or_default v d = (case v of None \<Rightarrow> d | Some x \<Rightarrow> x)"

definition tx_value_of :: "jval \<Rightarrow> int outcome" where
  "tx_value_of v =
     (case v of
        JStr s \<Rightarrow> if take 2 s = ''0x'' then int_result (py_int_str s 16)
                  else int_result (py_int_str s 10)
      | JInt n \<Rightarrow> Returned n
      | JNone \<Rightarrow> Raised)"

text \<open>
  The approval block, which the three adapters share word for word up to the arguments of
  the approve call (jumper\_bridge.py 240-263, relay\_bridge.py 243-266, stargate\_bridge.py
  275-298): \<open>Returned True\<close> when the run goes on, \<open>Returned False\<close> when the block
  executes \<open>return None\<close>.
\<close>

definition approval_step ::
  "'w ports \<Rightarrow> string \<Rightarrow> jval \<Rightarrow> jval \<Rightarrow> jval \<Rightarrow> int \<Rightarrow> 'w run_state
     \<Rightarrow> bool outcome \<times> 'w run_state" where
  "approval_step P wallet_address chain token spender amount st =
     (case call_approve P wallet_address chain token spender amount st of
        (Raised, st1) \<Rightarrow> (Raised, st1)
      | (Returned None, st1) \<Rightarrow> (Returned False, st1)
      | (Returned (Some approval_tx_hash), st1) \<Rightarrow>
          (if approval_tx_hash = [] then (Returned False, st1)
           else
            (case call_wait P chain approval_tx_hash 180 st1 of
               (Raised, st2) \<Rightarrow> (Raised, st2)
             | (Returned approval_success, st2) \<Rightarrow> (Returned approval_success, st2))))"

section \<open>Jumper adapter (jumper\_bridge.py)\<close>

definition jumper_prepare_transaction_data :: "jumper_quote \<Rightarrow> jumper_tx_data option" where
  "jumper_prepare_transaction_data quote =
     (case jq_transactionRequest quote of
        None \<Rightarrow> None
      | Some tx_request \<Rightarrow>
          Some \<lparr>td_to = jtr_to tx_request,
                td_data = jtr_data tx_request,
                td_value = or_default (jtr_value tx_request) (JStr ''0''),
                td_gasLimit = or_default (jtr_gasLimit tx_request) (JStr ''0''),
                td_gasPrice = or_default (jtr_gasPrice tx_request) (JStr ''0''),
                td_chain_id = jq_fromChainId quote\<rparr>)"

definition jumper_approval_amount :: "jval option \<Rightarrow> int outcome" where
  "jumper_approval_amount amount =
     (case or_default amount (JStr ''0'') of
        JStr s \<Rightarrow> int_result (py_int_str s 16)
      | JInt n \<Rightarrow> Raised
      | JNone \<Rightarrow> Raised)"

text \<open>Lines 265-306: the submission, the wait for its confirmation and the result.\<close>

definition jumper_submit ::
  "'w ports \<Rightarrow> string \<Rightarrow> string \<Rightarrow> string \<Rightarrow> string \<Rightarrow> string \<Rightarrow> string \<Rightarrow> jumper_quote
     \<Rightarrow> jumper_tx_data \<Rightarrow> 'w run_state \<Rightarrow> result_dict option outcome \<times> 'w run_state" where
  "jumper_submit P wallet_address from_chain to_chain from_token to_token amount quote tx_data st =
     (case tx_value_of (td_value tx_data) of
        Raised \<Rightarrow> (Raised, st)
      | Returned tx_value \<Rightarrow>
         (case call_send P wallet_address (td_chain_id tx_data) (td_to tx_data)
                 tx_value (td_data tx_data) st of
            (Raised, st3) \<Rightarrow> (Raised, st3)
          | (Returned None, st3) \<Rightarrow> (Returned None, st3)
          | (Returned (Some tx_hash), st3) \<Rightarrow>
             (if tx_hash = [] then (Returned None, st3)
              else
               (case call_wait P (td_chain_id tx_data) tx_hash 300 st3 of
                  (Raised, st4) \<Rightarrow> (Raised, st4)
                | (Returned False, st4) \<Rightarrow> (Returned None, st4)
                | (Returned True, st4) \<Rightarrow>
                   (case call_world (now_isoformat P) st4 of
                      (timestamp, st5) \<Rightarrow>
                        (Returned (Some
                           [(''tx_hash'', JStr tx_hash),
                            (''bridge_type'', jq_tool quote),
                            (''from_chain'', JStr from_chain),
                            (''to_chain'', JStr to_chain),
                            (''from_token'', JStr from_token),
                            (''to_token'', JStr to_token),
                            (''amount'', JStr amount),
                            (''status'', JStr ''pending''),
                            (''timestamp'', JStr timestamp)]), st5))))))"

text \<open>Lines 221-263 and the hand-over to the submission.\<close>

definition jumper_execute_bridge_body ::
  "'w ports \<Rightarrow> string \<Rightarrow> string \<Rightarrow> string \<Rightarrow> string \<Rightarrow> string \<Rightarrow> string \<Rightarrow> 'w run_state
     \<Rightarrow> result_dict option outcome \<times> 'w run_state" where
  "jumper_execute_bridge_body P wallet_address from_chain to_chain from_token to_token amount st =
     (case call_world (jumper_get_quote P from_chain to_chain from_token to_token amount
                         wallet_address) st of
        (None, st1) \<Rightarrow> (Returned None, st1)
      | (Some quote, st1) \<Rightarrow>
         (case jumper_prepare_transaction_data quote of
            None \<Rightarrow> (Returned None, st1)
          | Some tx_data \<Rightarrow>
             (case (case jq_approvalData quote of
                      None \<Rightarrow> (Returned True, st1)
                    | Some approval_data \<Rightarrow>
                       (case jumper_approval_amount (ja_amount approval_data) of
                          Raised \<Rightarrow> (Raised, st1)
                        | Returned approval_amount \<Rightarrow>
                            approval_step P wallet_address (td_chain_id tx_data)
                              (ja_tokenAddress approval_data) (ja_spenderAddress approval_data)
                              approval_amount st1)) of
                (Raised, st2) \<Rightarrow> (Raised, st2)
              | (Returned False, st2) \<Rightarrow> (Returned None, st2)
              | (Returned True, st2) \<Rightarrow>
                  jumper_submit P wallet_address from_chain to_chain from_token to_token amount
                    quote tx_data st2)))"

text \<open>The enclosing \<open>try ... except Exception: return None\<close>.\<close>

definition catch_all ::
  "result_dict option outcome \<times> 'w run_state \<Rightarrow> result_dict option \<times> 'w run_state" where
  "catch_all r = (case r of (Raised, st) \<Rightarrow> (None, st) | (Returned v, st) \<Rightarrow> (v, st))"

definition jumper_execute_bridge ::
  "'w ports \<Rightarrow> string \<Rightarrow> string \<Rightarrow> string \<Rightarrow> string \<Rightarrow> string \<Rightarrow> string \<Rightarrow> 'w run_state
     \<Rightarrow> result_dict option \<times> 'w run_state" where
  "jumper_execute_bridge P wallet_address from_chain to_chain from_token to_token amount st =
     catch_all (jumper_execute_bridge_body P wallet_address from_chain to_chain from_token
                  to_token amount st)"

section \<open>Relay adapter (relay\_bridge.py)\<close>

definition relay_prepare_transaction_data :: "relay_quote \<Rightarrow> relay_tx_data option" where
  "relay_prepare_transaction_data quote =
     (case rq_tx quote of
        None \<Rightarrow> None
      | Some tx \<Rightarrow>
          Some \<lparr>rtd_to = rtx_to tx,
                rtd_data = rtx_data tx,
                rtd_value = or_default (rtx_value tx) (JStr ''0''),
                rtd_gas_limit = or_default (rtx_gasLimit tx) (JStr ''0''),
                rtd_chain_id = rq_fromChainId quote,
                rtd_request_id = rq_requestId quote\<rparr>)"

definition relay_approval_amount :: "jval option \<Rightarrow> int outcome" where
  "relay_approval_amount amount =
     (case amount of
        Some (JStr s) \<Rightarrow> int_result (py_int_str s 16)
      | Some (JInt n) \<Rightarrow> Returned n
      | Some JNone \<Rightarrow> Raised
      | None \<Rightarrow> int_result (py_int_str ''0'' 10))"

text \<open>Lines 268-315: the submission, the notification of Relay, the wait for the
  confirmation and the result.\<close>

definition relay_submit ::
  "'w ports \<Rightarrow> string \<Rightarrow> string \<Rightarrow> string \<Rightarrow> jval \<Rightarrow> jval \<Rightarrow> string \<Rightarrow> relay_tx_data
     \<Rightarrow> 'w run_state \<Rightarrow> result_dict option outcome \<times> 'w run_state" where
  "relay_submit P wallet_address from_chain_id to_chain_id from_token_address to_token_address
       amount tx_data st =
     (case tx_value_of (rtd_value tx_data) of
        Raised \<Rightarrow> (Raised, st)
      | Returned tx_value \<Rightarrow>
         (case call_send P wallet_address (rtd_chain_id tx_data) (rtd_to tx_data)
                 tx_value (rtd_data tx_data) st of
            (Raised, st3) \<Rightarrow> (Raised, st3)
          | (Returned None, st3) \<Rightarrow> (Returned None, st3)
          | (Returned (Some tx_hash), st3) \<Rightarrow>
             (if tx_hash = [] then (Returned None, st3)
              else
               (case call_notify P (rtd_request_id tx_data) tx_hash st3 of
                  (notification_result, st4) \<Rightarrow>
                   (case call_wait P (rtd_chain_id tx_data) tx_hash 300 st4 of
                      (Raised, st5) \<Rightarrow> (Raised, st5)
                    | (Returned False, st5) \<Rightarrow> (Returned None, st5)
                    | (Returned True, st5) \<Rightarrow>
                       (case call_world (now_isoformat P) st5 of
                          (timestamp, st6) \<Rightarrow>
                            (Returned (Some
                               [(''tx_hash'', JStr tx_hash),
                                (''bridge_type'', JStr ''relay''),
                                (''request_id'', rtd_request_id tx_data),
                                (''from_chain_id'', JStr from_chain_id),
                                (''to_chain_id'', JStr to_chain_id),
                                (''from_token'', from_token_address),
                                (''to_token'', to_token_address),
                                (''amount'', JStr amount),
                                (''status'', JStr ''pending''),
                                (''timestamp'', JStr timestamp)]), st6)))))))"

text \<open>Lines 216-266 and the hand-over to the submission.\<close>

definition relay_execute_bridge_body ::
  "'w ports \<Rightarrow> string \<Rightarrow> string \<Rightarrow> string \<Rightarrow> jval \<Rightarrow> jval \<Rightarrow> string \<Rightarrow> 'w run_state
     \<Rightarrow> result_dict option outcome \<times> 'w run_state" where
  "relay_execute_bridge_body P wallet_address from_chain_id to_chain_id from_token_address
       to_token_address amount st =
     (case call_world (relay_get_quote P from_chain_id to_chain_id from_token_address
                         to_token_address amount wallet_address) st of
        (None, st1) \<Rightarrow> (Returned None, st1)
      | (Some quote, st1) \<Rightarrow>
         (case relay_prepare_transaction_data quote of
            None \<Rightarrow> (Returned None, st1)
          | Some tx_data \<Rightarrow>
             (case (case rq_approvalData quote of
                      None \<Rightarrow> (Returned True, st1)
                    | Some approval_data \<Rightarrow>
                       (case relay_approval_amount (ra_amount approval_data) of
                          Raised \<Rightarrow> (Raised, st1)
                        | Returned approval_amount \<Rightarrow>
                            approval_step P wallet_address (rtd_chain_id tx_data)
                              from_token_address (ra_spender approval_data)
                              approval_amount st1)) of
                (Raised, st2) \<Rightarrow> (Raised, st2)
              | (Returned False, st2) \<Rightarrow> (Returned None, st2)
              | (Returned True, st2) \<Rightarrow>
                  relay_submit P wallet_address from_chain_id to_chain_id from_token_address
                    to_token_address amount tx_data st2)))"

definition relay_execute_bridge ::
  "'w ports \<Rightarrow> string \<Rightarrow> string \<Rightarrow> string \<Rightarrow> jval \<Rightarrow> jval \<Rightarrow> string \<Rightarrow> 'w run_state
     \<Rightarrow> result_dict option \<times> 'w run_state" where
  "relay_execute_bridge P wallet_address from_chain_id to_chain_id from_token_address
       to_token_address amount st =
     catch_all (relay_execute_bridge_body P wallet_address from_chain_id to_chain_id
                  from_token_address to_token_address amount st)"


section \<open>Stargate adapter (stargate\_bridge.py)\<close>

definition get_chain_id :: "string \<Rightarrow> nat option" where
  "get_chain_id chain_name =
     (case map_of STARGATE_CHAINS chain_name of
        None \<Rightarrow> None
      | Some (chain_id, router) \<Rightarrow> Some chain_id)"

definition get_pool_id :: "string \<Rightarrow> string \<Rightarrow> nat option" where
  "get_pool_id token_symbol chain_name =
     (case map_of STARGATE_POOLS token_symbol of
        None \<Rightarrow> None
      | Some pools \<Rightarrow> map_of pools chain_name)"

definition quote_fee ::
  "'w ports \<Rightarrow> string \<Rightarrow> string \<Rightarrow> string \<Rightarrow> string \<Rightarrow> 'w run_state \<Rightarrow> int option \<times> 'w run_state" where
  "quote_fee P from_chain to_chain token_symbol refund_address st =
     (if from_chain \<notin> set (stargate_router_contracts P) then (None, st)
      else
       (case get_chain_id to_chain of
          None \<Rightarrow> (None, st)
        | Some dst_chain_id \<Rightarrow>
           (case (get_pool_id token_symbol from_chain, get_pool_id token_symbol to_chain) of
              (Some src_pool_id, Some dst_pool_id) \<Rightarrow>
                (case call_world (stargate_quote_layer_zero_fee P from_chain dst_chain_id
                                    src_pool_id dst_pool_id refund_address) st of
                   (Raised, st1) \<Rightarrow> (None, st1)
                 | (Returned fee, st1) \<Rightarrow> (Some fee, st1))
            | _ \<Rightarrow> (None, st))))"

definition prepare_swap_params ::
  "'w ports \<Rightarrow> string \<Rightarrow> string \<Rightarrow> string \<Rightarrow> int \<Rightarrow> int \<Rightarrow> string \<Rightarrow> swap_params option" where
  "prepare_swap_params P from_chain to_chain token_symbol amount min_amount recipient_address =
     (case get_chain_id to_chain of
        None \<Rightarrow> None
      | Some dst_chain_id \<Rightarrow>
         (case (get_pool_id token_symbol from_chain, get_pool_id token_symbol to_chain) of
            (Some src_pool_id, Some dst_pool_id) \<Rightarrow>
              (case web3_to_bytes P recipient_address of
                 Raised \<Rightarrow> None
               | Returned to_address_bytes \<Rightarrow>
                   Some \<lparr>sp_dst_chain_id = dst_chain_id,
                         sp_src_pool_id = src_pool_id,
                         sp_dst_pool_id = dst_pool_id,
                         sp_refund_address = recipient_address,
                         sp_amount = amount,
                         sp_min_amount = min_amount,
                         sp_to_address_bytes = to_address_bytes,
                         sp_payload = [],
                         sp_additional_data = []\<rparr>)
          | _ \<Rightarrow> None))"

definition router_of :: "string \<Rightarrow> string outcome" where
  "router_of chain_name =
     (case map_of STARGATE_CHAINS chain_name of
        None \<Rightarrow> Raised
      | Some (chain_id, router) \<Rightarrow> Returned router)"

text \<open>The condition of line 269, \<open>token_symbol != "ETH" and token_address\<close>.\<close>

definition stargate_approval_required :: "string \<Rightarrow> string option \<Rightarrow> bool" where
  "stargate_approval_required token_symbol token_address =
     (token_symbol \<noteq> ''ETH'' \<and>
      (case token_address of None \<Rightarrow> False | Some address \<Rightarrow> address \<noteq> []))"

text \<open>Lines 300-380: the swap parameters, the fee, the encoded call, the submission, the
  wait for its confirmation and the result.\<close>

definition stargate_submit ::
  "'w ports \<Rightarrow> string \<Rightarrow> string \<Rightarrow> string \<Rightarrow> string \<Rightarrow> string \<Rightarrow> int \<Rightarrow> int \<Rightarrow> 'w run_state
     \<Rightarrow> result_dict option outcome \<times> 'w run_state" where
  "stargate_submit P wallet_address from_chain to_chain token_symbol amount amount_wei
       min_amount_wei st =
     (case prepare_swap_params P from_chain to_chain token_symbol amount_wei min_amount_wei
             wallet_address of
        None \<Rightarrow> (Returned None, st)
      | Some swap_params \<Rightarrow>
         (case quote_fee P from_chain to_chain token_symbol wallet_address st of
            (None, st2) \<Rightarrow> (Returned None, st2)
          | (Some fee, st2) \<Rightarrow>
             (case router_of from_chain of
                Raised \<Rightarrow> (Raised, st2)
              | Returned router_address \<Rightarrow>
                 (case stargate_encode_swap P swap_params of
                    Raised \<Rightarrow> (Raised, st2)
                  | Returned tx_data \<Rightarrow>
                     (case call_send P wallet_address (JStr from_chain) (JStr router_address)
                             (if token_symbol \<noteq> ''ETH'' then fee else fee + amount_wei)
                             (JStr tx_data) st2 of
                        (Raised, st3) \<Rightarrow> (Raised, st3)
                      | (Returned None, st3) \<Rightarrow> (Returned None, st3)
                      | (Returned (Some tx_hash), st3) \<Rightarrow>
                         (if tx_hash = [] then (Returned None, st3)
                          else
                           (case call_wait P (JStr from_chain) tx_hash 300 st3 of
                              (Raised, st4) \<Rightarrow> (Raised, st4)
                            | (Returned False, st4) \<Rightarrow> (Returned None, st4)
                            | (Returned True, st4) \<Rightarrow>
                               (case call_world (now_isoformat P) st4 of
                                  (timestamp, st5) \<Rightarrow>
                                    (Returned (Some
                                       [(''tx_hash'', JStr tx_hash),
                                        (''bridge_type'', JStr ''stargate''),
                                        (''from_chain'', JStr from_chain),
                                        (''to_chain'', JStr to_chain),
                                        (''from_token'', JStr token_symbol),
                                        (''to_token'', JStr token_symbol),
                                        (''amount'', JStr amount),
                                        (''status'', JStr ''pending''),
                                        (''timestamp'', JStr timestamp)]), st5)))))))))"

text \<open>Lines 259-298 and the hand-over to the submission.\<close>

definition stargate_execute_bridge_body ::
  "'w ports \<Rightarrow> string \<Rightarrow> string \<Rightarrow> string \<Rightarrow> string \<Rightarrow> string \<Rightarrow> string option \<Rightarrow> 'w run_state
     \<Rightarrow> result_dict option outcome \<times> 'w run_state" where
  "stargate_execute_bridge_body P wallet_address from_chain to_chain token_symbol amount
       token_address st =
     (if from_chain \<notin> set (stargate_router_contracts P) then (Returned None, st)
      else
       (case (if token_symbol = ''ETH'' then web3_to_wei P amount
              else int_result (py_int_str amount 10)) of
          Raised \<Rightarrow> (Raised, st)
        | Returned amount_wei \<Rightarrow>
           (case stargate_min_amount P amount_wei of
              Raised \<Rightarrow> (Raised, st)
            | Returned min_amount_wei \<Rightarrow>
               (case (if stargate_approval_required token_symbol token_address then
                        (case router_of from_chain of
                           Raised \<Rightarrow> (Raised, st)
                         | Returned router_address \<Rightarrow>
                             approval_step P wallet_address (JStr from_chain)
                               (jval_of token_address) (JStr router_address) amount_wei st)
                      else (Returned True, st)) of
                  (Raised, st1) \<Rightarrow> (Raised, st1)
                | (Returned False, st1) \<Rightarrow> (Returned None, st1)
                | (Returned True, st1) \<Rightarrow>
                    stargate_submit P wallet_address from_chain to_chain token_symbol amount
                      amount_wei min_amount_wei st1))))"

definition stargate_execute_bridge ::
  "'w ports \<Rightarrow> string \<Rightarrow> string \<Rightarrow> string \<Rightarrow> string \<Rightarrow> string \<Rightarrow> string option \<Rightarrow> 'w run_state
     \<Rightarrow> result_dict option \<times> 'w run_state" where
  "stargate_execute_bridge P wallet_address from_chain to_chain token_symbol amount
       token_address st =
     catch_all (stargate_execute_bridge_body P wallet_address from_chain to_chain token_symbol
                  amount token_address st)"

section \<open>Aggregator (bridge\_aggregator.py, execute\_random\_bridge)\<close>

text \<open>\<open>{**d, k: v}\<close>\<close>

definition dict_set :: "('k \<times> 'v) list \<Rightarrow> 'k \<Rightarrow> 'v \<Rightarrow> ('k \<times> 'v) list" where
  "dict_set d k v =
     (if dict_has d k then map (\<lambda>(k', v'). if k' = k then (k', v) else (k', v')) d
      else d @ [(k, v)])"

definition available_tokens_of :: "(string \<times> (string \<times> real) list) list \<Rightarrow> token_table" where
  "available_tokens_of balances =
     map (\<lambda>(chain, tokens).
            (chain, map (\<lambda>(token_symbol, balance).
                           (token_symbol,
                            \<lparr>ti_address = Some ''0x...'', ti_balance = Some balance\<rparr>))
                        tokens))
         balances"

text \<open>\<open>self.services[service_name]\<close> (KeyError on an unknown name) and the
  \<open>if\<close>/\<open>elif\<close> chain that calls the adapter.\<close>

definition dispatch_bridge ::
  "'w ports \<Rightarrow> string \<Rightarrow> string \<Rightarrow> transfer \<Rightarrow> 'w run_state
     \<Rightarrow> (result_dict option \<times> 'w run_state) outcome" where
  "dispatch_bridge P service_name wallet_address transaction st =
     (case transaction of (from_chain, to_chain, token_symbol, token_address, amount) \<Rightarrow>
        if service_name = ''jumper'' then
          Returned (jumper_execute_bridge P wallet_address from_chain to_chain token_symbol
                      token_symbol (str_of_amount P amount) st)
        else if service_name = ''stargate'' then
          Returned (stargate_execute_bridge P wallet_address from_chain to_chain token_symbol
                      (str_of_amount P amount) token_address st)
        else if service_name = ''relay'' then
          Returned (relay_execute_bridge P wallet_address from_chain to_chain
                      (jval_of token_address) (jval_of token_address)
                      (str_of_amount P amount) st)
        else Raised)"

text \<open>The aggregator object, the global random generator and the world.\<close>

record 'w aggregator =
  transaction_history :: "result_dict list"
  random_state :: rng
  run_state :: "'w run_state"

definition execute_random_bridge_body ::
  "'w ports \<Rightarrow> string \<Rightarrow> 'w aggregator \<Rightarrow> result_dict option outcome \<times> 'w aggregator" where
  "execute_random_bridge_body P wallet_address a =
     (case call_world (update_balances P wallet_address) (run_state a) of
        (Raised, st1) \<Rightarrow> (Raised, a\<lparr>run_state := st1\<rparr>)
      | (Returned balances, st1) \<Rightarrow>
         (if balances = [] then (Returned None, a\<lparr>run_state := st1\<rparr>)
          else
           (case select_random_transaction wallet_address (map fst balances)
                   (available_tokens_of balances) (random_state a) of
              (Raised, g1) \<Rightarrow> (Raised, a\<lparr>random_state := g1, run_state := st1\<rparr>)
            | (Returned None, g1) \<Rightarrow> (Returned None, a\<lparr>random_state := g1, run_state := st1\<rparr>)
            | (Returned (Some transaction), g1) \<Rightarrow>
               (case transaction of (from_chain, to_chain, token_symbol, token_address, amount) \<Rightarrow>
                 (case select_random_service from_chain to_chain token_symbol g1 of
                    (None, g2) \<Rightarrow> (Raised, a\<lparr>random_state := g2, run_state := st1\<rparr>)
                  | (Some service_name, g2) \<Rightarrow>
                     (case dispatch_bridge P service_name wallet_address transaction st1 of
                        Raised \<Rightarrow> (Raised, a\<lparr>random_state := g2, run_state := st1\<rparr>)
                      | Returned (None, st2) \<Rightarrow>
                          (Returned None, a\<lparr>random_state := g2, run_state := st2\<rparr>)
                      | Returned (Some result, st2) \<Rightarrow>
                          (if result = [] then
                             (Returned (Some result), a\<lparr>random_state := g2, run_state := st2\<rparr>)
                           else
                             (Returned (Some result),
                              a\<lparr>transaction_history := transaction_history a @
                                    [dict_set result ''service'' (JStr service_name)],
                                 random_state := g2, run_state := st2\<rparr>))))))))"

definition execute_random_bridge ::
  "'w ports \<Rightarrow> string \<Rightarrow> 'w aggregator \<Rightarrow> result_dict option \<times> 'w aggregator" where
  "execute_random_bridge P wallet_address a =
     (case execute_random_bridge_body P wallet_address a of
        (Raised, a') \<Rightarrow> (None, a')
      | (Returned result, a') \<Rightarrow> (result, a'))"

section \<open>Predicates on the call log\<close>

fun is_send :: "port_call \<Rightarrow> bool" where
  "is_send (Send wallet chain to_address tx_value tx_bytes reply) = True"
| "is_send _ = False"

text \<open>The approve call and the wait with the 180-second timeout.\<close>

fun is_approval_call :: "port_call \<Rightarrow> bool" where
  "is_approval_call (Approve wallet chain token spender amount reply) = True"
| "is_approval_call (Wait chain tx_hash timeout reply) = (timeout = 180)"
| "is_approval_call _ = False"

fun approval_confirmed :: "port_call \<Rightarrow> bool" where
  "approval_confirmed (Wait chain tx_hash timeout reply) =
     (timeout = 180 \<and> reply = Returned True)"
| "approval_confirmed _ = False"

text \<open>The approve call gave no transaction hash, or the 180-second wait did not return
  \<open>True\<close>.\<close>

fun approval_failed :: "port_call \<Rightarrow> bool" where
  "approval_failed (Approve wallet chain token spender amount reply) =
     (case reply of Returned (Some h) \<Rightarrow> h = [] | _ \<Rightarrow> True)"
| "approval_failed (Wait chain tx_hash timeout reply) =
     (timeout = 180 \<and> reply \<noteq> Returned True)"
| "approval_failed _ = False"

text \<open>Reading the log from the start, no submission comes before a confirmed approval.\<close>

fun send_after_confirmation :: "port_call list \<Rightarrow> bool" where
  "send_after_confirmation [] = True"
| "send_after_confirmation (e # es) =
     (if is_send e then False
      else if approval_confirmed e then True
      else send_after_confirmation es)"

text \<open>No approval call comes after the first submission.\<close>

fun approval_before_send :: "port_call list \<Rightarrow> bool" where
  "approval_before_send [] = True"
| "approval_before_send (e # es) =
     (if is_send e then \<not> list_ex is_approval_call es else approval_before_send es)"

text \<open>Whether the quote that the provider returns asks for an approval (the conditions
  of jumper\_bridge.py line 234 and relay\_bridge.py line 237).\<close>

definition jumper_approval_required ::
  "'w ports \<Rightarrow> string \<Rightarrow> string \<Rightarrow> string \<Rightarrow> string \<Rightarrow> string \<Rightarrow> string \<Rightarrow> 'w run_state \<Rightarrow> bool" where
  "jumper_approval_required P wallet_address from_chain to_chain from_token to_token amount st =
     (case fst (jumper_get_quote P from_chain to_chain from_token to_token amount wallet_address
                  (rs_world st)) of
        None \<Rightarrow> False
      | Some quote \<Rightarrow> jq_approvalData quote \<noteq> None)"

definition relay_approval_required ::
  "'w ports \<Rightarrow> string \<Rightarrow> string \<Rightarrow> string \<Rightarrow> jval \<Rightarrow> jval \<Rightarrow> string \<Rightarrow> 'w run_state \<Rightarrow> bool" where
  "relay_approval_required P wallet_address from_chain_id to_chain_id from_token_address
       to_token_address amount st =
     (case fst (relay_get_quote P from_chain_id to_chain_id from_token_address to_token_address
                  amount wallet_address (rs_world st)) of
        None \<Rightarrow> False
      | Some quote \<Rightarrow> rq_approvalData quote \<noteq> None)"

text \<open>What a submission part adds to the log: nothing, or a submission followed only by
  calls that are neither submissions nor approval calls.\<close>

fun submission_log :: "port_call list \<Rightarrow> bool" where
  "submission_log [] = True"
| "submission_log (e # es) =
     (is_send e \<and> list_all (\<lambda>x. \<not> is_send x \<and> \<not> is_approval_call x) es)"

text \<open>
  The logs a provider-adapter run can leave, given whether an approval was required and
  what the run returned: the run stopped within the approval block or before any call; or
  no approval was required and the log is that of the submission part; or the approval was
  confirmed and the submission part follows it.
\<close>

inductive run_log :: "bool \<Rightarrow> result_dict option \<Rightarrow> port_call list \<Rightarrow> bool" where
  stopped: "list_all is_approval_call cs \<Longrightarrow> \<not> list_ex approval_confirmed cs \<Longrightarrow>
            (cs \<noteq> [] \<longrightarrow> required \<and> list_ex approval_failed cs) \<Longrightarrow>
            run_log required None cs"
| unapproved: "submission_log cs \<Longrightarrow> (res \<noteq> None \<longrightarrow> cs \<noteq> []) \<Longrightarrow> run_log False res cs"
| approved: "h \<noteq> [] \<Longrightarrow> submission_log cs \<Longrightarrow> (res \<noteq> None \<longrightarrow> cs \<noteq> []) \<Longrightarrow>
             run_log True res
               (Approve a c t s n (Returned (Some h)) # Wait c h 180 (Returned True) # cs)"

text \<open>
  The discipline of claim C1 as a check on a finished run: without a confirmed approval
  where one is required, and after any failed approval call, the run returns \<open>None\<close> and
  the log holds no submission; a required approval is confirmed before any submission; no
  approval call follows a submission.
\<close>

definition approval_discipline :: "bool \<Rightarrow> result_dict option \<Rightarrow> port_call list \<Rightarrow> bool" where
  "approval_discipline required res calls =
     ((required \<and> \<not> list_ex approval_confirmed calls \<longrightarrow>
          res = None \<and> \<not> list_ex is_send calls)
      \<and> (list_ex approval_failed calls \<longrightarrow> res = None \<and> \<not> list_ex is_send calls)
      \<and> (required \<longrightarrow> send_after_confirmation calls)
      \<and> approval_before_send calls)"

text \<open>A submission that returned a transaction hash.\<close>

fun sent_ok :: "port_call \<Rightarrow> bool" where
  "sent_ok (Send wallet chain to_address tx_value tx_bytes reply) =
     (case reply of Returned (Some h) \<Rightarrow> h \<noteq> [] | _ \<Rightarrow> False)"
| "sent_ok _ = False"

text \<open>
  The value of a digit string read, in the words of claim C10, as a base-16 big-endian
  unsigned integer: the first digit is the most significant.
\<close>

fun spec_hex_value :: "string \<Rightarrow> nat" where
  "spec_hex_value [] = 0"
| "spec_hex_value (c # cs) = digit_value c * 16 ^ length cs + spec_hex_value cs"

section \<open>Concrete inputs used in witnesses and counterexamples\<close>

text \<open>A random source that replays a finite script of draws and then yields zeros.\<close>

definition rng_of_list :: "nat list \<Rightarrow> rng" where
  "rng_of_list xs n = (if n < length xs then xs ! n else 0)"

text \<open>A wallet holding 100 USDC on chain X and 1 ETH on chain Y.\<close>

definition example_tokens :: token_table where
  "example_tokens =
     [(''X'', [(''USDC'', \<lparr>ti_address = Some ''0x...'', ti_balance = Some 100\<rparr>)]),
      (''Y'', [(''ETH'', \<lparr>ti_address = Some ''0x...'', ti_balance = Some 1\<rparr>)])]"

text \<open>The same two chains with a given USDC balance on chain X.\<close>

definition example_balance_table :: "real \<Rightarrow> token_table" where
  "example_balance_table b =
     [(''X'', [(''USDC'', \<lparr>ti_address = Some ''0x...'', ti_balance = Some b\<rparr>)]),
      (''Y'', [(''ETH'', \<lparr>ti_address = Some ''0x...'', ti_balance = Some 1\<rparr>)])]"

text \<open>Chain a holds 100 ETH, chain c lists ETH with a zero balance.\<close>

definition example_one_eligible :: token_table where
  "example_one_eligible =
     [(''a'', [(''ETH'', \<lparr>ti_address = Some ''0x...'', ti_balance = Some 100\<rparr>)]),
      (''c'', [(''ETH'', \<lparr>ti_address = Some ''0x...'', ti_balance = Some 0\<rparr>)])]"

text \<open>A wallet with zero balances, as the balance checker reports them: chain a holds no
  USDC and 1 ETH, chain b holds 1 ETH, chain c holds only a zero ETH balance.\<close>

definition example_chains :: "string list" where
  "example_chains = [''a'', ''b'', ''c'']"

definition example_zero_balances :: token_table where
  "example_zero_balances =
     [(''a'', [(''USDC'', \<lparr>ti_address = Some ''0x...'', ti_balance = Some 0\<rparr>),
               (''ETH'', \<lparr>ti_address = Some ''0x...'', ti_balance = Some 1\<rparr>)]),
      (''b'', [(''ETH'', \<lparr>ti_address = Some ''0x...'', ti_balance = Some 1\<rparr>)]),
      (''c'', [(''ETH'', \<lparr>ti_address = Some ''0x...'', ti_balance = Some 0\<rparr>)])]"

text \<open>A generation time: day 739925 at 12:30:15.5.\<close>

definition example_now :: datetime where
  "example_now = \<lparr>dt_ordinal = 739925, dt_hour = 12, dt_minute = 30, dt_second = 15,
                   dt_microsecond = 500000\<rparr>"

text \<open>
  A Jumper quote that asks for an approval of the amount string \<open>"100"\<close>, a Relay quote
  that asks for none, and ports in which every call answers, the wait for an approval
  (timeout 180) reports failure, the wait for a submission (timeout 300) reports success
  and Relay's notification fails. The world is a counter of the calls made.
\<close>

definition example_jumper_tx_request :: jumper_tx_request where
  "example_jumper_tx_request =
     \<lparr>jtr_to = JStr ''0x1234'', jtr_data = JStr ''0xabcd'',
      jtr_value = Some (JStr ''0x0''), jtr_gasLimit = None, jtr_gasPrice = None\<rparr>"

definition example_jumper_approval :: jumper_approval where
  "example_jumper_approval =
     \<lparr>ja_tokenAddress = JStr ''0xtoken'', ja_spenderAddress = JStr ''0xspender'',
      ja_amount = Some (JStr ''100'')\<rparr>"

definition example_jumper_quote :: jumper_quote where
  "example_jumper_quote =
     \<lparr>jq_transactionRequest = Some example_jumper_tx_request,
      jq_fromChainId = JStr ''1'',
      jq_approvalData = Some example_jumper_approval,
      jq_tool = JStr ''across''\<rparr>"

definition example_relay_quote :: relay_quote where
  "example_relay_quote =
     \<lparr>rq_tx = Some \<lparr>rtx_to = JStr ''0x5678'', rtx_data = JStr ''0xef'',
                     rtx_value = Some (JStr ''0x0''), rtx_gasLimit = None\<rparr>,
      rq_fromChainId = JStr ''8453'',
      rq_requestId = JStr ''req-1'',
      rq_approvalData = None\<rparr>"

definition example_ports :: "nat ports" where
  "example_ports =
     \<lparr>update_balances = (\<lambda>address w.
         (Returned [(''X'', [(''USDC'', 100)]), (''Y'', [(''ETH'', 1)])], Suc w)),
      approve_token_for_bridge = (\<lambda>wallet chain token spender amount w.
         (Returned (Some ''0xa1''), Suc w)),
      send_transaction = (\<lambda>wallet chain to_address tx_value tx_bytes w.
         (Returned (Some ''0xb2''), Suc w)),
      wait_for_transaction = (\<lambda>chain tx_hash timeout w. (Returned (timeout = 300), Suc w)),
      jumper_get_quote = (\<lambda>from_chain to_chain from_token to_token amount address w.
         (Some example_jumper_quote, Suc w)),
      relay_get_quote = (\<lambda>from_chain to_chain from_token to_token amount address w.
         (Some example_relay_quote, Suc w)),
      relay_notify_transaction = (\<lambda>request_id tx_hash w. (False, Suc w)),
      stargate_router_contracts = [''ethereum'', ''base''],
      web3_to_wei = (\<lambda>amount. Raised),
      stargate_min_amount = (\<lambda>amount_wei. Returned (amount_wei * 97 div 100)),
      web3_to_bytes = (\<lambda>hexstr. Returned hexstr),
      stargate_quote_layer_zero_fee = (\<lambda>from_chain dst src_pool dst_pool refund w.
         (Returned 5, Suc w)),
      stargate_encode_swap = (\<lambda>params. Returned ''0xswap''),
      now_isoformat = (\<lambda>w. (''2026-01-01T00:00:00'', w)),
      str_of_amount = (\<lambda>amount. ''10.0'')\<rparr>"

definition example_state :: "nat run_state" where
  "example_state = \<lparr>rs_world = 0, rs_calls = []\<rparr>"

text \<open>An aggregator with one record in its history, an empty call log and a random
  source that replays the given draws.\<close>

definition example_aggregator :: "nat list \<Rightarrow> nat aggregator" where
  "example_aggregator draws =
     \<lparr>transaction_history = [[(''tx_hash'', JStr ''0x0ld''), (''service'', JStr ''jumper'')]],
      random_state = rng_of_list draws,
      run_state = example_state\<rparr>"

section \<open>Properties of provider selection\<close>

lemma random_choice_mem:
  "xs \<noteq> [] \<Longrightarrow> \<exists>x. fst (random_choice xs g) = Some x \<and> x \<in> set xs"
  by (simp add: random_choice_def)

lemma supported_services_set:
  "set (supported_services f t k) =
     {''jumper'', ''relay''} \<union> (if stargate_condition f t k then {''stargate''} else {})"
  by (auto simp: supported_services_def)

text \<open>
  Claim C6. For every (from\_chain, to\_chain, token\_symbol) and every state of the random
  source, \<open>select_random_service\<close> returns a member of the surviving candidate list. That
  list always holds jumper and relay, holds stargate exactly when both chains are keys of
  \<open>STARGATE_CHAINS\<close> and the token has a \<open>STARGATE_POOLS\<close> entry with both chains as keys,
  and is never empty; stargate is returned only when that condition holds.
\<close>

theorem select_random_service_candidate:
  "\<exists>name. fst (select_random_service f t k g) = Some name
      \<and> name \<in> set (supported_services f t k)
      \<and> ''jumper'' \<in> set (supported_services f t k)
      \<and> ''relay'' \<in> set (supported_services f t k)
      \<and> (''stargate'' \<in> set (supported_services f t k) \<longleftrightarrow>
           (dict_has STARGATE_CHAINS f \<and> dict_has STARGATE_CHAINS t \<and>
            (\<exists>pools. map_of STARGATE_POOLS k = Some pools \<and> dict_has pools f \<and> dict_has pools t)))
      \<and> (name = ''stargate'' \<longrightarrow> stargate_condition f t k)
      \<and> supported_services f t k \<noteq> []"
proof -
  have ne: "supported_services f t k \<noteq> []"
    by (simp add: supported_services_def)
  from random_choice_mem [OF ne] obtain name where
    n: "fst (random_choice (supported_services f t k) g) = Some name"
       "name \<in> set (supported_services f t k)"
    by blast
  have sg: "''stargate'' \<in> set (supported_services f t k) \<longleftrightarrow> stargate_condition f t k"
    by (simp add: supported_services_set)
  have cond: "stargate_condition f t k \<longleftrightarrow>
      (dict_has STARGATE_CHAINS f \<and> dict_has STARGATE_CHAINS t \<and>
       (\<exists>pools. map_of STARGATE_POOLS k = Some pools \<and> dict_has pools f \<and> dict_has pools t))"
    by (auto simp: stargate_condition_def split: option.splits)
  have "name = ''stargate'' \<longrightarrow> stargate_condition f t k"
    using n(2) sg by blast
  moreover have "''jumper'' \<in> set (supported_services f t k)"
    and "''relay'' \<in> set (supported_services f t k)"
    by (simp_all add: supported_services_set)
  ultimately show ?thesis
    using n ne sg cond by (auto simp: select_random_service_def)
qed

theorem select_random_service_candidate_witness:
  "fst (select_random_service ''ethereum'' ''base'' ''USDC'' (rng_of_list [1])) = Some ''stargate''
   \<and> stargate_condition ''ethereum'' ''base'' ''USDC''"
proof -
  have r: "fst (select_random_service ''ethereum'' ''base'' ''USDC'' (rng_of_list [1]))
             = Some ''stargate''"
    by (simp add: select_random_service_def supported_services_def stargate_condition_def
        dict_has_def STARGATE_CHAINS_def STARGATE_POOLS_def random_choice_def rng_next_def
        rng_of_list_def)
  from select_random_service_candidate [of "''ethereum''" "''base''" "''USDC''" "rng_of_list [1]"] r
  show ?thesis by auto
qed

section \<open>Properties of float rounding\<close>

text \<open>
  \<open>floor_log2\<close> is the binary exponent; rounding moves a positive value by at most half a
  unit in the last place, and never above a float that bounds the value from above. The
  bounds on \<open>percentage_amount\<close> follow from these facts.
\<close>

lemma powi_neg: "1 / 2 powi k = (2::real) powi (- k)"
  by (simp add: power_int_minus inverse_eq_divide)

lemma bitlen_floor_bounds:
  fixes y :: real
  assumes "1 \<le> y"
  shows "0 \<le> bitlen \<lfloor>y\<rfloor> - 1" and "2 powi (bitlen \<lfloor>y\<rfloor> - 1) \<le> y"
    and "y < 2 powi (bitlen \<lfloor>y\<rfloor> - 1 + 1)"
proof -
  let ?n = "\<lfloor>y\<rfloor>"
  have n: "0 < ?n" using assms by linarith
  have b1: "1 \<le> bitlen ?n"
    using n bitlen_eq_zero_iff [of ?n] bitlen_nonneg [of ?n] by linarith
  then show "0 \<le> bitlen ?n - 1" by simp
  from bitlen_bounds [OF n]
  have lo: "(2::int) ^ nat (bitlen ?n - 1) \<le> ?n" and hi: "?n < 2 ^ nat (bitlen ?n)"
    by simp_all
  have "2 powi (bitlen ?n - 1) = (2::real) ^ nat (bitlen ?n - 1)"
    using b1 by (simp add: power_int_def)
  also have "\<dots> = real_of_int (2 ^ nat (bitlen ?n - 1))" by simp
  also have "\<dots> \<le> real_of_int ?n" using lo by (rule of_int_le_iff [THEN iffD2])
  also have "\<dots> \<le> y" by simp
  finally show "2 powi (bitlen ?n - 1) \<le> y" .
  have "?n + 1 \<le> 2 ^ nat (bitlen ?n)" using hi by simp
  then have "real_of_int (?n + 1) \<le> real_of_int (2 ^ nat (bitlen ?n))"
    by (rule of_int_le_iff [THEN iffD2])
  then have c: "real_of_int ?n + 1 \<le> 2 ^ nat (bitlen ?n)" by simp
  have "y < real_of_int ?n + 1" by linarith
  then have "y < (2::real) ^ nat (bitlen ?n)" using c by linarith
  moreover have "2 powi (bitlen ?n - 1 + 1) = (2::real) ^ nat (bitlen ?n)"
    using b1 by (simp add: power_int_def)
  ultimately show "y < 2 powi (bitlen ?n - 1 + 1)" by simp
qed

lemma floor_log2_bounds:
  assumes "0 < x"
  shows "2 powi (floor_log2 x) \<le> x \<and> x < 2 powi (floor_log2 x + 1)"
proof (cases "1 \<le> x")
  case True
  then show ?thesis
    using bitlen_floor_bounds(2,3) [OF True] by (simp add: floor_log2_def)
next
  case False
  let ?y = "1 / x"
  let ?f = "bitlen \<lfloor>?y\<rfloor> - 1"
  have y: "1 \<le> ?y" using False assms by simp
  note b = bitlen_floor_bounds [OF y]
  show ?thesis
  proof (cases "2 powi ?f = ?y")
    case True
    have "x = 1 / ?y" by simp
    also have "\<dots> = 1 / 2 powi ?f" using True by simp
    also have "\<dots> = 2 powi (- ?f)" by (rule powi_neg)
    finally have x: "x = 2 powi (- ?f)" .
    have fl: "floor_log2 x = - ?f" using False True by (simp add: floor_log2_def)
    have "(2::real) powi (- ?f) < 2 powi (- ?f + 1)"
      by (rule power_int_strict_increasing) simp_all
    then have "2 powi (- ?f) \<le> x \<and> x < 2 powi (- ?f + 1)" using x by linarith
    then show ?thesis unfolding fl .
  next
    case ne: False
    have fl: "floor_log2 x = - ?f - 1" using False ne by (simp add: floor_log2_def Let_def)
    have lt: "2 powi ?f < ?y" using b(2) ne by simp
    have "2 powi (- ?f - 1) = 1 / (2::real) powi (?f + 1)"
      using powi_neg [of "?f + 1"] by simp
    also have "\<dots> \<le> x" using b(3) assms by (simp add: field_simps)
    finally have lo: "2 powi (- ?f - 1) \<le> x" .
    have "x < 1 / 2 powi ?f" using lt assms by (simp add: field_simps)
    also have "\<dots> = 2 powi (- ?f - 1 + 1)" using powi_neg [of "?f"] by simp
    finally have hi: "x < 2 powi (- ?f - 1 + 1)" .
    show ?thesis using lo hi fl by simp
  qed
qed

lemma floor_log2_eq:
  assumes "2 powi e \<le> x" and "x < 2 powi (e + 1)"
  shows "floor_log2 x = e"
proof -
  have x: "0 < x" using assms(1) by (rule less_le_trans [OF zero_less_power_int, rotated]) simp
  note b = floor_log2_bounds [OF x]
  have "2 powi e < (2::real) powi (floor_log2 x + 1)" using assms(1) b by linarith
  then have 1: "e < floor_log2 x + 1"
    by (metis power_int_increasing not_le one_le_numeral)
  have "2 powi (floor_log2 x) < (2::real) powi (e + 1)" using assms(2) b by linarith
  then have 2: "floor_log2 x < e + 1"
    by (metis power_int_increasing not_le one_le_numeral)
  show ?thesis using 1 2 by simp
qed

lemma floor_log2_mono:
  assumes "0 < x" and "x \<le> y"
  shows "floor_log2 x \<le> floor_log2 y"
proof -
  have y: "0 < y" using assms by simp
  have "2 powi (floor_log2 x) < (2::real) powi (floor_log2 y + 1)"
    using floor_log2_bounds [OF assms(1)] floor_log2_bounds [OF y] assms(2) by linarith
  then have "floor_log2 x < floor_log2 y + 1"
    by (metis power_int_increasing not_le one_le_numeral)
  then show ?thesis by simp
qed


lemma round_half_even_cases:
  "round_half_even x = \<lfloor>x\<rfloor> \<and> x - of_int \<lfloor>x\<rfloor> \<le> 1 / 2
   \<or> round_half_even x = \<lfloor>x\<rfloor> + 1 \<and> 1 / 2 \<le> x - of_int \<lfloor>x\<rfloor>"
  by (simp add: round_half_even_def Let_def)

lemma round_half_even_upper: "real_of_int (round_half_even x) \<le> x + 1 / 2"
  using round_half_even_cases [of x] by (elim disjE conjE) linarith+

lemma round_half_even_lower: "x - 1 / 2 \<le> real_of_int (round_half_even x)"
  using round_half_even_cases [of x] by (elim disjE conjE) linarith+

lemma round_half_even_nonneg: "0 \<le> x \<Longrightarrow> 0 \<le> round_half_even x"
  using round_half_even_cases [of x] by (elim disjE conjE) simp_all

lemma round_half_even_le_int:
  assumes "x \<le> real_of_int M"
  shows "round_half_even x \<le> M"
  using round_half_even_cases [of x]
proof (elim disjE conjE)
  assume "round_half_even x = \<lfloor>x\<rfloor>"
  moreover have "\<lfloor>x\<rfloor> \<le> M" using assms by (simp add: floor_le_iff)
  ultimately show ?thesis by simp
next
  assume r: "round_half_even x = \<lfloor>x\<rfloor> + 1" and h: "1 / 2 \<le> x - of_int \<lfloor>x\<rfloor>"
  have "real_of_int \<lfloor>x\<rfloor> < real_of_int M" using h assms by linarith
  then have "\<lfloor>x\<rfloor> < M" by simp
  then show ?thesis using r by simp
qed

lemma fl_round_pos:
  assumes "0 < x"
  shows "fl_round x =
     (if overflow_threshold \<le> of_int (round_half_even (x / 2 powi ulp_exponent x)) * 2 powi ulp_exponent x
      then PosInf
      else Finite (of_int (round_half_even (x / 2 powi ulp_exponent x)) * 2 powi ulp_exponent x))"
  using assms by (simp add: fl_round_def Let_def)

lemma ulp_exponent_mono: "0 < x \<Longrightarrow> x \<le> y \<Longrightarrow> ulp_exponent x \<le> ulp_exponent y"
  using floor_log2_mono [of x y] by (simp add: ulp_exponent_def)

lemma is_double_pos:
  assumes "is_double b" and "0 < b"
  obtains M where "0 < M" and "b = real_of_int M * 2 powi ulp_exponent b" and "b < overflow_threshold"
proof -
  let ?M = "round_half_even (b / 2 powi ulp_exponent b)"
  from assms have eq: "b = real_of_int ?M * 2 powi ulp_exponent b" and lt: "b < overflow_threshold"
    by (simp_all add: is_double_def fl_round_pos split: if_splits)
  have "0 < real_of_int ?M * 2 powi ulp_exponent b" using eq assms(2) by simp
  moreover have "0 < (2::real) powi ulp_exponent b" by simp
  ultimately have "0 < real_of_int ?M" by (simp only: zero_less_mult_pos2)
  then have "0 < ?M" by simp
  then show thesis using eq lt that by blast
qed

lemma fl_round_below_double:
  assumes y: "0 < y" and le: "y \<le> b" and b: "is_double b"
  obtains v where "fl_round y = Finite v" and "0 \<le> v" and "v \<le> b"
proof -
  have bpos: "0 < b" using y le by simp
  obtain M where M: "0 < M" and eq: "b = real_of_int M * 2 powi ulp_exponent b"
    and lt: "b < overflow_threshold"
    using is_double_pos [OF b bpos] by blast
  let ?ky = "ulp_exponent y" and ?kb = "ulp_exponent b"
  have k: "?ky \<le> ?kb" using ulp_exponent_mono [OF y le] .
  have split: "(2::real) powi ?kb = 2 powi (?kb - ?ky) * 2 powi ?ky"
    by (simp flip: power_int_add)
  have nat: "(2::real) powi (?kb - ?ky) = real_of_int (2 ^ nat (?kb - ?ky))"
    using k by (simp add: power_int_def)
  let ?N = "M * 2 ^ nat (?kb - ?ky)"
  have bN: "b = real_of_int ?N * 2 powi ?ky"
    using eq split nat by simp
  have "y / 2 powi ?ky \<le> b / 2 powi ?ky" using le by (simp add: divide_right_mono)
  also have "\<dots> = real_of_int ?N * 2 powi ?ky / 2 powi ?ky" using bN by simp
  also have "\<dots> = real_of_int ?N" by simp
  finally have "round_half_even (y / 2 powi ?ky) \<le> ?N" by (rule round_half_even_le_int)
  then have "real_of_int (round_half_even (y / 2 powi ?ky)) \<le> real_of_int ?N"
    by (rule of_int_le_iff [THEN iffD2])
  then have "real_of_int (round_half_even (y / 2 powi ?ky)) * 2 powi ?ky
      \<le> real_of_int ?N * 2 powi ?ky"
    by (rule mult_right_mono) simp
  also have "\<dots> = b" using bN by (rule sym)
  finally have vb: "real_of_int (round_half_even (y / 2 powi ?ky)) * 2 powi ?ky \<le> b" .
  have "0 \<le> round_half_even (y / 2 powi ?ky)"
    using y by (intro round_half_even_nonneg) simp
  then have v0: "0 \<le> real_of_int (round_half_even (y / 2 powi ?ky)) * 2 powi ?ky" by simp
  have "fl_round y = Finite (real_of_int (round_half_even (y / 2 powi ?ky)) * 2 powi ?ky)"
    using vb lt by (simp add: fl_round_pos [OF y])
  then show thesis using v0 vb that by blast
qed


lemma fl_round_pos_cases:
  assumes "0 < x"
  obtains (overflow) "fl_round x = PosInf"
  | (finite) v where "fl_round x = Finite v" and "0 \<le> v"
      and "v = real_of_int (round_half_even (x / 2 powi ulp_exponent x)) * 2 powi ulp_exponent x"
proof -
  have "0 \<le> round_half_even (x / 2 powi ulp_exponent x)"
    using assms by (intro round_half_even_nonneg) simp
  then have "0 \<le> real_of_int (round_half_even (x / 2 powi ulp_exponent x)) * 2 powi ulp_exponent x"
    by simp
  then show thesis using fl_round_pos [OF assms] overflow finite by presburger
qed

lemma fl_round_error:
  assumes "0 < x" and "fl_round x = Finite v"
  shows "\<bar>v - x\<bar> \<le> 2 powi ulp_exponent x / 2"
proof -
  let ?k = "ulp_exponent x"
  let ?m = "real_of_int (round_half_even (x / 2 powi ?k))"
  have v: "v = ?m * 2 powi ?k"
    using assms by (simp add: fl_round_pos split: if_splits)
  have x: "x = x / 2 powi ?k * 2 powi ?k" by simp
  have "?m * 2 powi ?k \<le> (x / 2 powi ?k + 1 / 2) * 2 powi ?k"
    by (rule mult_right_mono [OF round_half_even_upper]) simp
  also have "\<dots> = x + 2 powi ?k / 2" by (simp add: algebra_simps)
  finally have up: "v \<le> x + 2 powi ?k / 2" using v by simp
  have "(x / 2 powi ?k - 1 / 2) * 2 powi ?k \<le> ?m * 2 powi ?k"
    by (rule mult_right_mono [OF round_half_even_lower]) simp
  moreover have "(x / 2 powi ?k - 1 / 2) * 2 powi ?k = x - 2 powi ?k / 2"
    by (simp add: algebra_simps)
  ultimately have lo: "x - 2 powi ?k / 2 \<le> v" using v by simp
  show ?thesis using up lo by linarith
qed

lemma ulp_exponent_cases:
  assumes "0 < x"
  shows "2 powi ulp_exponent x \<le> x / 2 ^ 52 \<or> ulp_exponent x = min_exponent"
proof (cases "min_exponent \<le> floor_log2 x - 52")
  case True
  then have k: "ulp_exponent x = floor_log2 x - 52" by (simp add: ulp_exponent_def)
  have "(2::real) powi (floor_log2 x - 52) = 2 powi floor_log2 x / 2 powi 52"
    by (rule power_int_diff) simp
  also have "\<dots> \<le> x / 2 powi 52"
    using floor_log2_bounds [OF assms] by (intro divide_right_mono) simp_all
  finally show ?thesis using k by simp
next
  case False
  then show ?thesis by (simp add: ulp_exponent_def)
qed

lemma is_double_min:
  assumes "is_double b" and "0 < b"
  shows "2 powi min_exponent \<le> b"
proof -
  obtain M where M: "0 < M" and eq: "b = real_of_int M * 2 powi ulp_exponent b"
    using is_double_pos [OF assms] by blast
  have "(2::real) powi min_exponent \<le> 2 powi ulp_exponent b"
    by (rule power_int_increasing) (simp_all add: ulp_exponent_def)
  also have "\<dots> = 1 * 2 powi ulp_exponent b" by simp
  also have "\<dots> \<le> real_of_int M * 2 powi ulp_exponent b"
    using M by (intro mult_right_mono) simp_all
  finally show ?thesis using eq by simp
qed

lemma float_mul_bound:
  assumes b: "is_double b" and pos: "0 < b" and p: "10 \<le> p" "p \<le> 90"
    and r: "float_mul b p = Finite v"
  shows "0 \<le> v \<and> v \<le> 100 * b"
proof -
  let ?x = "b * p"
  have x: "0 < ?x" using pos p by simp
  have xb: "?x \<le> 90 * b" using pos p by simp
  have fr: "fl_round ?x = Finite v" using r by (simp add: float_mul_def)
  have err: "\<bar>v - ?x\<bar> \<le> 2 powi ulp_exponent ?x / 2" using fl_round_error [OF x fr] .
  have ulp: "2 powi ulp_exponent ?x / 2 \<le> 10 * b"
    using ulp_exponent_cases [OF x]
  proof
    assume a: "2 powi ulp_exponent ?x \<le> ?x / 2 ^ 52"
    have "?x / 2 ^ 52 \<le> 90 * b / 2 ^ 52" using xb by (rule divide_right_mono) simp
    moreover have "90 * b / 2 ^ 52 \<le> 20 * b" using pos by simp
    ultimately show ?thesis using a by linarith
  next
    assume "ulp_exponent ?x = min_exponent"
    then show ?thesis using is_double_min [OF b pos] pos by simp
  qed
  have "0 \<le> v" using fl_round_pos_cases [OF x] fr by auto
  moreover have "v \<le> 100 * b" using err ulp xb by linarith
  ultimately show ?thesis by simp
qed

lemma ulp_exponent_bound:
  assumes "0 < x"
  shows "2 powi ulp_exponent x \<le> x / 2 ^ 52 + 2 powi min_exponent"
proof -
  have "0 \<le> x / 2 ^ 52" using assms by simp
  moreover have "0 \<le> (2::real) powi min_exponent" by simp
  ultimately show ?thesis using ulp_exponent_cases [OF assms] by (elim disjE) (linarith, simp)
qed

lemma fl_round_overflow:
  assumes x: "0 < x" and o: "fl_round x = PosInf"
  shows "overflow_threshold \<le> x + 2 powi ulp_exponent x / 2"
proof -
  let ?k = "ulp_exponent x"
  let ?v = "real_of_int (round_half_even (x / 2 powi ?k)) * 2 powi ?k"
  from o have big: "overflow_threshold \<le> ?v"
    by (simp add: fl_round_pos [OF x] split: if_splits)
  have "?v \<le> (x / 2 powi ?k + 1 / 2) * 2 powi ?k"
    by (rule mult_right_mono [OF round_half_even_upper]) simp
  also have "\<dots> = x + 2 powi ?k / 2" by (simp add: algebra_simps)
  finally show ?thesis using big by simp
qed

lemma percentage_amount_cases:
  assumes pos: "0 < b" and p: "0 < p"
  obtains (overflow) "float_mul b (real_of_int p) = PosInf" and "percentage_amount b p = PosInf"
  | (finite) v where "float_mul b (real_of_int p) = Finite v" and "0 \<le> v"
      and "percentage_amount b p = fl_round (v / 100)"
proof -
  have x: "0 < b * real_of_int p" using pos p by simp
  show thesis
  proof (rule fl_round_pos_cases [OF x])
    assume "fl_round (b * real_of_int p) = PosInf"
    then show thesis using overflow by (simp add: percentage_amount_def float_mul_def)
  next
    fix v
    assume "fl_round (b * real_of_int p) = Finite v" and "0 \<le> v"
    then show thesis using finite [of v]
      by (simp add: percentage_amount_def float_mul_def float_div_def)
  qed
qed

lemma fl_round_nonneg:
  assumes "0 \<le> y"
  shows "fl_round y \<noteq> NegInf" and "fl_round y = Finite a \<Longrightarrow> 0 \<le> a"
proof -
  show "fl_round y \<noteq> NegInf"
  proof (cases "y = 0")
    case True
    then show ?thesis by (simp add: fl_round_def)
  next
    case False
    then have "0 < y" using assms by simp
    then show ?thesis by (rule fl_round_pos_cases) simp_all
  qed
  show "0 \<le> a" if "fl_round y = Finite a"
  proof (cases "y = 0")
    case True
    then show ?thesis using that by (simp add: fl_round_def)
  next
    case False
    then have y: "0 < y" using assms by simp
    show ?thesis by (rule fl_round_pos_cases [OF y]) (use that in simp_all)
  qed
qed

lemma percentage_amount_le_balance:
  assumes b: "is_double b" and pos: "0 < b" and p: "10 \<le> p" "p \<le> 90"
    and r: "percentage_amount b p = Finite a"
  shows "a \<le> b"
proof (rule percentage_amount_cases [of b p])
  show "0 < b" by (rule pos)
  show "0 < p" using p by simp
next
  assume "percentage_amount b p = PosInf"
  then show ?thesis using r by simp
next
  fix v
  assume m: "float_mul b (real_of_int p) = Finite v" and v0: "0 \<le> v"
    and e: "percentage_amount b p = fl_round (v / 100)"
  have "10 \<le> real_of_int p" "real_of_int p \<le> 90" using p by simp_all
  then have vb: "0 \<le> v \<and> v \<le> 100 * b" using float_mul_bound [OF b pos _ _ m] by blast
  show ?thesis
  proof (cases "v = 0")
    case True
    then show ?thesis using e r pos by (simp add: fl_round_def)
  next
    case False
    then have y: "0 < v / 100" and le: "v / 100 \<le> b" using vb by simp_all
    obtain a' where "fl_round (v / 100) = Finite a'" and "a' \<le> b"
      using fl_round_below_double [OF y le b] by blast
    then show ?thesis using e r by simp
  qed
qed

lemma percentage_amount_nonneg:
  assumes pos: "0 < b" and p: "0 < p"
  shows "percentage_amount b p \<noteq> NegInf" and "percentage_amount b p = Finite a \<Longrightarrow> 0 \<le> a"
proof -
  show "percentage_amount b p \<noteq> NegInf"
  proof (rule percentage_amount_cases [OF pos p])
    fix v
    assume "0 \<le> v" and "percentage_amount b p = fl_round (v / 100)"
    then show ?thesis using fl_round_nonneg(1) [of "v / 100"] by simp
  qed simp
  show "0 \<le> a" if "percentage_amount b p = Finite a"
  proof (rule percentage_amount_cases [OF pos p])
    fix v
    assume "0 \<le> v" and "percentage_amount b p = fl_round (v / 100)"
    then show ?thesis using fl_round_nonneg(2) [of "v / 100" a] that by simp
  next
    assume "percentage_amount b p = PosInf"
    then show ?thesis using that by simp
  qed
qed

lemma percentage_amount_error:
  assumes pos: "0 < b" and p: "0 < p"
    and r: "percentage_amount b p = Finite a"
  shows "\<bar>a - b * real_of_int p / 100\<bar>
           \<le> b * real_of_int p / 100 / 2 ^ 51 + 2 powi min_exponent"
proof (rule percentage_amount_cases [OF pos p])
  assume "percentage_amount b p = PosInf"
  then show ?thesis using r by simp
next
  fix v
  assume m: "float_mul b (real_of_int p) = Finite v" and v0: "0 \<le> v"
    and e: "percentage_amount b p = fl_round (v / 100)"
  let ?x = "b * real_of_int p" and ?m = "(2::real) powi min_exponent"
  have x: "0 < ?x" using pos p by simp
  have m0: "0 \<le> ?m" by simp
  have fr: "fl_round ?x = Finite v" using m by (simp add: float_mul_def)
  have e1: "\<bar>v - ?x\<bar> \<le> 2 powi ulp_exponent ?x / 2" using fl_round_error [OF x fr] .
  have u1: "2 powi ulp_exponent ?x \<le> ?x / 2 ^ 52 + ?m" using ulp_exponent_bound [OF x] .
  have ra: "fl_round (v / 100) = Finite a" using r e by simp
  show ?thesis
  proof (cases "v = 0")
    case True
    then have "a = 0" using ra by (simp add: fl_round_def)
    then show ?thesis using e1 u1 True x m0 by (simp; linarith)
  next
    case False
    then have y: "0 < v / 100" using v0 by simp
    have e2: "\<bar>a - v / 100\<bar> \<le> 2 powi ulp_exponent (v / 100) / 2"
      using fl_round_error [OF y ra] .
    have u2: "2 powi ulp_exponent (v / 100) \<le> v / 100 / 2 ^ 52 + ?m"
      using ulp_exponent_bound [OF y] .
    show ?thesis using e1 u1 e2 u2 x m0 by (simp; linarith)
  qed
qed

lemma min_exponent_le_one: "(2::real) powi min_exponent \<le> 1"
proof -
  have "(2::real) powi min_exponent \<le> 2 powi 0"
    by (rule power_int_increasing) (simp_all add: min_exponent_def)
  then show ?thesis by simp
qed

lemma overflow_threshold_ge: "4 \<le> overflow_threshold"
proof -
  have "(2::real) ^ 2 \<le> 2 ^ 1024" by (rule power_increasing) simp_all
  then show ?thesis by (simp add: overflow_threshold_def)
qed

lemma percentage_amount_overflow:
  assumes pos: "0 < b" and p: "0 < p" "p \<le> 90"
    and r: "percentage_amount b p = PosInf"
  shows "overflow_threshold \<le> 128 * b"
proof -
  let ?x = "b * real_of_int p" and ?m = "(2::real) powi min_exponent"
  have x: "0 < ?x" using pos p by simp
  have xb: "?x \<le> 90 * b" using pos p by simp
  have u1: "2 powi ulp_exponent ?x \<le> ?x / 2 ^ 52 + ?m" using ulp_exponent_bound [OF x] .
  note small = min_exponent_le_one overflow_threshold_ge
  show ?thesis
  proof (rule percentage_amount_cases [OF pos p(1)])
    assume "float_mul b (real_of_int p) = PosInf"
    then have "fl_round ?x = PosInf" by (simp add: float_mul_def)
    from fl_round_overflow [OF x this] show ?thesis
      using u1 xb small pos by (simp; linarith)
  next
    fix v
    assume m: "float_mul b (real_of_int p) = Finite v" and v0: "0 \<le> v"
      and e: "percentage_amount b p = fl_round (v / 100)"
    have fr: "fl_round ?x = Finite v" using m by (simp add: float_mul_def)
    have e1: "\<bar>v - ?x\<bar> \<le> 2 powi ulp_exponent ?x / 2" using fl_round_error [OF x fr] .
    have o: "fl_round (v / 100) = PosInf" using e r by simp
    then have "v \<noteq> 0" by (auto simp: fl_round_def)
    then have y: "0 < v / 100" using v0 by simp
    have u2: "2 powi ulp_exponent (v / 100) \<le> v / 100 / 2 ^ 52 + ?m"
      using ulp_exponent_bound [OF y] .
    from fl_round_overflow [OF y o] show ?thesis
      using e1 u1 u2 xb small pos by (simp; linarith)
  qed
qed

lemma bitlen_numeral_simps:
  "bitlen 1 = 1"
  "bitlen (numeral Num.One) = 1"
  "bitlen (numeral (Num.Bit0 n)) = bitlen (numeral n) + 1"
  "bitlen (numeral (Num.Bit1 n)) = bitlen (numeral n) + 1"
proof -
  show "bitlen 1 = 1" by (subst compute_bitlen) simp
  then show "bitlen (numeral Num.One) = 1" by simp
  show "bitlen (numeral (Num.Bit0 n)) = bitlen (numeral n) + 1"
    by (subst compute_bitlen) simp
  have "(numeral (Num.Bit1 n) :: int) div 2 = numeral n" by simp
  then show "bitlen (numeral (Num.Bit1 n)) = bitlen (numeral n) + 1"
    by (subst compute_bitlen) simp
qed

lemmas float_eval = percentage_amount_def float_div_def float_mul_def fl_round_def
  ulp_exponent_def min_exponent_def overflow_threshold_def floor_log2_def round_half_even_def
  Let_def bitlen_numeral_simps

section \<open>Properties of transfer selection\<close>

lemma random_choice_some:
  assumes "xs \<noteq> []"
  obtains x g' where "random_choice xs g = (Some x, g')" and "x \<in> set xs"
    and "x = xs ! (g 0 mod length xs)" and "g' = (\<lambda>n. g (Suc n))"
  using assms by (simp add: random_choice_def rng_next_def)

lemma random_randint_some:
  assumes "a \<le> b"
  obtains p g' where "random_randint a b g = (Some p, g')" and "a \<le> p" and "p \<le> b"
proof -
  have "0 < b - a + 1" using assms by simp
  then have "0 \<le> int (g 0) mod (b - a + 1)" and "int (g 0) mod (b - a + 1) < b - a + 1"
    by (rule pos_mod_sign, rule pos_mod_bound)
  then show ?thesis
    using assms that [of "a + int (g 0) mod (b - a + 1)" "\<lambda>n. g (Suc n)"]
    by (simp add: random_randint_def rng_next_def)
qed

lemma valid_chains_lookup:
  assumes "c \<in> set (valid_chains_of cs T)"
  obtains tokens where "map_of T c = Some tokens" and "tokens \<noteq> []" and "c \<in> set cs"
  using assms by (auto simp: valid_chains_of_def split: option.splits)

lemma map_of_key:
  assumes "k \<in> set (map fst d)"
  obtains v where "map_of d k = Some v"
  using assms by (metis map_of_eq_None_iff not_None_eq set_map)

lemma select_random_transaction_cases:
  fixes w cs T g
  defines "valid \<equiv> valid_chains_of cs T"
  obtains
    (no_chain) "valid = []"
      and "select_random_transaction w cs T g = (Returned None, g)"
  | (no_balance) fc g1 on_chain tok g2 info where
      "random_choice valid g = (Some fc, g1)" and "fc \<in> set valid"
      and "map_of T fc = Some on_chain"
      and "random_choice (map fst on_chain) g1 = (Some tok, g2)"
      and "map_of on_chain tok = Some info"
      and "balance_or_zero info \<le> 0"
      and "select_random_transaction w cs T g = (Returned None, g2)"
      and "fc = valid ! (g 0 mod length valid)"
      and "on_chain \<noteq> []"
      and "tok = map fst on_chain ! (g (Suc 0) mod length on_chain)"
  | (no_destination) fc g1 on_chain tok g2 info where
      "random_choice valid g = (Some fc, g1)" and "fc \<in> set valid"
      and "map_of T fc = Some on_chain"
      and "random_choice (map fst on_chain) g1 = (Some tok, g2)"
      and "map_of on_chain tok = Some info"
      and "0 < balance_or_zero info"
      and "filter (\<lambda>chain. chain \<noteq> fc) valid = []"
      and "select_random_transaction w cs T g = (Returned None, g2)"
      and "fc = valid ! (g 0 mod length valid)"
      and "on_chain \<noteq> []"
      and "tok = map fst on_chain ! (g (Suc 0) mod length on_chain)"
  | (selected) fc g1 on_chain tok g2 info tc g3 p g4 where
      "random_choice valid g = (Some fc, g1)" and "fc \<in> set valid"
      and "map_of T fc = Some on_chain"
      and "random_choice (map fst on_chain) g1 = (Some tok, g2)"
      and "tok \<in> set (map fst on_chain)"
      and "map_of on_chain tok = Some info"
      and "0 < balance_or_zero info"
      and "random_choice (filter (\<lambda>chain. chain \<noteq> fc) valid) g2 = (Some tc, g3)"
      and "tc \<in> set valid" and "tc \<noteq> fc"
      and "random_randint 10 90 g3 = (Some p, g4)" and "10 \<le> p" and "p \<le> 90"
      and "select_random_transaction w cs T g =
             (Returned (Some (fc, tc, tok, ti_address info,
                percentage_amount (balance_or_zero info) p)), g4)"
      and "fc = valid ! (g 0 mod length valid)"
      and "on_chain \<noteq> []"
      and "tok = map fst on_chain ! (g (Suc 0) mod length on_chain)"
proof (cases "valid = []")
  case True
  then have "select_random_transaction w cs T g = (Returned None, g)"
    by (simp add: select_random_transaction_def valid_def)
  with True show ?thesis by (rule no_chain)
next
  case False
  then obtain fc g1 where fc: "random_choice valid g = (Some fc, g1)" "fc \<in> set valid"
    and fc_ix: "fc = valid ! (g 0 mod length valid)" and g1: "g1 = (\<lambda>n. g (Suc n))"
    by (rule random_choice_some)
  from fc(2) obtain on_chain where oc: "map_of T fc = Some on_chain" "on_chain \<noteq> []"
    unfolding valid_def by (rule valid_chains_lookup)
  from oc(2) have "map fst on_chain \<noteq> []" by simp
  then obtain tok g2 where tok: "random_choice (map fst on_chain) g1 = (Some tok, g2)"
    "tok \<in> set (map fst on_chain)"
    and tok_ix': "tok = map fst on_chain ! (g1 0 mod length (map fst on_chain))"
    by (rule random_choice_some)
  from tok_ix' g1 have tok_ix: "tok = map fst on_chain ! (g (Suc 0) mod length on_chain)"
    by simp
  from tok(2) obtain info where info: "map_of on_chain tok = Some info"
    by (rule map_of_key)
  let ?others = "filter (\<lambda>chain. chain \<noteq> fc) valid"
  have unfold: "select_random_transaction w cs T g =
      (if balance_or_zero info \<le> 0 then (Returned None, g2)
       else if ?others = [] then (Returned None, g2)
       else (case random_choice ?others g2 of
               (None, g3) \<Rightarrow> (Raised, g3)
             | (Some to_chain, g3) \<Rightarrow>
                (case random_randint 10 90 g3 of
                   (None, g4) \<Rightarrow> (Raised, g4)
                 | (Some percentage, g4) \<Rightarrow>
                    (Returned (Some (fc, to_chain, tok, ti_address info,
                       percentage_amount (balance_or_zero info) percentage)), g4))))"
    using False fc(1) oc tok(1) info
    by (simp add: select_random_transaction_def valid_def [symmetric] Let_def)
  show ?thesis
  proof (cases "balance_or_zero info \<le> 0")
    case True
    with unfold have "select_random_transaction w cs T g = (Returned None, g2)" by simp
    with fc oc(1) tok(1) info True show ?thesis
      using fc_ix oc(2) tok_ix by (rule no_balance)
  next
    case pos: False
    show ?thesis
    proof (cases "?others = []")
      case True
      with unfold pos have r: "select_random_transaction w cs T g = (Returned None, g2)" by simp
      from pos have "0 < balance_or_zero info" by simp
      with fc oc(1) tok(1) info show ?thesis
        using True r fc_ix oc(2) tok_ix by (rule no_destination)
    next
      case others: False
      then obtain tc g3 where tc: "random_choice ?others g2 = (Some tc, g3)" "tc \<in> set ?others"
        by (rule random_choice_some)
      obtain p g4 where p: "random_randint 10 90 g3 = (Some p, g4)" "10 \<le> p" "p \<le> 90"
        by (rule random_randint_some [of 10 90 g3]) simp
      from unfold pos others tc(1) p(1)
      have r: "select_random_transaction w cs T g =
             (Returned (Some (fc, tc, tok, ti_address info,
                percentage_amount (balance_or_zero info) p)), g4)" by simp
      from pos have b: "0 < balance_or_zero info" by simp
      from tc(2) have t: "tc \<in> set valid" "tc \<noteq> fc" by simp_all
      from fc oc(1) tok info b tc(1) t p r fc_ix oc(2) tok_ix
      show ?thesis by (rule selected)
    qed
  qed
qed



lemmas selection_eval =
  select_random_transaction_def valid_chains_of_def random_choice_def random_randint_def
  rng_next_def rng_of_list_def balance_or_zero_def float_eval

text \<open>
  Claim C3, as amended. Whenever \<open>select_random_transaction\<close> returns a transfer, its
  amount is the float value of \<open>balance * p / 100\<close> (the product rounded to a float, then the
  quotient rounded to a float) for an integer \<open>p\<close> with \<open>10 \<le> p \<le> 90\<close>, where \<open>balance\<close> is
  the positive balance recorded for the selected token on the source chain. The amount is
  never negative; when it is finite it differs from the exact \<open>balance * p / 100\<close>, which
  lies between 10\% and 90\% of the balance, by at most that value times \<open>2 ^ (- 51)\<close> plus
  \<open>2 ^ (- 1074)\<close>, and it does not exceed the balance; it is infinite only for a balance of
  at least \<open>2 ^ 1017\<close>, where the product overflows. Both ends are reached exactly: with a
  balance of 100 the draws \<open>p = 10\<close> and \<open>p = 90\<close> give the amounts 10 and 90.
\<close>

theorem select_random_transaction_amount:
  "(fst (select_random_transaction w cs T g) = Returned (Some (fc, tc, tok, addr, amt)) \<longrightarrow>
     (\<exists>on_chain info b p.
        map_of T fc = Some on_chain \<and> map_of on_chain tok = Some info \<and>
        ti_balance info = Some b \<and> 0 < b \<and> 10 \<le> p \<and> p \<le> 90 \<and>
        amt = percentage_amount b p \<and> amt \<noteq> NegInf \<and>
        (\<forall>a. amt = Finite a \<longrightarrow>
           0 \<le> a \<and>
           \<bar>a - b * real_of_int p / 100\<bar>
             \<le> b * real_of_int p / 100 / 2 ^ 51 + 2 powi min_exponent \<and>
           (is_double b \<longrightarrow> a \<le> b)) \<and>
        (amt = PosInf \<longrightarrow> overflow_threshold \<le> 128 * b)))
   \<and> fst (select_random_transaction ''w'' [''X'', ''Y''] example_tokens (rng_of_list [])) =
        Returned (Some (''X'', ''Y'', ''USDC'', Some ''0x...'', Finite 10))
   \<and> fst (select_random_transaction ''w'' [''X'', ''Y''] example_tokens (rng_of_list [0, 0, 0, 80])) =
        Returned (Some (''X'', ''Y'', ''USDC'', Some ''0x...'', Finite 90))"
proof (intro conjI impI)
  assume ok: "fst (select_random_transaction w cs T g) = Returned (Some (fc, tc, tok, addr, amt))"
  show "\<exists>on_chain info b p.
        map_of T fc = Some on_chain \<and> map_of on_chain tok = Some info \<and>
        ti_balance info = Some b \<and> 0 < b \<and> 10 \<le> p \<and> p \<le> 90 \<and>
        amt = percentage_amount b p \<and> amt \<noteq> NegInf \<and>
        (\<forall>a. amt = Finite a \<longrightarrow>
           0 \<le> a \<and>
           \<bar>a - b * real_of_int p / 100\<bar>
             \<le> b * real_of_int p / 100 / 2 ^ 51 + 2 powi min_exponent \<and>
           (is_double b \<longrightarrow> a \<le> b)) \<and>
        (amt = PosInf \<longrightarrow> overflow_threshold \<le> 128 * b)"
  proof (cases w cs T g rule: select_random_transaction_cases)
    case (selected fc' g1 on_chain tok' g2 info tc' g3 p g4)
    from ok selected(14) have eqs: "fc' = fc" "tok' = tok"
      "amt = percentage_amount (balance_or_zero info) p" by simp_all
    from selected(7) obtain b where b: "ti_balance info = Some b" "0 < b" "balance_or_zero info = b"
      by (auto simp: balance_or_zero_def split: option.splits)
    have p0: "0 < p" using selected(12) by simp
    have amt: "amt = percentage_amount b p" using eqs(3) b(3) by simp
    have n: "amt \<noteq> NegInf"
      unfolding amt by (rule percentage_amount_nonneg(1) [OF b(2) p0])
    have f: "\<forall>a. amt = Finite a \<longrightarrow>
           0 \<le> a \<and>
           \<bar>a - b * real_of_int p / 100\<bar>
             \<le> b * real_of_int p / 100 / 2 ^ 51 + 2 powi min_exponent \<and>
           (is_double b \<longrightarrow> a \<le> b)"
      unfolding amt
      using percentage_amount_nonneg(2) [OF b(2) p0] percentage_amount_error [OF b(2) p0]
        percentage_amount_le_balance [OF _ b(2) selected(12,13)]
      by blast
    have o: "amt = PosInf \<longrightarrow> overflow_threshold \<le> 128 * b"
      unfolding amt using percentage_amount_overflow [OF b(2) p0 selected(13)] by blast
    have "map_of T fc = Some on_chain" "map_of on_chain tok = Some info"
      using selected(3,6) eqs(1,2) by simp_all
    with b(1,2) selected(12,13) amt n f o show ?thesis by blast
  qed (use ok in simp_all)
next
  show "fst (select_random_transaction ''w'' [''X'', ''Y''] example_tokens (rng_of_list [])) =
        Returned (Some (''X'', ''Y'', ''USDC'', Some ''0x...'', Finite 10))"
    by (simp add: selection_eval example_tokens_def)
next
  show "fst (select_random_transaction ''w'' [''X'', ''Y''] example_tokens (rng_of_list [0, 0, 0, 80])) =
        Returned (Some (''X'', ''Y'', ''USDC'', Some ''0x...'', Finite 90))"
    by (simp add: selection_eval example_tokens_def)
qed


theorem select_random_transaction_amount_witness:
  "fst (select_random_transaction ''w'' [''X'', ''Y''] example_tokens (rng_of_list [0, 0, 0, 80])) =
        Returned (Some (''X'', ''Y'', ''USDC'', Some ''0x...'', Finite 90))
   \<and> is_double 100
   \<and> (\<exists>on_chain info p.
        map_of example_tokens ''X'' = Some on_chain \<and> map_of on_chain ''USDC'' = Some info \<and>
        ti_balance info = Some 100 \<and> 10 \<le> p \<and> p \<le> 90 \<and>
        Finite 90 = percentage_amount 100 p \<and>
        \<bar>90 - 100 * real_of_int p / 100\<bar>
             \<le> 100 * real_of_int p / 100 / 2 ^ 51 + 2 powi min_exponent)
   \<and> (90::real) \<le> 100
   \<and> fst (select_random_transaction ''w'' [''X'', ''Y''] (example_balance_table (2 ^ 1023))
            (rng_of_list [])) =
        Returned (Some (''X'', ''Y'', ''USDC'', Some ''0x...'', PosInf))
   \<and> overflow_threshold \<le> 128 * 2 ^ 1023"
proof -
  have h: "fst (select_random_transaction ''w'' [''X'', ''Y''] example_tokens
                  (rng_of_list [0, 0, 0, 80])) =
        Returned (Some (''X'', ''Y'', ''USDC'', Some ''0x...'', Finite 90))"
    by (simp add: selection_eval example_tokens_def)
  have d: "is_double 100" by (simp add: is_double_def float_eval)
  from select_random_transaction_amount
         [of "''w''" "[''X'', ''Y'']" example_tokens "rng_of_list [0, 0, 0, 80]"
             "''X''" "''Y''" "''USDC''" "Some ''0x...''" "Finite 90"] h
  obtain on_chain info b p where
    f: "map_of example_tokens ''X'' = Some on_chain" "map_of on_chain ''USDC'' = Some info"
       "ti_balance info = Some b" "10 \<le> p" "p \<le> 90" "Finite 90 = percentage_amount b p"
    and g: "\<forall>a. Finite 90 = Finite a \<longrightarrow>
           0 \<le> a \<and>
           \<bar>a - b * real_of_int p / 100\<bar>
             \<le> b * real_of_int p / 100 / 2 ^ 51 + 2 powi min_exponent \<and>
           (is_double b \<longrightarrow> a \<le> b)"
    by blast
  from f(1,2,3) have b: "b = 100" by (auto simp: example_tokens_def)
  from g have e: "\<bar>90 - b * real_of_int p / 100\<bar>
             \<le> b * real_of_int p / 100 / 2 ^ 51 + 2 powi min_exponent"
    and l: "is_double b \<longrightarrow> 90 \<le> b"
    by simp_all
  from l d b have le: "(90::real) \<le> 100" by simp
  have h2: "fst (select_random_transaction ''w'' [''X'', ''Y''] (example_balance_table (2 ^ 1023))
            (rng_of_list [])) =
        Returned (Some (''X'', ''Y'', ''USDC'', Some ''0x...'', PosInf))"
    by (simp add: selection_eval example_balance_table_def)
  from select_random_transaction_amount
         [of "''w''" "[''X'', ''Y'']" "example_balance_table (2 ^ 1023)" "rng_of_list []"
             "''X''" "''Y''" "''USDC''" "Some ''0x...''" PosInf] h2
  obtain on_chain' info' b' p' where
    f': "map_of (example_balance_table (2 ^ 1023)) ''X'' = Some on_chain'"
        "map_of on_chain' ''USDC'' = Some info'" "ti_balance info' = Some b'"
    and o: "overflow_threshold \<le> 128 * b'"
    by blast
  from f' have "b' = 2 ^ 1023" by (auto simp: example_balance_table_def)
  with o have ov: "overflow_threshold \<le> 128 * 2 ^ 1023" by simp
  from h d f b e le h2 ov show ?thesis by blast
qed

text \<open>
  Claim C3 as stated fails in float arithmetic. With a balance of 0.1 (the float
  3602879701896397 / 2 ^ 55) and \<open>p = 10\<close> the product rounds to 1 and the amount is the
  float 0.01, which is less than 10\% of the balance; with a balance of 0.3 (the float
  5404319552844595 / 2 ^ 54) and \<open>p = 90\<close> the amount is more than 90\% of the balance; and
  with a balance of \<open>2 ^ 1023\<close> the product overflows and the amount is infinite, which
  exceeds the balance.
\<close>

theorem select_random_transaction_amount_counterexample:
  "is_double (3602879701896397 / 36028797018963968)
   \<and> fst (select_random_transaction ''w'' [''X'', ''Y'']
            (example_balance_table (3602879701896397 / 36028797018963968)) (rng_of_list [])) =
        Returned (Some (''X'', ''Y'', ''USDC'', Some ''0x...'',
                        Finite (5764607523034235 / 576460752303423488)))
   \<and> (5764607523034235 / 576460752303423488 :: real)
        < 3602879701896397 / 36028797018963968 * 10 / 100
   \<and> is_double (5404319552844595 / 18014398509481984)
   \<and> fst (select_random_transaction ''w'' [''X'', ''Y'']
            (example_balance_table (5404319552844595 / 18014398509481984))
            (rng_of_list [0, 0, 0, 80])) =
        Returned (Some (''X'', ''Y'', ''USDC'', Some ''0x...'',
                        Finite (607985949695017 / 2251799813685248)))
   \<and> (5404319552844595 / 18014398509481984 :: real) * 90 / 100
        < 607985949695017 / 2251799813685248
   \<and> is_double (2 ^ 1023)
   \<and> fst (select_random_transaction ''w'' [''X'', ''Y''] (example_balance_table (2 ^ 1023))
            (rng_of_list [])) =
        Returned (Some (''X'', ''Y'', ''USDC'', Some ''0x...'', PosInf))"
  by (simp add: selection_eval is_double_def example_balance_table_def)

text \<open>
  Claim C5, as amended. \<open>select_random_transaction\<close> never returns a transfer whose source
  and destination chain are equal: a returned destination is an element of the chains that
  passed the function's filter (a non-empty token dictionary, whatever the balances) with
  the source chain removed, and the function returns \<open>None\<close> whenever at most one distinct
  chain passes that filter, so that the source is the only one.
\<close>

theorem select_random_transaction_distinct_chains:
  "(fst (select_random_transaction w cs T g) = Returned (Some (fc, tc, tok, addr, amt)) \<longrightarrow>
      fc \<noteq> tc \<and> fc \<in> set (valid_chains_of cs T) \<and>
      tc \<in> set (filter (\<lambda>chain. chain \<noteq> fc) (valid_chains_of cs T)))
   \<and> (set (valid_chains_of cs T) \<subseteq> {c} \<longrightarrow>
        fst (select_random_transaction w cs T g) = Returned None)"
proof (cases w cs T g rule: select_random_transaction_cases)
  case (selected fc' g1 on_chain tok' g2 info tc' g3 p g4)
  from selected(2,9,10) have "\<not> set (valid_chains_of cs T) \<subseteq> {c}" by auto
  moreover from selected(2,9,10)
  have "fc' \<noteq> tc' \<and> fc' \<in> set (valid_chains_of cs T) \<and>
      tc' \<in> set (filter (\<lambda>chain. chain \<noteq> fc') (valid_chains_of cs T))"
    by auto
  ultimately show ?thesis using selected(14) by auto
qed simp_all


theorem select_random_transaction_distinct_chains_witness:
  "(fst (select_random_transaction ''w'' [''X'', ''Y''] example_tokens (rng_of_list [])) =
        Returned (Some (''X'', ''Y'', ''USDC'', Some ''0x...'', Finite 10))
    \<and> ''X'' \<noteq> ''Y'' \<and> ''X'' \<in> set (valid_chains_of [''X'', ''Y''] example_tokens)
    \<and> ''Y'' \<in> set (filter (\<lambda>chain. chain \<noteq> ''X'') (valid_chains_of [''X'', ''Y''] example_tokens)))
   \<and> (set (valid_chains_of [''X''] example_tokens) \<subseteq> {''X''}
    \<and> fst (select_random_transaction ''w'' [''X''] example_tokens (rng_of_list [])) = Returned None)"
proof -
  have h1: "fst (select_random_transaction ''w'' [''X'', ''Y''] example_tokens (rng_of_list [])) =
        Returned (Some (''X'', ''Y'', ''USDC'', Some ''0x...'', Finite 10))"
    by (simp add: selection_eval example_tokens_def)
  have h2: "set (valid_chains_of [''X''] example_tokens) \<subseteq> {''X''}"
    by (simp add: valid_chains_of_def example_tokens_def)
  from select_random_transaction_distinct_chains
         [of "''w''" "[''X'', ''Y'']" example_tokens "rng_of_list []"
             "''X''" "''Y''" "''USDC''" "Some ''0x...''" "Finite 10" "''Z''"] h1
  have a: "''X'' \<noteq> ''Y'' \<and> ''X'' \<in> set (valid_chains_of [''X'', ''Y''] example_tokens)
    \<and> ''Y'' \<in> set (filter (\<lambda>chain. chain \<noteq> ''X'') (valid_chains_of [''X'', ''Y''] example_tokens))"
    by blast
  from select_random_transaction_distinct_chains
         [of "''w''" "[''X'']" example_tokens "rng_of_list []"
             "''X''" "''Y''" "''USDC''" "Some ''0x...''" "Finite 10" "''X''"] h2
  have b: "fst (select_random_transaction ''w'' [''X''] example_tokens (rng_of_list [])) = Returned None"
    by blast
  from h1 h2 a b show ?thesis by blast
qed

text \<open>
  Claim C5 as stated fails when the eligible chains are the chains holding a
  positive-balance token: with 100 ETH on chain a and a zero ETH balance on chain c, the
  source a is the only eligible chain, yet the function does not return \<open>None\<close>: it returns
  a transfer from a to c, a destination that is not an eligible chain.
\<close>

theorem select_random_transaction_distinct_chains_counterexample:
  "spec_eligible_chains [''a'', ''c''] example_one_eligible = [''a'']
   \<and> fst (select_random_transaction ''w'' [''a'', ''c''] example_one_eligible (rng_of_list [])) =
        Returned (Some (''a'', ''c'', ''ETH'', Some ''0x...'', Finite 10))
   \<and> ''c'' \<notin> set (spec_eligible_chains [''a'', ''c''] example_one_eligible)"
  by (simp add: selection_eval spec_eligible_chains_def example_one_eligible_def)

text \<open>
  Claim C4, as amended. \<open>select_random_transaction\<close> keeps exactly the available chains
  that have a non-empty token dictionary in \<open>available_tokens\<close>, whatever the balances, and
  returns \<open>None\<close> when there is none. Otherwise the source chain is the kept chain at the
  first draw's index and the token is the key at the second draw's index among all tokens
  held on that chain, whatever their balances; when the drawn token's balance is not
  positive the function returns \<open>None\<close>, so a returned transfer always carries the drawn
  chain and the drawn token, with a positive balance.
\<close>

theorem select_random_transaction_filter:
  "(c \<in> set (valid_chains_of cs T) \<longleftrightarrow>
       c \<in> set cs \<and> (\<exists>tokens. map_of T c = Some tokens \<and> tokens \<noteq> []))
   \<and> (valid_chains_of cs T = [] \<longrightarrow>
        select_random_transaction w cs T g = (Returned None, g))
   \<and> (valid_chains_of cs T \<noteq> [] \<longrightarrow>
        (\<exists>on_chain info.
           map_of T (valid_chains_of cs T ! (g 0 mod length (valid_chains_of cs T))) = Some on_chain
         \<and> on_chain \<noteq> []
         \<and> map_of on_chain (map fst on_chain ! (g (Suc 0) mod length on_chain)) = Some info
         \<and> (balance_or_zero info \<le> 0 \<longrightarrow>
              fst (select_random_transaction w cs T g) = Returned None)
         \<and> (\<forall>fc tc tok addr amt.
              fst (select_random_transaction w cs T g) = Returned (Some (fc, tc, tok, addr, amt)) \<longrightarrow>
                fc = valid_chains_of cs T ! (g 0 mod length (valid_chains_of cs T)) \<and>
                tok = map fst on_chain ! (g (Suc 0) mod length on_chain) \<and>
                0 < balance_or_zero info)))"
proof (intro conjI)
  show "c \<in> set (valid_chains_of cs T) \<longleftrightarrow>
       c \<in> set cs \<and> (\<exists>tokens. map_of T c = Some tokens \<and> tokens \<noteq> [])"
    by (auto simp: valid_chains_of_def split: option.splits)
next
  show "valid_chains_of cs T = [] \<longrightarrow>
        select_random_transaction w cs T g = (Returned None, g)"
    by (simp add: select_random_transaction_def)
next
  let ?P = "\<lambda>on_chain info.
           map_of T (valid_chains_of cs T ! (g 0 mod length (valid_chains_of cs T))) = Some on_chain
         \<and> on_chain \<noteq> []
         \<and> map_of on_chain (map fst on_chain ! (g (Suc 0) mod length on_chain)) = Some info
         \<and> (balance_or_zero info \<le> 0 \<longrightarrow>
              fst (select_random_transaction w cs T g) = Returned None)
         \<and> (\<forall>fc tc tok addr amt.
              fst (select_random_transaction w cs T g) = Returned (Some (fc, tc, tok, addr, amt)) \<longrightarrow>
                fc = valid_chains_of cs T ! (g 0 mod length (valid_chains_of cs T)) \<and>
                tok = map fst on_chain ! (g (Suc 0) mod length on_chain) \<and>
                0 < balance_or_zero info)"
  show "valid_chains_of cs T \<noteq> [] \<longrightarrow> (\<exists>on_chain info. ?P on_chain info)"
  proof (cases w cs T g rule: select_random_transaction_cases)
    case no_chain
    then show ?thesis by simp
  next
    case (no_balance fc g1 on_chain tok g2 info)
    then have "?P on_chain info" by simp
    then show ?thesis by blast
  next
    case (no_destination fc g1 on_chain tok g2 info)
    then have "?P on_chain info" by simp
    then show ?thesis by blast
  next
    case (selected fc g1 on_chain tok g2 info tc g3 p g4)
    then have "?P on_chain info" by simp
    then show ?thesis by blast
  qed
qed


theorem select_random_transaction_filter_witness:
  "valid_chains_of example_chains example_zero_balances \<noteq> []
   \<and> (\<exists>on_chain info.
         map_of example_zero_balances ''a'' = Some on_chain
       \<and> map_of on_chain ''USDC'' = Some info
       \<and> balance_or_zero info \<le> 0
       \<and> fst (select_random_transaction ''w'' example_chains example_zero_balances (rng_of_list []))
            = Returned None)"
proof -
  have v: "valid_chains_of example_chains example_zero_balances = [''a'', ''b'', ''c'']"
    by (simp add: valid_chains_of_def example_chains_def example_zero_balances_def)
  from select_random_transaction_filter
         [of "''a''" example_chains example_zero_balances "''w''" "rng_of_list []"] v
  obtain on_chain info where
    f: "map_of example_zero_balances ''a'' = Some on_chain"
       "map_of on_chain (map fst on_chain ! (0 mod length on_chain)) = Some info"
       "balance_or_zero info \<le> 0 \<longrightarrow>
          fst (select_random_transaction ''w'' example_chains example_zero_balances (rng_of_list []))
            = Returned None"
    by (auto simp: rng_of_list_def)
  from f(1) have oc: "on_chain = [(''USDC'', \<lparr>ti_address = Some ''0x...'', ti_balance = Some 0\<rparr>),
               (''ETH'', \<lparr>ti_address = Some ''0x...'', ti_balance = Some 1\<rparr>)]"
    by (simp add: example_zero_balances_def)
  with f(2) have i: "map_of on_chain ''USDC'' = Some info" "balance_or_zero info \<le> 0"
    by (auto simp: balance_or_zero_def)
  with f v show ?thesis by auto
qed

text \<open>
  Claim C4 as stated fails: chain c passes the filter although none of its balances is
  positive, so the kept chains are not the chains with a positive-balance token; and with
  chain a drawn as the source, the token drawn is USDC, whose balance is zero, and the
  function returns \<open>None\<close> although chain a holds 1 ETH and chain b is a possible
  destination.
\<close>

theorem select_random_transaction_filter_counterexample:
  "valid_chains_of example_chains example_zero_balances = [''a'', ''b'', ''c'']
   \<and> spec_eligible_chains example_chains example_zero_balances = [''a'', ''b'']
   \<and> valid_chains_of example_chains example_zero_balances
        \<noteq> spec_eligible_chains example_chains example_zero_balances
   \<and> fst (select_random_transaction ''w'' example_chains example_zero_balances (rng_of_list []))
        = Returned None
   \<and> fst (select_random_transaction ''w'' example_chains example_zero_balances (rng_of_list [2, 0, 0, 0]))
        = Returned None"
  by (simp add: selection_eval spec_eligible_chains_def example_chains_def example_zero_balances_def)

section \<open>Properties of schedule generation\<close>

lemmas times_eval = generate_random_transaction_times_def draw_transaction_time_def
  random_randint_def rng_next_def rng_of_list_def replace_time_def add_days_def dt_less_def
  dt_tuple_def MAXORDINAL_def TRANSACTIONS_PER_DAY_def example_now_def Let_def


lemma draw_transaction_time_run:
  assumes "0 \<le> dt_ordinal today" and "dt_ordinal today < MAXORDINAL"
  obtains d g' where
    "draw_transaction_time now today g =
       (Returned (if dt_less d now then d\<lparr>dt_ordinal := dt_ordinal d + 1\<rparr> else d), g')"
    and "\<exists>h m s. 8 \<le> h \<and> h \<le> 22 \<and> 0 \<le> m \<and> m \<le> 59 \<and> 0 \<le> s \<and> s \<le> 59 \<and>
            d = today\<lparr>dt_hour := h, dt_minute := m, dt_second := s\<rparr>"
proof -
  obtain h g1 where h: "random_randint 8 22 g = (Some h, g1)" "8 \<le> h" "h \<le> 22"
    by (rule random_randint_some [of 8 22 g]) simp
  obtain m g2 where m: "random_randint 0 59 g1 = (Some m, g2)" "0 \<le> m" "m \<le> 59"
    by (rule random_randint_some [of 0 59 g1]) simp
  obtain s g3 where s: "random_randint 0 59 g2 = (Some s, g3)" "0 \<le> s" "s \<le> 59"
    by (rule random_randint_some [of 0 59 g2]) simp
  let ?d = "today\<lparr>dt_hour := h, dt_minute := m, dt_second := s\<rparr>"
  have r: "replace_time today h m s = Returned ?d"
    using h m s by (simp add: replace_time_def)
  have a: "add_days ?d 1 = Returned (?d\<lparr>dt_ordinal := dt_ordinal ?d + 1\<rparr>)"
    using assms by (simp add: add_days_def)
  have "draw_transaction_time now today g =
       (Returned (if dt_less ?d now then ?d\<lparr>dt_ordinal := dt_ordinal ?d + 1\<rparr> else ?d), g3)"
    using h(1) m(1) s(1) r a by (simp add: draw_transaction_time_def)
  moreover have "\<exists>h' m' s'. 8 \<le> h' \<and> h' \<le> 22 \<and> 0 \<le> m' \<and> m' \<le> 59 \<and> 0 \<le> s' \<and> s' \<le> 59 \<and>
            ?d = today\<lparr>dt_hour := h', dt_minute := m', dt_second := s'\<rparr>"
    using h m s by blast
  ultimately show ?thesis by (rule that)
qed

lemma generate_loop_run:
  assumes "0 \<le> dt_ordinal today" and "dt_ordinal today < MAXORDINAL"
  shows "\<exists>draws g'.
     generate_loop n now today g acc =
       (Returned (acc @ map (\<lambda>d. if dt_less d now then d\<lparr>dt_ordinal := dt_ordinal d + 1\<rparr> else d) draws), g')
     \<and> length draws = n
     \<and> (\<forall>d\<in>set draws. \<exists>h m s. 8 \<le> h \<and> h \<le> 22 \<and> 0 \<le> m \<and> m \<le> 59 \<and> 0 \<le> s \<and> s \<le> 59 \<and>
            d = today\<lparr>dt_hour := h, dt_minute := m, dt_second := s\<rparr>)"
proof (induction n arbitrary: g acc)
  case 0
  show ?case by (rule exI [of _ "[]"]) simp
next
  case (Suc n)
  let ?fix = "\<lambda>d. if dt_less d now then d\<lparr>dt_ordinal := dt_ordinal d + 1\<rparr> else d"
  from assms obtain d g1 where
    d: "draw_transaction_time now today g = (Returned (?fix d), g1)"
       "\<exists>h m s. 8 \<le> h \<and> h \<le> 22 \<and> 0 \<le> m \<and> m \<le> 59 \<and> 0 \<le> s \<and> s \<le> 59 \<and>
            d = today\<lparr>dt_hour := h, dt_minute := m, dt_second := s\<rparr>"
    by (rule draw_transaction_time_run)
  from Suc.IH [of g1 "acc @ [?fix d]"] obtain draws g' where
    ih: "generate_loop n now today g1 (acc @ [?fix d]) =
           (Returned ((acc @ [?fix d]) @ map ?fix draws), g')"
        "length draws = n"
        "\<forall>d\<in>set draws. \<exists>h m s. 8 \<le> h \<and> h \<le> 22 \<and> 0 \<le> m \<and> m \<le> 59 \<and> 0 \<le> s \<and> s \<le> 59 \<and>
            d = today\<lparr>dt_hour := h, dt_minute := m, dt_second := s\<rparr>"
    by blast
  have "generate_loop (Suc n) now today g acc = (Returned (acc @ map ?fix (d # draws)), g')"
    using d(1) ih(1) by simp
  moreover have "length (d # draws) = Suc n" using ih(2) by simp
  moreover have "\<forall>d\<in>set (d # draws). \<exists>h m s. 8 \<le> h \<and> h \<le> 22 \<and> 0 \<le> m \<and> m \<le> 59 \<and> 0 \<le> s \<and> s \<le> 59 \<and>
            d = today\<lparr>dt_hour := h, dt_minute := m, dt_second := s\<rparr>"
    using d(2) ih(3) by simp
  ultimately show ?case by blast
qed

lemma generate_random_transaction_times_run:
  assumes "valid_datetime now" and "dt_ordinal now < MAXORDINAL"
  obtains draws g' where
    "generate_random_transaction_times num_transactions now g =
       (Returned (sort_key dt_tuple
          (map (\<lambda>d. if dt_less d now then d\<lparr>dt_ordinal := dt_ordinal d + 1\<rparr> else d) draws)), g')"
    and "length draws = nat (case num_transactions of Some n \<Rightarrow> n | None \<Rightarrow> TRANSACTIONS_PER_DAY)"
    and "\<forall>d\<in>set draws. dt_ordinal d = dt_ordinal now \<and> 8 \<le> dt_hour d \<and> dt_hour d \<le> 22 \<and>
            0 \<le> dt_minute d \<and> dt_minute d \<le> 59 \<and> 0 \<le> dt_second d \<and> dt_second d \<le> 59 \<and>
            dt_microsecond d = 0"
proof -
  let ?today = "now\<lparr>dt_hour := 0, dt_minute := 0, dt_second := 0, dt_microsecond := 0\<rparr>"
  let ?n = "nat (case num_transactions of Some n \<Rightarrow> n | None \<Rightarrow> TRANSACTIONS_PER_DAY)"
  have o: "0 \<le> dt_ordinal ?today" "dt_ordinal ?today < MAXORDINAL"
    using assms by (simp_all add: valid_datetime_def)
  then have a: "add_days ?today 1 = Returned (?today\<lparr>dt_ordinal := dt_ordinal ?today + 1\<rparr>)"
    by (simp add: add_days_def)
  from generate_loop_run [OF o, of ?n now g "[]"] obtain draws g' where
    l: "generate_loop ?n now ?today g [] =
          (Returned (map (\<lambda>d. if dt_less d now then d\<lparr>dt_ordinal := dt_ordinal d + 1\<rparr> else d) draws), g')"
       "length draws = ?n"
       "\<forall>d\<in>set draws. \<exists>h m s. 8 \<le> h \<and> h \<le> 22 \<and> 0 \<le> m \<and> m \<le> 59 \<and> 0 \<le> s \<and> s \<le> 59 \<and>
            d = ?today\<lparr>dt_hour := h, dt_minute := m, dt_second := s\<rparr>"
    by auto
  have r: "generate_random_transaction_times num_transactions now g =
       (Returned (sort_key dt_tuple
          (map (\<lambda>d. if dt_less d now then d\<lparr>dt_ordinal := dt_ordinal d + 1\<rparr> else d) draws)), g')"
    using a l(1) by (simp add: generate_random_transaction_times_def Let_def)
  have w: "\<forall>d\<in>set draws. dt_ordinal d = dt_ordinal now \<and> 8 \<le> dt_hour d \<and> dt_hour d \<le> 22 \<and>
            0 \<le> dt_minute d \<and> dt_minute d \<le> 59 \<and> 0 \<le> dt_second d \<and> dt_second d \<le> 59 \<and>
            dt_microsecond d = 0"
  proof
    fix d assume "d \<in> set draws"
    with l(3) obtain h m s where
      "8 \<le> h" "h \<le> 22" "0 \<le> m" "m \<le> 59" "0 \<le> s" "s \<le> 59"
      "d = ?today\<lparr>dt_hour := h, dt_minute := m, dt_second := s\<rparr>"
      by blast
    then show "dt_ordinal d = dt_ordinal now \<and> 8 \<le> dt_hour d \<and> dt_hour d \<le> 22 \<and>
            0 \<le> dt_minute d \<and> dt_minute d \<le> 59 \<and> 0 \<le> dt_second d \<and> dt_second d \<le> 59 \<and>
            dt_microsecond d = 0"
      by simp
  qed
  from r l(2) w show ?thesis by (rule that)
qed

text \<open>
  Claim C7. For every count N (given, or \<open>TRANSACTIONS_PER_DAY\<close> by default) and every
  generation time on a date before 9999-12-31, \<open>generate_random_transaction_times\<close> returns
  a list of exactly N timestamps (none for a negative N), sorted non-decreasing, each with
  its hour between 8 and 22 and its minute and second between 0 and 59.
\<close>

theorem generate_random_transaction_times_sorted:
  assumes "valid_datetime now" and "dt_ordinal now < MAXORDINAL"
  shows "\<exists>ts g'. generate_random_transaction_times num_transactions now g = (Returned ts, g')
      \<and> int (length ts) = max 0 (case num_transactions of Some n \<Rightarrow> n | None \<Rightarrow> TRANSACTIONS_PER_DAY)
      \<and> sorted (map dt_tuple ts)
      \<and> (\<forall>t\<in>set ts. 8 \<le> dt_hour t \<and> dt_hour t \<le> 22 \<and> 0 \<le> dt_minute t \<and> dt_minute t \<le> 59 \<and>
            0 \<le> dt_second t \<and> dt_second t \<le> 59)"
proof -
  let ?fix = "\<lambda>d. if dt_less d now then d\<lparr>dt_ordinal := dt_ordinal d + 1\<rparr> else d"
  from assms obtain draws g' where
    r: "generate_random_transaction_times num_transactions now g =
          (Returned (sort_key dt_tuple (map ?fix draws)), g')"
    and n: "length draws = nat (case num_transactions of Some n \<Rightarrow> n | None \<Rightarrow> TRANSACTIONS_PER_DAY)"
    and w: "\<forall>d\<in>set draws. dt_ordinal d = dt_ordinal now \<and> 8 \<le> dt_hour d \<and> dt_hour d \<le> 22 \<and>
            0 \<le> dt_minute d \<and> dt_minute d \<le> 59 \<and> 0 \<le> dt_second d \<and> dt_second d \<le> 59 \<and>
            dt_microsecond d = 0"
    by (rule generate_random_transaction_times_run)
  let ?ts = "sort_key dt_tuple (map ?fix draws)"
  have len: "int (length ?ts) = max 0 (case num_transactions of Some n \<Rightarrow> n | None \<Rightarrow> TRANSACTIONS_PER_DAY)"
    using n by simp
  have srt: "sorted (map dt_tuple ?ts)" by (rule sorted_sort_key)
  have win: "\<forall>t\<in>set ?ts. 8 \<le> dt_hour t \<and> dt_hour t \<le> 22 \<and> 0 \<le> dt_minute t \<and> dt_minute t \<le> 59 \<and>
            0 \<le> dt_second t \<and> dt_second t \<le> 59"
    using w by auto
  from r len srt win show ?thesis by blast
qed

text \<open>
  Claim C8. The returned list is the sorted list of the N drawn timestamps, each drawn on
  today's date, in which every draw that is before the generation time has been replaced
  by the same clock time on the next day; every such replacement is strictly after the
  generation time.
\<close>

theorem generate_random_transaction_times_future:
  assumes "valid_datetime now" and "dt_ordinal now < MAXORDINAL"
  shows "\<exists>draws g'.
      generate_random_transaction_times num_transactions now g =
        (Returned (sort_key dt_tuple
           (map (\<lambda>d. if dt_less d now then d\<lparr>dt_ordinal := dt_ordinal d + 1\<rparr> else d) draws)), g')
    \<and> length draws = nat (case num_transactions of Some n \<Rightarrow> n | None \<Rightarrow> TRANSACTIONS_PER_DAY)
    \<and> (\<forall>d\<in>set draws. dt_ordinal d = dt_ordinal now \<and> 8 \<le> dt_hour d \<and> dt_hour d \<le> 22 \<and>
            0 \<le> dt_minute d \<and> dt_minute d \<le> 59 \<and> 0 \<le> dt_second d \<and> dt_second d \<le> 59 \<and>
            dt_microsecond d = 0 \<and>
            (dt_less d now \<longrightarrow> dt_less now (d\<lparr>dt_ordinal := dt_ordinal d + 1\<rparr>)))"
proof -
  let ?fix = "\<lambda>d. if dt_less d now then d\<lparr>dt_ordinal := dt_ordinal d + 1\<rparr> else d"
  from assms obtain draws g' where
    r: "generate_random_transaction_times num_transactions now g =
          (Returned (sort_key dt_tuple (map ?fix draws)), g')"
    and n: "length draws = nat (case num_transactions of Some n \<Rightarrow> n | None \<Rightarrow> TRANSACTIONS_PER_DAY)"
    and w: "\<forall>d\<in>set draws. dt_ordinal d = dt_ordinal now \<and> 8 \<le> dt_hour d \<and> dt_hour d \<le> 22 \<and>
            0 \<le> dt_minute d \<and> dt_minute d \<le> 59 \<and> 0 \<le> dt_second d \<and> dt_second d \<le> 59 \<and>
            dt_microsecond d = 0"
    by (rule generate_random_transaction_times_run)
  have "dt_less now (d\<lparr>dt_ordinal := dt_ordinal d + 1\<rparr>)" if "dt_ordinal d = dt_ordinal now" for d
    using that by (simp add: dt_less_def dt_tuple_def)
  with r n w show ?thesis by blast
qed


lemma generate_random_transaction_times_example: "fst (generate_random_transaction_times (Some 2) example_now (rng_of_list [14, 59, 59, 0, 0, 0])) =
  Returned [\<lparr>dt_ordinal = 739925, dt_hour = 22, dt_minute = 59, dt_second = 59, dt_microsecond = 0\<rparr>,
            \<lparr>dt_ordinal = 739926, dt_hour = 8, dt_minute = 0, dt_second = 0, dt_microsecond = 0\<rparr>]"
  by (simp add: times_eval numeral_2_eq_2)

theorem generate_random_transaction_times_sorted_witness:
  "valid_datetime example_now \<and> dt_ordinal example_now < MAXORDINAL
   \<and> (\<exists>ts g'. generate_random_transaction_times (Some 2) example_now
                 (rng_of_list [14, 59, 59, 0, 0, 0]) = (Returned ts, g')
      \<and> int (length ts) = 2
      \<and> sorted (map dt_tuple ts)
      \<and> (\<forall>t\<in>set ts. 8 \<le> dt_hour t \<and> dt_hour t \<le> 22 \<and> 0 \<le> dt_minute t \<and> dt_minute t \<le> 59 \<and>
            0 \<le> dt_second t \<and> dt_second t \<le> 59))"
proof -
  have v: "valid_datetime example_now" and o: "dt_ordinal example_now < MAXORDINAL"
    by (simp_all add: valid_datetime_def example_now_def MAXORDINAL_def)
  from generate_random_transaction_times_sorted
         [OF v o, of "Some 2" "rng_of_list [14, 59, 59, 0, 0, 0]"] v o
  show ?thesis by simp
qed

theorem generate_random_transaction_times_future_witness:
  "valid_datetime example_now \<and> dt_ordinal example_now < MAXORDINAL
   \<and> dt_less (example_now\<lparr>dt_hour := 8, dt_minute := 0, dt_second := 0, dt_microsecond := 0\<rparr>)
        example_now
   \<and> fst (generate_random_transaction_times (Some 1) example_now (rng_of_list [])) =
        Returned [example_now\<lparr>dt_ordinal := dt_ordinal example_now + 1, dt_hour := 8,
                    dt_minute := 0, dt_second := 0, dt_microsecond := 0\<rparr>]
   \<and> (\<exists>draws g'.
        generate_random_transaction_times (Some 1) example_now (rng_of_list []) =
        (Returned (sort_key dt_tuple
           (map (\<lambda>d. if dt_less d example_now then d\<lparr>dt_ordinal := dt_ordinal d + 1\<rparr> else d)
              draws)), g')
      \<and> length draws = 1
      \<and> (\<forall>d\<in>set draws. dt_ordinal d = dt_ordinal example_now \<and>
            (dt_less d example_now \<longrightarrow>
               dt_less example_now (d\<lparr>dt_ordinal := dt_ordinal d + 1\<rparr>))))"
proof -
  have v: "valid_datetime example_now" and o: "dt_ordinal example_now < MAXORDINAL"
    by (simp_all add: valid_datetime_def example_now_def MAXORDINAL_def)
  have p: "dt_less (example_now\<lparr>dt_hour := 8, dt_minute := 0, dt_second := 0, dt_microsecond := 0\<rparr>)
        example_now"
    by (simp add: dt_less_def dt_tuple_def example_now_def)
  have e: "fst (generate_random_transaction_times (Some 1) example_now (rng_of_list [])) =
        Returned [example_now\<lparr>dt_ordinal := dt_ordinal example_now + 1, dt_hour := 8,
                    dt_minute := 0, dt_second := 0, dt_microsecond := 0\<rparr>]"
    by (simp add: times_eval)
  from generate_random_transaction_times_future [OF v o, of "Some 1" "rng_of_list []"]
  obtain draws g' where
    "generate_random_transaction_times (Some 1) example_now (rng_of_list []) =
        (Returned (sort_key dt_tuple
           (map (\<lambda>d. if dt_less d example_now then d\<lparr>dt_ordinal := dt_ordinal d + 1\<rparr> else d)
              draws)), g')"
    "length draws = 1"
    "\<forall>d\<in>set draws. dt_ordinal d = dt_ordinal example_now \<and>
            (dt_less d example_now \<longrightarrow>
               dt_less example_now (d\<lparr>dt_ordinal := dt_ordinal d + 1\<rparr>))"
    by auto
  with v o p e show ?thesis by blast
qed

section \<open>Properties of the provider adapters\<close>

lemma approval_step_cases:
  fixes P a c t s n st
  obtains
    (approved) h w' where "h \<noteq> []"
      and "approval_step P a c t s n st =
             (Returned True, \<lparr>rs_world = w', rs_calls = rs_calls st @
                [Approve a c t s n (Returned (Some h)), Wait c h 180 (Returned True)]\<rparr>)"
  | (no_hash) r reply w' where "r \<noteq> Returned True"
      and "approval_failed (Approve a c t s n reply)"
      and "approval_step P a c t s n st =
             (r, \<lparr>rs_world = w', rs_calls = rs_calls st @ [Approve a c t s n reply]\<rparr>)"
  | (unconfirmed) r h reply w' where "r \<noteq> Returned True" and "h \<noteq> []"
      and "reply \<noteq> Returned True"
      and "approval_step P a c t s n st =
             (r, \<lparr>rs_world = w', rs_calls = rs_calls st @
                [Approve a c t s n (Returned (Some h)), Wait c h 180 reply]\<rparr>)"
proof -
  obtain r1 w1 where a1: "approve_token_for_bridge P a c t s n (rs_world st) = (r1, w1)"
    by (cases "approve_token_for_bridge P a c t s n (rs_world st)")
  show ?thesis
  proof (cases "\<exists>h. r1 = Returned (Some h) \<and> h \<noteq> []")
    case False
    then have f: "approval_failed (Approve a c t s n r1)"
      by (auto split: outcome.splits option.splits)
    from False a1 have "approval_step P a c t s n st =
        ((case r1 of Raised \<Rightarrow> Raised | Returned x \<Rightarrow> Returned False),
         \<lparr>rs_world = w1, rs_calls = rs_calls st @ [Approve a c t s n r1]\<rparr>)"
      by (auto simp: approval_step_def call_approve_def split: outcome.splits option.splits)
    moreover have "(case r1 of Raised \<Rightarrow> Raised | Returned x \<Rightarrow> Returned False) \<noteq> Returned True"
      by (simp split: outcome.splits)
    ultimately show ?thesis using f no_hash by blast
  next
    case True
    then obtain h where h: "r1 = Returned (Some h)" "h \<noteq> []" by blast
    obtain r2 w2 where a2: "wait_for_transaction P c h 180 w1 = (r2, w2)"
      by (cases "wait_for_transaction P c h 180 w1")
    from a1 a2 h have eq: "approval_step P a c t s n st =
        (r2, \<lparr>rs_world = w2, rs_calls = rs_calls st @
                [Approve a c t s n (Returned (Some h)), Wait c h 180 r2]\<rparr>)"
      by (auto simp: approval_step_def call_approve_def call_wait_def split: outcome.splits)
    show ?thesis
    proof (cases "r2 = Returned True")
      case True
      with eq h(2) show ?thesis using approved by blast
    next
      case False
      with eq h(2) show ?thesis using unconfirmed by blast
    qed
  qed
qed


lemma jumper_submit_log:
  "\<exists>cs. rs_calls (snd (jumper_submit P wa fc tc ft tt amt q td st)) = rs_calls st @ cs \<and>
        submission_log cs \<and>
        (\<forall>d. fst (jumper_submit P wa fc tc ft tt amt q td st) = Returned (Some d) \<longrightarrow>
              cs \<noteq> [] \<and> d \<noteq> [])"
  by (auto simp: jumper_submit_def call_send_def call_wait_def call_world_def
      split: prod.splits outcome.splits option.splits bool.splits)

lemma relay_submit_log:
  "\<exists>cs. rs_calls (snd (relay_submit P wa fc tc ft tt amt td st)) = rs_calls st @ cs \<and>
        submission_log cs \<and>
        (\<forall>d. fst (relay_submit P wa fc tc ft tt amt td st) = Returned (Some d) \<longrightarrow>
              cs \<noteq> [] \<and> d \<noteq> [])"
  by (auto simp: relay_submit_def call_send_def call_wait_def call_world_def call_notify_def
      split: prod.splits outcome.splits option.splits bool.splits)

lemma quote_fee_log: "rs_calls (snd (quote_fee P fc tc tok ra st)) = rs_calls st"
  by (auto simp: quote_fee_def call_world_def
      split: prod.splits outcome.splits option.splits)

lemma stargate_submit_log:
  "\<exists>cs. rs_calls (snd (stargate_submit P wa fc tc tok amt aw mw st)) = rs_calls st @ cs \<and>
        submission_log cs \<and>
        (\<forall>d. fst (stargate_submit P wa fc tc tok amt aw mw st) = Returned (Some d) \<longrightarrow>
              cs \<noteq> [] \<and> d \<noteq> [])"
proof (cases "prepare_swap_params P fc tc tok aw mw wa")
  case None
  then show ?thesis by (simp add: stargate_submit_def)
next
  case (Some sp)
  obtain f st2 where q: "quote_fee P fc tc tok wa st = (f, st2)"
    by (cases "quote_fee P fc tc tok wa st")
  with quote_fee_log [of P fc tc tok wa st] have l: "rs_calls st2 = rs_calls st" by simp
  show ?thesis
    using Some q l
    by (auto simp: stargate_submit_def call_send_def call_wait_def call_world_def
      split: prod.splits outcome.splits option.splits bool.splits)
qed


lemma call_world_log:
  "call_world f st = (fst (f (rs_world st)), \<lparr>rs_world = snd (f (rs_world st)), rs_calls = rs_calls st\<rparr>)"
  by (simp add: call_world_def split: prod.splits)

lemma run_log_empty: "run_log required None []"
  by (rule run_log.stopped) simp_all

lemma run_log_after_approval:
  assumes "rs_calls st = []"
    and step: "step = approval_step P a c t s n st"
    and sub: "\<And>st2. \<exists>cs. rs_calls (snd (submit st2)) = rs_calls st2 @ cs \<and> submission_log cs \<and>
                (\<forall>d. fst (submit st2) = Returned (Some d) \<longrightarrow> cs \<noteq> [] \<and> d \<noteq> [])"
  shows "run_log True
     (fst (catch_all (case step of
              (Raised, st2) \<Rightarrow> (Raised, st2)
            | (Returned False, st2) \<Rightarrow> (Returned None, st2)
            | (Returned True, st2) \<Rightarrow> submit st2)))
     (rs_calls (snd (catch_all (case step of
              (Raised, st2) \<Rightarrow> (Raised, st2)
            | (Returned False, st2) \<Rightarrow> (Returned None, st2)
            | (Returned True, st2) \<Rightarrow> submit st2))))"
proof (rule approval_step_cases [where P=P and a=a and c=c and t=t and s=s and n=n and st=st])
  fix h w'
  assume approved: "h \<noteq> []"
      "approval_step P a c t s n st =
             (Returned True, \<lparr>rs_world = w', rs_calls = rs_calls st @
                [Approve a c t s n (Returned (Some h)), Wait c h 180 (Returned True)]\<rparr>)"
  let ?st2 = "\<lparr>rs_world = w', rs_calls = rs_calls st @
                [Approve a c t s n (Returned (Some h)), Wait c h 180 (Returned True)]\<rparr>"
  from sub [of ?st2] obtain cs where
    cs: "rs_calls (snd (submit ?st2)) = rs_calls ?st2 @ cs" "submission_log cs"
        "\<forall>d. fst (submit ?st2) = Returned (Some d) \<longrightarrow> cs \<noteq> [] \<and> d \<noteq> []"
    by blast
  obtain r st3 where r: "submit ?st2 = (r, st3)" by (cases "submit ?st2")
  have res: "fst (catch_all (r, st3)) \<noteq> None \<longrightarrow> cs \<noteq> []"
    using cs(3) r by (auto simp: catch_all_def split: outcome.splits)
  have log: "rs_calls (snd (catch_all (r, st3))) =
      Approve a c t s n (Returned (Some h)) # Wait c h 180 (Returned True) # cs"
    using cs(1) r assms(1) by (auto simp: catch_all_def split: outcome.splits)
  from run_log.approved [OF approved(1) cs(2) res, of a c t s n]
  show ?thesis using step approved(2) r log by simp
next
  fix r reply w'
  assume no_hash: "r \<noteq> Returned True"
      "approval_failed (Approve a c t s n reply)"
      "approval_step P a c t s n st =
             (r, \<lparr>rs_world = w', rs_calls = rs_calls st @ [Approve a c t s n reply]\<rparr>)"
  have "run_log True None [Approve a c t s n reply]"
    using no_hash(2) by (intro run_log.stopped) (simp_all split: outcome.splits option.splits)
  then show ?thesis
    using step no_hash(1,3) assms(1)
    by (cases r) (auto simp: catch_all_def split: bool.splits)
next
  fix r h reply w'
  assume unconfirmed: "r \<noteq> Returned True" "h \<noteq> []"
      "reply \<noteq> Returned True"
      "approval_step P a c t s n st =
             (r, \<lparr>rs_world = w', rs_calls = rs_calls st @
                [Approve a c t s n (Returned (Some h)), Wait c h 180 reply]\<rparr>)"
  have "run_log True None [Approve a c t s n (Returned (Some h)), Wait c h 180 reply]"
    using unconfirmed(2,3) by (intro run_log.stopped) simp_all
  then show ?thesis
    using step unconfirmed(1,4) assms(1)
    by (cases r) (auto simp: catch_all_def split: bool.splits)
qed

lemma run_log_without_approval:
  assumes "rs_calls st = []"
    and sub: "\<exists>cs. rs_calls (snd (submit st)) = rs_calls st @ cs \<and> submission_log cs \<and>
                (\<forall>d. fst (submit st) = Returned (Some d) \<longrightarrow> cs \<noteq> [] \<and> d \<noteq> [])"
  shows "run_log False (fst (catch_all (submit st))) (rs_calls (snd (catch_all (submit st))))"
proof -
  from sub obtain cs where
    cs: "rs_calls (snd (submit st)) = rs_calls st @ cs" "submission_log cs"
        "\<forall>d. fst (submit st) = Returned (Some d) \<longrightarrow> cs \<noteq> [] \<and> d \<noteq> []"
    by blast
  obtain r st3 where r: "submit st = (r, st3)" by (cases "submit st")
  have res: "fst (catch_all (r, st3)) \<noteq> None \<longrightarrow> cs \<noteq> []"
    using cs(3) r by (auto simp: catch_all_def split: outcome.splits)
  have log: "rs_calls (snd (catch_all (r, st3))) = cs"
    using cs(1) r assms(1) by (auto simp: catch_all_def split: outcome.splits)
  from run_log.unapproved [OF cs(2) res] show ?thesis using r log by simp
qed

lemma jumper_run_log:
  assumes "rs_calls st = []"
  shows "run_log (jumper_approval_required P wa fc tc ft tt amt st)
           (fst (jumper_execute_bridge P wa fc tc ft tt amt st))
           (rs_calls (snd (jumper_execute_bridge P wa fc tc ft tt amt st)))"
proof -
  let ?f = "jumper_get_quote P fc tc ft tt amt wa"
  let ?st1 = "\<lparr>rs_world = snd (?f (rs_world st)), rs_calls = rs_calls st\<rparr>"
  have st1: "rs_calls ?st1 = []" using assms by simp
  show ?thesis
  proof (cases "fst (?f (rs_world st))")
    case None
    then show ?thesis
      using assms run_log_empty
      by (simp add: jumper_execute_bridge_def jumper_execute_bridge_body_def call_world_log
          catch_all_def)
  next
    case (Some q)
    show ?thesis
    proof (cases "jumper_prepare_transaction_data q")
      case None
      then show ?thesis
        using assms Some run_log_empty
        by (simp add: jumper_execute_bridge_def jumper_execute_bridge_body_def call_world_log
            catch_all_def)
    next
      case td: (Some td)
      show ?thesis
      proof (cases "jq_approvalData q")
        case None
        have req: "\<not> jumper_approval_required P wa fc tc ft tt amt st"
          using Some None by (simp add: jumper_approval_required_def)
        from run_log_without_approval [OF st1, of "jumper_submit P wa fc tc ft tt amt q td"]
          jumper_submit_log [of P wa fc tc ft tt amt q td ?st1]
        show ?thesis
          using Some td None req
          by (simp add: jumper_execute_bridge_def jumper_execute_bridge_body_def call_world_log)
      next
        case ad: (Some ad)
        have req: "jumper_approval_required P wa fc tc ft tt amt st"
          using Some ad by (simp add: jumper_approval_required_def)
        show ?thesis
        proof (cases "jumper_approval_amount (ja_amount ad)")
          case Raised
          then show ?thesis
            using assms Some td ad run_log_empty
            by (simp add: jumper_execute_bridge_def jumper_execute_bridge_body_def call_world_log
                catch_all_def)
        next
          case (Returned n)
          from run_log_after_approval [OF st1 refl, of "jumper_submit P wa fc tc ft tt amt q td"
                 P wa "td_chain_id td" "ja_tokenAddress ad" "ja_spenderAddress ad" n]
            jumper_submit_log [of P wa fc tc ft tt amt q td]
          show ?thesis
            using Some td ad req Returned
            by (simp add: jumper_execute_bridge_def jumper_execute_bridge_body_def call_world_log)
        qed
      qed
    qed
  qed
qed


lemma relay_run_log:
  assumes "rs_calls st = []"
  shows "run_log (relay_approval_required P wa fc tc ft tt amt st)
           (fst (relay_execute_bridge P wa fc tc ft tt amt st))
           (rs_calls (snd (relay_execute_bridge P wa fc tc ft tt amt st)))"
proof -
  let ?f = "relay_get_quote P fc tc ft tt amt wa"
  let ?st1 = "\<lparr>rs_world = snd (?f (rs_world st)), rs_calls = rs_calls st\<rparr>"
  have st1: "rs_calls ?st1 = []" using assms by simp
  show ?thesis
  proof (cases "fst (?f (rs_world st))")
    case None
    then show ?thesis
      using assms run_log_empty
      by (simp add: relay_execute_bridge_def relay_execute_bridge_body_def call_world_log
          catch_all_def)
  next
    case (Some q)
    show ?thesis
    proof (cases "relay_prepare_transaction_data q")
      case None
      then show ?thesis
        using assms Some run_log_empty
        by (simp add: relay_execute_bridge_def relay_execute_bridge_body_def call_world_log
            catch_all_def)
    next
      case td: (Some td)
      show ?thesis
      proof (cases "rq_approvalData q")
        case None
        have req: "\<not> relay_approval_required P wa fc tc ft tt amt st"
          using Some None by (simp add: relay_approval_required_def)
        from run_log_without_approval [OF st1, of "relay_submit P wa fc tc ft tt amt td"]
          relay_submit_log [of P wa fc tc ft tt amt td ?st1]
        show ?thesis
          using Some td None req
          by (simp add: relay_execute_bridge_def relay_execute_bridge_body_def call_world_log)
      next
        case ad: (Some ad)
        have req: "relay_approval_required P wa fc tc ft tt amt st"
          using Some ad by (simp add: relay_approval_required_def)
        show ?thesis
        proof (cases "relay_approval_amount (ra_amount ad)")
          case Raised
          then show ?thesis
            using assms Some td ad run_log_empty
            by (simp add: relay_execute_bridge_def relay_execute_bridge_body_def call_world_log
                catch_all_def)
        next
          case (Returned n)
          from run_log_after_approval [OF st1 refl, of "relay_submit P wa fc tc ft tt amt td"
                 P wa "rtd_chain_id td" ft "ra_spender ad" n]
            relay_submit_log [of P wa fc tc ft tt amt td]
          show ?thesis
            using Some td ad req Returned
            by (simp add: relay_execute_bridge_def relay_execute_bridge_body_def call_world_log)
        qed
      qed
    qed
  qed
qed

lemma stargate_run_log:
  assumes "rs_calls st = []"
  shows "run_log (stargate_approval_required tok addr)
           (fst (stargate_execute_bridge P wa fc tc tok amt addr st))
           (rs_calls (snd (stargate_execute_bridge P wa fc tc tok amt addr st)))"
proof (cases "fc \<in> set (stargate_router_contracts P)")
  case False
  then show ?thesis
    using assms run_log_empty
    by (simp add: stargate_execute_bridge_def stargate_execute_bridge_body_def catch_all_def)
next
  case True
  let ?aw = "if tok = ''ETH'' then web3_to_wei P amt else int_result (py_int_str amt 10)"
  show ?thesis
  proof (cases ?aw)
    case Raised
    then show ?thesis
      using assms True run_log_empty
      by (simp add: stargate_execute_bridge_def stargate_execute_bridge_body_def catch_all_def)
  next
    case aw: (Returned aw)
    show ?thesis
    proof (cases "stargate_min_amount P aw")
      case Raised
      then show ?thesis
        using assms True aw run_log_empty
        by (simp add: stargate_execute_bridge_def stargate_execute_bridge_body_def catch_all_def)
    next
      case mw: (Returned mw)
      show ?thesis
      proof (cases "stargate_approval_required tok addr")
        case False
        from run_log_without_approval [OF assms, of "stargate_submit P wa fc tc tok amt aw mw"]
          stargate_submit_log [of P wa fc tc tok amt aw mw st]
        show ?thesis
          using True aw mw False
          by (simp add: stargate_execute_bridge_def stargate_execute_bridge_body_def)
      next
        case req: True
        show ?thesis
        proof (cases "router_of fc")
          case Raised
          then show ?thesis
            using assms True aw mw req run_log_empty
            by (simp add: stargate_execute_bridge_def stargate_execute_bridge_body_def
                catch_all_def)
        next
          case (Returned router)
          from run_log_after_approval [OF assms refl, of "stargate_submit P wa fc tc tok amt aw mw"
                 P wa "JStr fc" "jval_of addr" "JStr router" aw]
            stargate_submit_log [of P wa fc tc tok amt aw mw]
          show ?thesis
            using True aw mw req Returned
            by (simp add: stargate_execute_bridge_def stargate_execute_bridge_body_def)
        qed
      qed
    qed
  qed
qed

lemma approval_calls_no_send:
  "list_all is_approval_call cs \<Longrightarrow> \<not> list_ex is_send cs \<and> approval_before_send cs"
  by (induction cs) (auto elim: is_approval_call.elims)

lemma unconfirmed_no_send:
  "list_all is_approval_call cs \<Longrightarrow> \<not> list_ex approval_confirmed cs \<Longrightarrow>
     send_after_confirmation cs"
  by (induction cs) (auto elim: is_approval_call.elims)

lemma submission_log_props:
  "submission_log cs \<Longrightarrow>
     approval_before_send cs \<and> \<not> list_ex approval_failed cs \<and> \<not> list_ex approval_confirmed cs"
proof (cases cs)
  case Nil
  then show ?thesis by simp
next
  case (Cons e es)
  assume "submission_log cs"
  with Cons have e: "is_send e" and es: "list_all (\<lambda>x. \<not> is_send x \<and> \<not> is_approval_call x) es"
    by simp_all
  have n: "\<not> is_approval_call x \<Longrightarrow> \<not> approval_failed x \<and> \<not> approval_confirmed x" for x
    by (cases x) auto
  from es have "\<not> list_ex is_approval_call es" "\<not> list_ex approval_failed es"
    "\<not> list_ex approval_confirmed es"
    using n by (auto simp: list_all_iff list_ex_iff)
  moreover from e have "\<not> approval_failed e" "\<not> approval_confirmed e"
    by (cases e; simp)+
  ultimately show ?thesis using Cons e by simp
qed

lemma run_log_discipline:
  assumes "run_log required res calls"
  shows "approval_discipline required res calls"
  using assms
proof cases
  case stopped
  then show ?thesis
    using approval_calls_no_send [of calls] unconfirmed_no_send [of calls]
    by (auto simp: approval_discipline_def)
next
  case unapproved
  then show ?thesis
    using submission_log_props [of calls] by (auto simp: approval_discipline_def)
next
  case (approved h cs a c t s n)
  then show ?thesis
    using submission_log_props [of cs]
    by (cases cs) (auto simp: approval_discipline_def)
qed

lemmas py_int_eval = py_int_str_def parse_digits_def strip_sign_def strip_prefix_def py_isspace_def
  digit_value_def int_result_def or_default_def tx_value_of_def

lemmas adapter_eval =
  jumper_execute_bridge_def jumper_execute_bridge_body_def jumper_submit_def
  jumper_prepare_transaction_data_def jumper_approval_amount_def jumper_approval_required_def
  relay_execute_bridge_def relay_execute_bridge_body_def relay_submit_def
  relay_prepare_transaction_data_def relay_approval_amount_def relay_approval_required_def
  stargate_execute_bridge_def stargate_execute_bridge_body_def stargate_submit_def
  stargate_approval_required_def prepare_swap_params_def quote_fee_def router_of_def
  get_chain_id_def get_pool_id_def STARGATE_CHAINS_def STARGATE_POOLS_def jval_of_def
  approval_step_def catch_all_def call_world_def call_approve_def call_wait_def call_send_def
  call_notify_def example_ports_def example_state_def example_jumper_quote_def
  example_jumper_tx_request_def example_jumper_approval_def
  example_relay_quote_def

text \<open>
  Claim C1. In every run of the Jumper, Stargate or Relay adapter from an empty call log:
  if an approval is required and the log holds no confirmed approval (no transaction hash
  was obtained, or the 180-second wait did not return \<open>True\<close>), and likewise after any
  failed approval call, the run returns \<open>None\<close> (no transaction record) and the log holds
  no \<open>send_transaction\<close> call; a required approval is confirmed before any submission,
  and no approval call follows a submission.
\<close>

theorem approval_failure_blocks_submission:
  assumes "rs_calls st = []"
  shows "approval_discipline (jumper_approval_required P wa fc tc ft tt amt st)
           (fst (jumper_execute_bridge P wa fc tc ft tt amt st))
           (rs_calls (snd (jumper_execute_bridge P wa fc tc ft tt amt st)))
       \<and> approval_discipline (stargate_approval_required tok addr)
           (fst (stargate_execute_bridge P wa fc tc tok amt addr st))
           (rs_calls (snd (stargate_execute_bridge P wa fc tc tok amt addr st)))
       \<and> approval_discipline (relay_approval_required P wa fc tc rft rtt amt st)
           (fst (relay_execute_bridge P wa fc tc rft rtt amt st))
           (rs_calls (snd (relay_execute_bridge P wa fc tc rft rtt amt st)))"
  using assms
  by (intro conjI run_log_discipline jumper_run_log stargate_run_log relay_run_log)

theorem approval_failure_blocks_submission_witness:
  "rs_calls example_state = []
   \<and> jumper_approval_required example_ports ''0xw'' ''X'' ''Y'' ''USDC'' ''USDC'' ''10.0'' example_state
   \<and> stargate_approval_required ''USDC'' (Some ''0xusdc'')
   \<and> jumper_execute_bridge example_ports ''0xw'' ''X'' ''Y'' ''USDC'' ''USDC'' ''10.0'' example_state =
       (None, \<lparr>rs_world = 3, rs_calls =
          [Approve ''0xw'' (JStr ''1'') (JStr ''0xtoken'') (JStr ''0xspender'') 256
             (Returned (Some ''0xa1'')),
           Wait (JStr ''1'') ''0xa1'' 180 (Returned False)]\<rparr>)
   \<and> stargate_execute_bridge example_ports ''0xw'' ''ethereum'' ''base'' ''USDC'' ''50''
         (Some ''0xusdc'') example_state =
       (None, \<lparr>rs_world = 2, rs_calls =
          [Approve ''0xw'' (JStr ''ethereum'') (JStr ''0xusdc'')
             (JStr ''0x8731d54E9D02c286767d56ac03e8037C07e01e98'') 50 (Returned (Some ''0xa1'')),
           Wait (JStr ''ethereum'') ''0xa1'' 180 (Returned False)]\<rparr>)
   \<and> approval_discipline True None
          [Approve ''0xw'' (JStr ''1'') (JStr ''0xtoken'') (JStr ''0xspender'') 256
             (Returned (Some ''0xa1'')),
           Wait (JStr ''1'') ''0xa1'' 180 (Returned False)]
   \<and> approval_discipline True None
          [Approve ''0xw'' (JStr ''ethereum'') (JStr ''0xusdc'')
             (JStr ''0x8731d54E9D02c286767d56ac03e8037C07e01e98'') 50 (Returned (Some ''0xa1'')),
           Wait (JStr ''ethereum'') ''0xa1'' 180 (Returned False)]"
proof -
  have e: "rs_calls example_state = []" by (simp add: example_state_def)
  have rj: "jumper_approval_required example_ports ''0xw'' ''X'' ''Y'' ''USDC'' ''USDC'' ''10.0''
              example_state"
    by (simp add: jumper_approval_required_def example_ports_def example_jumper_quote_def
        example_state_def)
  have rs: "stargate_approval_required ''USDC'' (Some ''0xusdc'')"
    by (simp add: stargate_approval_required_def)
  have j: "jumper_execute_bridge example_ports ''0xw'' ''X'' ''Y'' ''USDC'' ''USDC'' ''10.0'' example_state =
       (None, \<lparr>rs_world = 3, rs_calls =
          [Approve ''0xw'' (JStr ''1'') (JStr ''0xtoken'') (JStr ''0xspender'') 256
             (Returned (Some ''0xa1'')),
           Wait (JStr ''1'') ''0xa1'' 180 (Returned False)]\<rparr>)"
    by (simp add: adapter_eval py_int_eval)
  have s: "stargate_execute_bridge example_ports ''0xw'' ''ethereum'' ''base'' ''USDC'' ''50''
         (Some ''0xusdc'') example_state =
       (None, \<lparr>rs_world = 2, rs_calls =
          [Approve ''0xw'' (JStr ''ethereum'') (JStr ''0xusdc'')
             (JStr ''0x8731d54E9D02c286767d56ac03e8037C07e01e98'') 50 (Returned (Some ''0xa1'')),
           Wait (JStr ''ethereum'') ''0xa1'' 180 (Returned False)]\<rparr>)"
    by (simp add: adapter_eval py_int_eval)
  from approval_failure_blocks_submission
     [OF e, of example_ports "''0xw''" "''X''" "''Y''" "''USDC''" "''USDC''" "''10.0''"]
    rj j
  have dj: "approval_discipline True None
          [Approve ''0xw'' (JStr ''1'') (JStr ''0xtoken'') (JStr ''0xspender'') 256
             (Returned (Some ''0xa1'')),
           Wait (JStr ''1'') ''0xa1'' 180 (Returned False)]"
    by simp
  from approval_failure_blocks_submission
     [OF e, of example_ports "''0xw''" "''ethereum''" "''base''" _ _ "''50''"
        "''USDC''" "Some ''0xusdc''"]
    rs s
  have ds: "approval_discipline True None
          [Approve ''0xw'' (JStr ''ethereum'') (JStr ''0xusdc'')
             (JStr ''0x8731d54E9D02c286767d56ac03e8037C07e01e98'') 50 (Returned (Some ''0xa1'')),
           Wait (JStr ''ethereum'') ''0xa1'' 180 (Returned False)]"
    by simp
  from e rj rs j s dj ds show ?thesis by blast
qed



lemma relay_submit_cases:
  fixes P wa fc tc ft tt amt td st
  obtains
    (not_sent) r where "relay_submit P wa fc tc ft tt amt td st = (r, st)"
      and "\<forall>d. r \<noteq> Returned (Some d)"
  | (send_failed) r v reply w' where
      "\<not> sent_ok (Send wa (rtd_chain_id td) (rtd_to td) v (rtd_data td) reply)"
      and "relay_submit P wa fc tc ft tt amt td st =
             (r, \<lparr>rs_world = w', rs_calls = rs_calls st @
                [Send wa (rtd_chain_id td) (rtd_to td) v (rtd_data td) reply]\<rparr>)"
      and "\<forall>d. r \<noteq> Returned (Some d)"
  | (sent) r v h notified reply w' where "h \<noteq> []"
      and "relay_submit P wa fc tc ft tt amt td st =
             (r, \<lparr>rs_world = w', rs_calls = rs_calls st @
                [Send wa (rtd_chain_id td) (rtd_to td) v (rtd_data td) (Returned (Some h)),
                 Notify (rtd_request_id td) h notified,
                 Wait (rtd_chain_id td) h 300 reply]\<rparr>)"
      and "reply = Returned True \<longrightarrow>
             (\<exists>d. r = Returned (Some d) \<and> map_of d ''tx_hash'' = Some (JStr h) \<and>
                  map_of d ''request_id'' = Some (rtd_request_id td))"
      and "reply \<noteq> Returned True \<longrightarrow> (\<forall>d. r \<noteq> Returned (Some d))"
proof (cases "tx_value_of (rtd_value td)")
  case Raised
  then have "relay_submit P wa fc tc ft tt amt td st = (Raised, st)"
    by (simp add: relay_submit_def)
  then show ?thesis using not_sent by blast
next
  case (Returned v)
  obtain r1 w1 where s1: "send_transaction P wa (rtd_chain_id td) (rtd_to td) v (rtd_data td)
                            (rs_world st) = (r1, w1)"
    by (cases "send_transaction P wa (rtd_chain_id td) (rtd_to td) v (rtd_data td) (rs_world st)")
  show ?thesis
  proof (cases "\<exists>h. r1 = Returned (Some h) \<and> h \<noteq> []")
    case False
    then have f: "\<not> sent_ok (Send wa (rtd_chain_id td) (rtd_to td) v (rtd_data td) r1)"
      by (auto split: outcome.splits option.splits)
    from False Returned s1 have "relay_submit P wa fc tc ft tt amt td st =
        ((case r1 of Raised \<Rightarrow> Raised | Returned x \<Rightarrow> Returned None),
         \<lparr>rs_world = w1, rs_calls = rs_calls st @
                [Send wa (rtd_chain_id td) (rtd_to td) v (rtd_data td) r1]\<rparr>)"
      by (auto simp: relay_submit_def call_send_def split: outcome.splits option.splits)
    moreover have "\<forall>d. (case r1 of Raised \<Rightarrow> Raised | Returned x \<Rightarrow> Returned None)
                      \<noteq> Returned (Some d)"
      by (simp split: outcome.splits)
    ultimately show ?thesis using f send_failed by blast
  next
    case True
    then obtain h where h: "r1 = Returned (Some h)" "h \<noteq> []" by blast
    obtain nr w2 where n: "relay_notify_transaction P (rtd_request_id td) h w1 = (nr, w2)"
      by (cases "relay_notify_transaction P (rtd_request_id td) h w1")
    obtain r3 w3 where w: "wait_for_transaction P (rtd_chain_id td) h 300 w2 = (r3, w3)"
      by (cases "wait_for_transaction P (rtd_chain_id td) h 300 w2")
    obtain ts w4 where t: "now_isoformat P w3 = (ts, w4)"
      by (cases "now_isoformat P w3")
    let ?log = "rs_calls st @
                [Send wa (rtd_chain_id td) (rtd_to td) v (rtd_data td) (Returned (Some h)),
                 Notify (rtd_request_id td) h nr,
                 Wait (rtd_chain_id td) h 300 r3]"
    show ?thesis
    proof (cases "r3 = Returned True")
      case True
      with Returned s1 h n w t have eq: "relay_submit P wa fc tc ft tt amt td st =
          (Returned (Some
             [(''tx_hash'', JStr h), (''bridge_type'', JStr ''relay''),
              (''request_id'', rtd_request_id td), (''from_chain_id'', JStr fc),
              (''to_chain_id'', JStr tc), (''from_token'', ft), (''to_token'', tt),
              (''amount'', JStr amt), (''status'', JStr ''pending''),
              (''timestamp'', JStr ts)]),
           \<lparr>rs_world = w4, rs_calls = ?log\<rparr>)"
        by (simp add: relay_submit_def call_send_def call_notify_def call_wait_def call_world_def)
      have ok: "r3 = Returned True \<longrightarrow>
             (\<exists>d. Returned (Some
             [(''tx_hash'', JStr h), (''bridge_type'', JStr ''relay''),
              (''request_id'', rtd_request_id td), (''from_chain_id'', JStr fc),
              (''to_chain_id'', JStr tc), (''from_token'', ft), (''to_token'', tt),
              (''amount'', JStr amt), (''status'', JStr ''pending''),
              (''timestamp'', JStr ts)]) = Returned (Some d) \<and>
                  map_of d ''tx_hash'' = Some (JStr h) \<and>
                  map_of d ''request_id'' = Some (rtd_request_id td))"
        by simp
      have no: "r3 \<noteq> Returned True \<longrightarrow> (\<forall>d. Returned (Some
             [(''tx_hash'', JStr h), (''bridge_type'', JStr ''relay''),
              (''request_id'', rtd_request_id td), (''from_chain_id'', JStr fc),
              (''to_chain_id'', JStr tc), (''from_token'', ft), (''to_token'', tt),
              (''amount'', JStr amt), (''status'', JStr ''pending''),
              (''timestamp'', JStr ts)]) \<noteq> Returned (Some d))"
        using True by simp
      from h(2) eq ok no show ?thesis by (rule sent)
    next
      case False
      with Returned s1 h n w have eq: "relay_submit P wa fc tc ft tt amt td st =
          ((case r3 of Raised \<Rightarrow> Raised | Returned x \<Rightarrow> Returned None),
           \<lparr>rs_world = w3, rs_calls = ?log\<rparr>)"
        by (auto simp: relay_submit_def call_send_def call_notify_def call_wait_def
            split: outcome.splits bool.splits)
      have no: "r3 \<noteq> Returned True \<longrightarrow>
          (\<forall>d. (case r3 of Raised \<Rightarrow> Raised | Returned x \<Rightarrow> Returned None)
                      \<noteq> Returned (Some d))"
        by (simp split: outcome.splits)
      have ok: "r3 = Returned True \<longrightarrow>
             (\<exists>d. (case r3 of Raised \<Rightarrow> Raised | Returned x \<Rightarrow> Returned None) = Returned (Some d) \<and>
                  map_of d ''tx_hash'' = Some (JStr h) \<and>
                  map_of d ''request_id'' = Some (rtd_request_id td))"
        using False by simp
      from h(2) eq ok no show ?thesis by (rule sent)
    qed
  qed
qed


lemma approval_step_log:
  assumes "rs_calls st = []"
  shows "list_all is_approval_call (rs_calls (snd (approval_step P a c t s n st)))"
  by (rule approval_step_cases [where P=P and a=a and c=c and t=t and s=s and n=n and st=st])
     (simp_all add: assms)

lemma relay_reach:
  fixes P wa fc tc ft tt amt st
  assumes "rs_calls st = []"
  obtains
    (stopped) "\<not> list_ex is_send (rs_calls (snd (relay_execute_bridge P wa fc tc ft tt amt st)))"
  | (submitting) q td st2 where
      "fst (relay_get_quote P fc tc ft tt amt wa (rs_world st)) = Some q"
      and "relay_prepare_transaction_data q = Some td"
      and "\<not> list_ex is_send (rs_calls st2)"
      and "relay_execute_bridge P wa fc tc ft tt amt st =
             catch_all (relay_submit P wa fc tc ft tt amt td st2)"
proof -
  let ?f = "relay_get_quote P fc tc ft tt amt wa"
  let ?st1 = "\<lparr>rs_world = snd (?f (rs_world st)), rs_calls = rs_calls st\<rparr>"
  have st1: "rs_calls ?st1 = []" using assms by simp
  show ?thesis
  proof (cases "fst (?f (rs_world st))")
    case None
    then have "\<not> list_ex is_send (rs_calls (snd (relay_execute_bridge P wa fc tc ft tt amt st)))"
      using assms
      by (simp add: relay_execute_bridge_def relay_execute_bridge_body_def call_world_log
          catch_all_def)
    then show ?thesis by (rule stopped)
  next
    case (Some q)
    show ?thesis
    proof (cases "relay_prepare_transaction_data q")
      case None
      then have "\<not> list_ex is_send (rs_calls (snd (relay_execute_bridge P wa fc tc ft tt amt st)))"
        using assms Some
        by (simp add: relay_execute_bridge_def relay_execute_bridge_body_def call_world_log
            catch_all_def)
      then show ?thesis by (rule stopped)
    next
      case td: (Some td)
      show ?thesis
      proof (cases "rq_approvalData q")
        case None
        have "relay_execute_bridge P wa fc tc ft tt amt st =
                catch_all (relay_submit P wa fc tc ft tt amt td ?st1)"
          using Some td None
          by (simp add: relay_execute_bridge_def relay_execute_bridge_body_def call_world_log)
        moreover have "\<not> list_ex is_send (rs_calls ?st1)" using assms by simp
        ultimately show ?thesis using Some td submitting by blast
      next
        case ad: (Some ad)
        show ?thesis
        proof (cases "relay_approval_amount (ra_amount ad)")
          case Raised
          then have "\<not> list_ex is_send
                       (rs_calls (snd (relay_execute_bridge P wa fc tc ft tt amt st)))"
            using assms Some td ad
            by (simp add: relay_execute_bridge_def relay_execute_bridge_body_def call_world_log
                catch_all_def)
          then show ?thesis by (rule stopped)
        next
          case (Returned n)
          obtain r st2 where step: "approval_step P wa (rtd_chain_id td) ft (ra_spender ad) n ?st1
                                      = (r, st2)"
            by (cases "approval_step P wa (rtd_chain_id td) ft (ra_spender ad) n ?st1")
          from approval_step_log [OF st1, of P wa "rtd_chain_id td" ft "ra_spender ad" n] step
          have "list_all is_approval_call (rs_calls st2)" by simp
          then have ns: "\<not> list_ex is_send (rs_calls st2)"
            using approval_calls_no_send by blast
          have body: "relay_execute_bridge P wa fc tc ft tt amt st =
              catch_all (case r of
                  Raised \<Rightarrow> (Raised, st2)
                | Returned False \<Rightarrow> (Returned None, st2)
                | Returned True \<Rightarrow> relay_submit P wa fc tc ft tt amt td st2)"
            using Some td ad Returned step
            by (simp add: relay_execute_bridge_def relay_execute_bridge_body_def call_world_log
                split: outcome.splits bool.splits)
          show ?thesis
          proof (cases "r = Returned True")
            case True
            with body have "relay_execute_bridge P wa fc tc ft tt amt st =
                catch_all (relay_submit P wa fc tc ft tt amt td st2)" by simp
            with Some td ns show ?thesis using submitting by blast
          next
            case False
            with body ns
            have "\<not> list_ex is_send
                       (rs_calls (snd (relay_execute_bridge P wa fc tc ft tt amt st)))"
              by (cases r) (auto simp: catch_all_def split: bool.splits)
            then show ?thesis by (rule stopped)
          qed
        qed
      qed
    qed
  qed
qed

lemma sent_ok_is_send: "sent_ok e \<Longrightarrow> is_send e"
  by (cases e) simp_all

text \<open>
  Claim C9. In every Relay run from an empty call log in which a submission returned a
  transaction hash, the log ends with that submission, then the notification call carrying
  the quote's request id and the hash, then the 300-second wait on the hash; whatever the
  notification returned, the run returns a result with that hash and request id when the
  wait returns \<open>True\<close> (and \<open>None\<close> otherwise).
\<close>

theorem relay_notification_does_not_fail_run:
  assumes "rs_calls st = []"
    and "list_ex sent_ok (rs_calls (snd (relay_execute_bridge P wa fc tc ft tt amt st)))"
  shows "\<exists>q pre to_address tx_value tx_bytes h notified reply.
      fst (relay_get_quote P fc tc ft tt amt wa (rs_world st)) = Some q
    \<and> \<not> list_ex is_send pre \<and> h \<noteq> []
    \<and> rs_calls (snd (relay_execute_bridge P wa fc tc ft tt amt st)) =
        pre @ [Send wa (rq_fromChainId q) to_address tx_value tx_bytes (Returned (Some h)),
               Notify (rq_requestId q) h notified,
               Wait (rq_fromChainId q) h 300 reply]
    \<and> (reply = Returned True \<longrightarrow>
         (\<exists>d. fst (relay_execute_bridge P wa fc tc ft tt amt st) = Some d \<and>
              map_of d ''tx_hash'' = Some (JStr h) \<and>
              map_of d ''request_id'' = Some (rq_requestId q)))
    \<and> (reply \<noteq> Returned True \<longrightarrow> fst (relay_execute_bridge P wa fc tc ft tt amt st) = None)"
  using assms(1)
proof (cases rule: relay_reach [where P=P and wa=wa and fc=fc and tc=tc and ft=ft and tt=tt
                                 and amt=amt and st=st])
  case stopped
  with assms(2) show ?thesis
    using sent_ok_is_send by (auto simp: list_ex_iff)
next
  case (submitting q td st2)
  have ids: "rtd_chain_id td = rq_fromChainId q" "rtd_request_id td = rq_requestId q"
    using submitting(2)
    by (auto simp: relay_prepare_transaction_data_def split: option.splits)
  show ?thesis
  proof (cases rule: relay_submit_cases [where P=P and wa=wa and fc=fc and tc=tc and ft=ft
                                   and tt=tt and amt=amt and td=td and st=st2])
    case (not_sent r)
    with submitting(3,4) assms(2) show ?thesis
      using sent_ok_is_send
      by (cases r) (auto simp: catch_all_def list_ex_iff)
  next
    case (send_failed r v reply w')
    with submitting(3,4) assms(2) show ?thesis
      using sent_ok_is_send
      by (cases r) (auto simp: catch_all_def list_ex_iff)
  next
    case (sent r v h notified reply w')
    have log: "rs_calls (snd (relay_execute_bridge P wa fc tc ft tt amt st)) =
        rs_calls st2 @ [Send wa (rq_fromChainId q) (rtd_to td) v (rtd_data td) (Returned (Some h)),
               Notify (rq_requestId q) h notified,
               Wait (rq_fromChainId q) h 300 reply]"
      using submitting(4) sent(2) ids by (cases r) (simp_all add: catch_all_def)
    have ok: "reply = Returned True \<longrightarrow>
         (\<exists>d. fst (relay_execute_bridge P wa fc tc ft tt amt st) = Some d \<and>
              map_of d ''tx_hash'' = Some (JStr h) \<and>
              map_of d ''request_id'' = Some (rq_requestId q))"
      using submitting(4) sent(2,3) ids by (auto simp: catch_all_def)
    have no: "reply \<noteq> Returned True \<longrightarrow> fst (relay_execute_bridge P wa fc tc ft tt amt st) = None"
      using submitting(4) sent(2,4) by (cases r) (auto simp: catch_all_def)
    from submitting(1,3) sent(1) log ok no show ?thesis by blast
  qed
qed


theorem relay_notification_does_not_fail_run_witness:
  "rs_calls example_state = []
   \<and> list_ex sent_ok (rs_calls (snd (relay_execute_bridge example_ports ''0xw'' ''X'' ''Y''
          (JStr ''0x...'') (JStr ''0x...'') ''10.0'' example_state)))
   \<and> relay_execute_bridge example_ports ''0xw'' ''X'' ''Y'' (JStr ''0x...'') (JStr ''0x...'')
        ''10.0'' example_state =
       (Some [(''tx_hash'', JStr ''0xb2''), (''bridge_type'', JStr ''relay''),
              (''request_id'', JStr ''req-1''), (''from_chain_id'', JStr ''X''),
              (''to_chain_id'', JStr ''Y''), (''from_token'', JStr ''0x...''),
              (''to_token'', JStr ''0x...''), (''amount'', JStr ''10.0''),
              (''status'', JStr ''pending''), (''timestamp'', JStr ''2026-01-01T00:00:00'')],
        \<lparr>rs_world = 4, rs_calls =
          [Send ''0xw'' (JStr ''8453'') (JStr ''0x5678'') 0 (JStr ''0xef'')
             (Returned (Some ''0xb2'')),
           Notify (JStr ''req-1'') ''0xb2'' False,
           Wait (JStr ''8453'') ''0xb2'' 300 (Returned True)]\<rparr>)
   \<and> (\<exists>q pre to_address tx_value tx_bytes h notified reply.
        fst (relay_get_quote example_ports ''X'' ''Y'' (JStr ''0x...'') (JStr ''0x...'') ''10.0''
               ''0xw'' (rs_world example_state)) = Some q
      \<and> \<not> list_ex is_send pre \<and> h \<noteq> []
      \<and> rs_calls (snd (relay_execute_bridge example_ports ''0xw'' ''X'' ''Y''
            (JStr ''0x...'') (JStr ''0x...'') ''10.0'' example_state)) =
          pre @ [Send ''0xw'' (rq_fromChainId q) to_address tx_value tx_bytes (Returned (Some h)),
                 Notify (rq_requestId q) h notified,
                 Wait (rq_fromChainId q) h 300 reply]
      \<and> (reply = Returned True \<longrightarrow>
           (\<exists>d. fst (relay_execute_bridge example_ports ''0xw'' ''X'' ''Y''
                    (JStr ''0x...'') (JStr ''0x...'') ''10.0'' example_state) = Some d \<and>
                map_of d ''tx_hash'' = Some (JStr h) \<and>
                map_of d ''request_id'' = Some (rq_requestId q))))"
proof -
  have e: "rs_calls example_state = []" by (simp add: example_state_def)
  have r: "relay_execute_bridge example_ports ''0xw'' ''X'' ''Y'' (JStr ''0x...'') (JStr ''0x...'')
        ''10.0'' example_state =
       (Some [(''tx_hash'', JStr ''0xb2''), (''bridge_type'', JStr ''relay''),
              (''request_id'', JStr ''req-1''), (''from_chain_id'', JStr ''X''),
              (''to_chain_id'', JStr ''Y''), (''from_token'', JStr ''0x...''),
              (''to_token'', JStr ''0x...''), (''amount'', JStr ''10.0''),
              (''status'', JStr ''pending''), (''timestamp'', JStr ''2026-01-01T00:00:00'')],
        \<lparr>rs_world = 4, rs_calls =
          [Send ''0xw'' (JStr ''8453'') (JStr ''0x5678'') 0 (JStr ''0xef'')
             (Returned (Some ''0xb2'')),
           Notify (JStr ''req-1'') ''0xb2'' False,
           Wait (JStr ''8453'') ''0xb2'' 300 (Returned True)]\<rparr>)"
    by (simp add: adapter_eval py_int_eval)
  have l: "list_ex sent_ok (rs_calls (snd (relay_execute_bridge example_ports ''0xw'' ''X'' ''Y''
          (JStr ''0x...'') (JStr ''0x...'') ''10.0'' example_state)))"
    unfolding r by simp
  from relay_notification_does_not_fail_run [OF e l]
  obtain q pre to_address tx_value tx_bytes h notified reply where
    "fst (relay_get_quote example_ports ''X'' ''Y'' (JStr ''0x...'') (JStr ''0x...'') ''10.0''
               ''0xw'' (rs_world example_state)) = Some q
      \<and> \<not> list_ex is_send pre \<and> h \<noteq> []
      \<and> rs_calls (snd (relay_execute_bridge example_ports ''0xw'' ''X'' ''Y''
            (JStr ''0x...'') (JStr ''0x...'') ''10.0'' example_state)) =
          pre @ [Send ''0xw'' (rq_fromChainId q) to_address tx_value tx_bytes (Returned (Some h)),
                 Notify (rq_requestId q) h notified,
                 Wait (rq_fromChainId q) h 300 reply]
      \<and> (reply = Returned True \<longrightarrow>
           (\<exists>d. fst (relay_execute_bridge example_ports ''0xw'' ''X'' ''Y''
                    (JStr ''0x...'') (JStr ''0x...'') ''10.0'' example_state) = Some d \<and>
                map_of d ''tx_hash'' = Some (JStr h) \<and>
                map_of d ''request_id'' = Some (rq_requestId q)))"
    by blast
  with e l r show ?thesis by blast
qed

lemma hex_digit_char:
  assumes "digit_value c < 16"
  shows "\<not> py_isspace c" and "c \<noteq> CHR ''+''" and "c \<noteq> CHR ''-''" and "c \<noteq> CHR ''_''"
    and "c \<noteq> CHR ''x''" and "c \<noteq> CHR ''X''"
  using assms by (auto simp: digit_value_def py_isspace_def Let_def split: if_splits)

lemma foldl_hex_value:
  "foldl (\<lambda>acc c. acc * 16 + digit_value c) a ds = a * 16 ^ length ds + spec_hex_value ds"
  by (induction ds arbitrary: a) (simp_all add: algebra_simps)

lemma no_underscore_not_adjacent:
  "list_all (\<lambda>c. c \<noteq> CHR ''_'') ds \<Longrightarrow> \<not> adjacent_underscores ds"
  by (induction ds rule: adjacent_underscores.induct) simp_all

lemma parse_digits_hex:
  assumes "ds \<noteq> []" and "list_all (\<lambda>c. digit_value c < 16) ds"
  shows "parse_digits 16 False ds = Some (int (spec_hex_value ds))"
proof -
  have all: "\<forall>c\<in>set ds. digit_value c < 16 \<and> c \<noteq> CHR ''_''"
    using assms(2) hex_digit_char(4) by (auto simp: list_all_iff)
  then have "\<forall>c\<in>set ds. digit_value c < 16 \<or> c = CHR ''_''" by blast
  then have tw: "takeWhile (\<lambda>c. digit_value c < 16 \<or> c = CHR ''_'') ds = ds"
    and dw: "dropWhile (\<lambda>c. digit_value c < 16 \<or> c = CHR ''_'') ds = []"
    by simp_all
  have f: "filter (\<lambda>c. c \<noteq> CHR ''_'') ds = ds" using all by (simp add: filter_id_conv)
  have h: "hd ds \<noteq> CHR ''_''" "last ds \<noteq> CHR ''_''"
    using all assms(1) hd_in_set [of ds] last_in_set [of ds] by auto
  have a: "\<not> adjacent_underscores ds"
    using all by (intro no_underscore_not_adjacent) (simp add: list_all_iff)
  show ?thesis
    unfolding parse_digits_def tw dw Let_def f
    using assms(1) h a by (simp add: foldl_hex_value)
qed

lemma py_int_str_hex_digits:
  assumes "ds \<noteq> []" and "list_all (\<lambda>c. digit_value c < 16) ds"
  shows "py_int_str ds 16 = Some (int (spec_hex_value ds))"
    and "py_int_str (''0x'' @ ds) 16 = Some (int (spec_hex_value ds))"
proof -
  obtain c cs where ds: "ds = c # cs" using assms(1) by (cases ds) auto
  with assms(2) have c: "digit_value c < 16" by simp
  note cf = hex_digit_char [OF c]
  have cs0: "cs \<noteq> [] \<Longrightarrow> hd cs \<noteq> CHR ''x'' \<and> hd cs \<noteq> CHR ''X''"
    using assms(2) ds hex_digit_char(5,6) by (cases cs) auto
  have sp: "dropWhile py_isspace ds = ds" using ds cf(1) by simp
  have sg: "strip_sign ds = (False, ds)" using ds cf(2,3) by (simp add: strip_sign_def)
  have pf: "strip_prefix 16 ds = ds"
    using ds cs0 by (cases cs) (auto simp: strip_prefix_def)
  show "py_int_str ds 16 = Some (int (spec_hex_value ds))"
    by (simp add: py_int_str_def sp sg pf parse_digits_hex [OF assms])
  have sp': "\<not> py_isspace CHR ''0''"
    by (simp add: py_isspace_def)
  have sg': "strip_sign (CHR ''0'' # CHR ''x'' # ds) = (False, CHR ''0'' # CHR ''x'' # ds)"
    by (simp add: strip_sign_def)
  have pf': "strip_prefix 16 (CHR ''0'' # CHR ''x'' # ds) = ds"
    using ds cf(4) by (simp add: strip_prefix_def)
  show "py_int_str (''0x'' @ ds) 16 = Some (int (spec_hex_value ds))"
    by (simp add: py_int_str_def sp' sg' pf' parse_digits_hex [OF assms])
qed

lemma jumper_first_call:
  assumes "rs_calls st = []"
    and "fst (jumper_get_quote P fc tc ft tt amt wa (rs_world st)) = Some q"
    and "jq_transactionRequest q = Some tr"
    and "jq_approvalData q = Some ad"
  shows "case jumper_approval_amount (ja_amount ad) of
           Raised \<Rightarrow> fst (jumper_execute_bridge P wa fc tc ft tt amt st) = None \<and>
                     rs_calls (snd (jumper_execute_bridge P wa fc tc ft tt amt st)) = []
         | Returned n \<Rightarrow>
             (\<exists>reply rest. rs_calls (snd (jumper_execute_bridge P wa fc tc ft tt amt st)) =
                Approve wa (jq_fromChainId q) (ja_tokenAddress ad) (ja_spenderAddress ad) n reply
                  # rest)"
proof -
  let ?f = "jumper_get_quote P fc tc ft tt amt wa"
  let ?st1 = "\<lparr>rs_world = snd (?f (rs_world st)), rs_calls = rs_calls st\<rparr>"
  obtain td where td: "jumper_prepare_transaction_data q = Some td"
    "td_chain_id td = jq_fromChainId q"
    using assms(3) by (simp add: jumper_prepare_transaction_data_def)
  show ?thesis
  proof (cases "jumper_approval_amount (ja_amount ad)")
    case Raised
    then show ?thesis
      using assms td
      by (simp add: jumper_execute_bridge_def jumper_execute_bridge_body_def call_world_log
          catch_all_def)
  next
    case (Returned n)
    let ?step = "approval_step P wa (jq_fromChainId q) (ja_tokenAddress ad)
                   (ja_spenderAddress ad) n ?st1"
    have body: "jumper_execute_bridge P wa fc tc ft tt amt st =
        catch_all (case ?step of
            (Raised, st2) \<Rightarrow> (Raised, st2)
          | (Returned False, st2) \<Rightarrow> (Returned None, st2)
          | (Returned True, st2) \<Rightarrow> jumper_submit P wa fc tc ft tt amt q td st2)"
      using assms td Returned
      by (simp add: jumper_execute_bridge_def jumper_execute_bridge_body_def call_world_log)
    have "\<exists>reply rest. rs_calls (snd (jumper_execute_bridge P wa fc tc ft tt amt st)) =
                Approve wa (jq_fromChainId q) (ja_tokenAddress ad) (ja_spenderAddress ad) n reply
                  # rest"
    proof (rule approval_step_cases [where P=P and a=wa and c="jq_fromChainId q"
              and t="ja_tokenAddress ad" and s="ja_spenderAddress ad" and n=n and st="?st1"])
      fix h w'
      assume "h \<noteq> []" and
        step: "?step = (Returned True, \<lparr>rs_world = w', rs_calls = rs_calls ?st1 @
                [Approve wa (jq_fromChainId q) (ja_tokenAddress ad) (ja_spenderAddress ad) n
                   (Returned (Some h)),
                 Wait (jq_fromChainId q) h 180 (Returned True)]\<rparr>)"
      let ?st2 = "\<lparr>rs_world = w', rs_calls = rs_calls ?st1 @
                [Approve wa (jq_fromChainId q) (ja_tokenAddress ad) (ja_spenderAddress ad) n
                   (Returned (Some h)),
                 Wait (jq_fromChainId q) h 180 (Returned True)]\<rparr>"
      from jumper_submit_log [of P wa fc tc ft tt amt q td ?st2] obtain cs where
        "rs_calls (snd (jumper_submit P wa fc tc ft tt amt q td ?st2)) = rs_calls ?st2 @ cs"
        by blast
      then show ?thesis
        using body step assms(1)
        by (cases "jumper_submit P wa fc tc ft tt amt q td ?st2")
           (auto simp: catch_all_def split: outcome.splits)
    next
      fix r reply w'
      assume "r \<noteq> Returned True" and
        "?step = (r, \<lparr>rs_world = w', rs_calls = rs_calls ?st1 @
                [Approve wa (jq_fromChainId q) (ja_tokenAddress ad) (ja_spenderAddress ad) n
                   reply]\<rparr>)"
      then show ?thesis
        using body assms(1) by (cases r) (auto simp: catch_all_def split: bool.splits)
    next
      fix r h reply w'
      assume "r \<noteq> Returned True" and
        "?step = (r, \<lparr>rs_world = w', rs_calls = rs_calls ?st1 @
                [Approve wa (jq_fromChainId q) (ja_tokenAddress ad) (ja_spenderAddress ad) n
                   (Returned (Some h)),
                 Wait (jq_fromChainId q) h 180 reply]\<rparr>)"
      then show ?thesis
        using body assms(1) by (cases r) (auto simp: catch_all_def split: bool.splits)
    qed
    with Returned show ?thesis by simp
  qed
qed

text \<open>
  Claim C10. For every Jumper quote that requires an approval and whose amount is a
  string \<open>s\<close> (of code points up to U+00FF): the amount is \<open>int(s, 16)\<close>; when that parse
  fails nothing is called and the run returns \<open>None\<close>, otherwise the first call of the run
  is the approve call with the parsed amount. For a non-empty string of hexadecimal digits,
  with or without the \<open>0x\<close> prefix, the parsed amount is the base-16 big-endian value of the
  digits; so \<open>"100"\<close> is approved as 256, not as its decimal value 100. Whitespace around
  the digits is ignored, also the non-breaking space U+00A0.
\<close>

theorem jumper_approval_amount_is_hexadecimal:
  assumes "rs_calls st = []"
    and "fst (jumper_get_quote P fc tc ft tt amt wa (rs_world st)) = Some q"
    and "jq_transactionRequest q = Some tr"
    and "jq_approvalData q = Some ad"
    and "ja_amount ad = Some (JStr s)"
  shows "(case py_int_str s 16 of
            None \<Rightarrow> fst (jumper_execute_bridge P wa fc tc ft tt amt st) = None \<and>
                    rs_calls (snd (jumper_execute_bridge P wa fc tc ft tt amt st)) = []
          | Some n \<Rightarrow>
              (\<exists>reply rest. rs_calls (snd (jumper_execute_bridge P wa fc tc ft tt amt st)) =
                 Approve wa (jq_fromChainId q) (ja_tokenAddress ad) (ja_spenderAddress ad) n reply
                   # rest))
       \<and> (ds \<noteq> [] \<and> list_all (\<lambda>c. digit_value c < 16) ds \<and> (s = ds \<or> s = ''0x'' @ ds) \<longrightarrow>
            py_int_str s 16 = Some (int (spec_hex_value ds)))
       \<and> py_int_str ''100'' 16 = Some 256 \<and> py_int_str ''100'' 10 = Some 100
       \<and> py_int_str [CHR ''1'', CHR 0xA0] 16 = Some 1"
proof (intro conjI)
  have a: "jumper_approval_amount (ja_amount ad) = int_result (py_int_str s 16)"
    using assms(5) by (simp add: jumper_approval_amount_def or_default_def)
  from jumper_first_call [OF assms(1-4)] a
  show "case py_int_str s 16 of
            None \<Rightarrow> fst (jumper_execute_bridge P wa fc tc ft tt amt st) = None \<and>
                    rs_calls (snd (jumper_execute_bridge P wa fc tc ft tt amt st)) = []
          | Some n \<Rightarrow>
              (\<exists>reply rest. rs_calls (snd (jumper_execute_bridge P wa fc tc ft tt amt st)) =
                 Approve wa (jq_fromChainId q) (ja_tokenAddress ad) (ja_spenderAddress ad) n reply
                   # rest)"
    by (cases "py_int_str s 16") (simp_all add: int_result_def)
next
  show "ds \<noteq> [] \<and> list_all (\<lambda>c. digit_value c < 16) ds \<and> (s = ds \<or> s = ''0x'' @ ds) \<longrightarrow>
            py_int_str s 16 = Some (int (spec_hex_value ds))"
    using py_int_str_hex_digits by blast
next
  show "py_int_str ''100'' 16 = Some 256" by (simp add: py_int_eval)
next
  show "py_int_str ''100'' 10 = Some 100" by (simp add: py_int_eval)
next
  show "py_int_str [CHR ''1'', CHR 0xA0] 16 = Some 1" by (simp add: py_int_eval)
qed


theorem jumper_approval_amount_is_hexadecimal_witness:
  "rs_calls example_state = []
   \<and> fst (jumper_get_quote example_ports ''X'' ''Y'' ''USDC'' ''USDC'' ''10.0'' ''0xw''
            (rs_world example_state)) = Some example_jumper_quote
   \<and> jq_transactionRequest example_jumper_quote = Some example_jumper_tx_request
   \<and> jq_approvalData example_jumper_quote = Some example_jumper_approval
   \<and> ja_amount example_jumper_approval = Some (JStr ''100'')
   \<and> py_int_str ''100'' 16 = Some 256
   \<and> int (spec_hex_value ''100'') = 256
   \<and> (\<exists>reply rest.
        rs_calls (snd (jumper_execute_bridge example_ports ''0xw'' ''X'' ''Y'' ''USDC'' ''USDC''
                         ''10.0'' example_state)) =
          Approve ''0xw'' (JStr ''1'') (JStr ''0xtoken'') (JStr ''0xspender'') 256 reply # rest)"
proof -
  have e: "rs_calls example_state = []" by (simp add: example_state_def)
  have q: "fst (jumper_get_quote example_ports ''X'' ''Y'' ''USDC'' ''USDC'' ''10.0'' ''0xw''
            (rs_world example_state)) = Some example_jumper_quote"
    by (simp add: example_ports_def)
  have t: "jq_transactionRequest example_jumper_quote = Some example_jumper_tx_request"
    and a: "jq_approvalData example_jumper_quote = Some example_jumper_approval"
    by (simp_all add: example_jumper_quote_def)
  have m: "ja_amount example_jumper_approval = Some (JStr ''100'')"
    by (simp add: example_jumper_approval_def)
  have v: "int (spec_hex_value ''100'') = 256" by (simp add: digit_value_def)
  note th = jumper_approval_amount_is_hexadecimal [OF e q t a m, of "''100''"]
  from th have p: "py_int_str ''100'' 16 = Some 256" by blast
  from th have c: "case py_int_str ''100'' 16 of
            None \<Rightarrow> fst (jumper_execute_bridge example_ports ''0xw'' ''X'' ''Y'' ''USDC'' ''USDC''
                         ''10.0'' example_state) = None \<and>
                    rs_calls (snd (jumper_execute_bridge example_ports ''0xw'' ''X'' ''Y'' ''USDC''
                         ''USDC'' ''10.0'' example_state)) = []
          | Some n \<Rightarrow>
              (\<exists>reply rest. rs_calls (snd (jumper_execute_bridge example_ports ''0xw'' ''X'' ''Y''
                         ''USDC'' ''USDC'' ''10.0'' example_state)) =
                 Approve ''0xw'' (jq_fromChainId example_jumper_quote)
                   (ja_tokenAddress example_jumper_approval)
                   (ja_spenderAddress example_jumper_approval) n reply # rest)"
    by blast
  from c p have "\<exists>reply rest.
        rs_calls (snd (jumper_execute_bridge example_ports ''0xw'' ''X'' ''Y'' ''USDC'' ''USDC''
                         ''10.0'' example_state)) =
          Approve ''0xw'' (JStr ''1'') (JStr ''0xtoken'') (JStr ''0xspender'') 256 reply # rest"
    by (simp add: example_jumper_quote_def example_jumper_approval_def)
  with e q t a m p v show ?thesis by blast
qed

section \<open>Properties of the aggregator\<close>

lemma catch_all_some:
  "fst (catch_all r) = Some d \<Longrightarrow> fst r = Returned (Some d)"
  by (cases r) (auto simp: catch_all_def split: outcome.splits)

lemma jumper_result_nonempty:
  assumes "fst (jumper_execute_bridge P wa fc tc ft tt amt st) = Some d"
  shows "d \<noteq> []"
proof -
  from assms have b: "fst (jumper_execute_bridge_body P wa fc tc ft tt amt st) = Returned (Some d)"
    unfolding jumper_execute_bridge_def by (rule catch_all_some)
  then obtain q td st2 where "fst (jumper_submit P wa fc tc ft tt amt q td st2) = Returned (Some d)"
    by (auto simp: jumper_execute_bridge_body_def
        split: prod.splits option.splits outcome.splits bool.splits)
  with jumper_submit_log [of P wa fc tc ft tt amt q td st2] show ?thesis by blast
qed

lemma relay_result_nonempty:
  assumes "fst (relay_execute_bridge P wa fc tc ft tt amt st) = Some d"
  shows "d \<noteq> []"
proof -
  from assms have b: "fst (relay_execute_bridge_body P wa fc tc ft tt amt st) = Returned (Some d)"
    unfolding relay_execute_bridge_def by (rule catch_all_some)
  then obtain td st2 where "fst (relay_submit P wa fc tc ft tt amt td st2) = Returned (Some d)"
    by (auto simp: relay_execute_bridge_body_def
        split: prod.splits option.splits outcome.splits bool.splits)
  with relay_submit_log [of P wa fc tc ft tt amt td st2] show ?thesis by blast
qed

lemma stargate_result_nonempty:
  assumes "fst (stargate_execute_bridge P wa fc tc tok amt addr st) = Some d"
  shows "d \<noteq> []"
proof -
  from assms have b: "fst (stargate_execute_bridge_body P wa fc tc tok amt addr st) = Returned (Some d)"
    unfolding stargate_execute_bridge_def by (rule catch_all_some)
  then obtain aw mw st2 where "fst (stargate_submit P wa fc tc tok amt aw mw st2) = Returned (Some d)"
    by (auto simp: stargate_execute_bridge_body_def
        split: prod.splits option.splits outcome.splits bool.splits if_splits)
  with stargate_submit_log [of P wa fc tc tok amt aw mw st2] show ?thesis by blast
qed

lemma dispatch_bridge_some:
  assumes "dispatch_bridge P name wa t st = Returned (Some d, st2)"
  shows "d \<noteq> []" and "name \<in> {''jumper'', ''stargate'', ''relay''}"
proof -
  obtain fc tc tok addr amt where t: "t = (fc, tc, tok, addr, amt)" by (cases t)
  from assms t show "name \<in> {''jumper'', ''stargate'', ''relay''}"
    by (auto simp: dispatch_bridge_def split: if_splits)
  from assms t show "d \<noteq> []"
    using jumper_result_nonempty [of P wa fc tc tok tok "str_of_amount P amt" st d]
      stargate_result_nonempty [of P wa fc tc tok "str_of_amount P amt" addr st d]
      relay_result_nonempty [of P wa fc tc "jval_of addr" "jval_of addr" "str_of_amount P amt" st d]
    by (auto simp: dispatch_bridge_def split: if_splits)
qed

lemma map_of_dict_set: "map_of (dict_set d k v) k = Some v"
proof (cases "dict_has d k")
  case False
  then have "map_of d k = None" by (simp add: dict_has_def)
  with False show ?thesis by (simp add: dict_set_def map_add_def)
next
  case True
  have "map_of d k \<noteq> None \<Longrightarrow>
        map_of (map (\<lambda>(k', v'). if k' = k then (k', v) else (k', v')) d) k = Some v"
    by (induction d) (auto split: if_splits)
  with True show ?thesis by (simp add: dict_set_def dict_has_def)
qed


lemma execute_random_bridge_cases:
  fixes P wa a
  obtains
    (failed) a' where "execute_random_bridge P wa a = (None, a')"
      and "transaction_history a' = transaction_history a"
  | (bridged) b st1 fc tc tok addr amt g1 name g2 d st2 where
      "call_world (update_balances P wa) (run_state a) = (Returned b, st1)" and "b \<noteq> []"
      and "select_random_transaction wa (map fst b) (available_tokens_of b) (random_state a) =
             (Returned (Some (fc, tc, tok, addr, amt)), g1)"
      and "select_random_service fc tc tok g1 = (Some name, g2)"
      and "dispatch_bridge P name wa (fc, tc, tok, addr, amt) st1 = Returned (Some d, st2)"
      and "execute_random_bridge P wa a =
             (Some d, a\<lparr>transaction_history := transaction_history a @
                           [dict_set d ''service'' (JStr name)],
                        random_state := g2, run_state := st2\<rparr>)"
proof -
  obtain r0 st1 where ub: "call_world (update_balances P wa) (run_state a) = (r0, st1)"
    by (cases "call_world (update_balances P wa) (run_state a)")
  show ?thesis
  proof (cases "\<exists>b. r0 = Returned b \<and> b \<noteq> []")
    case False
    then have "execute_random_bridge P wa a = (None, a\<lparr>run_state := st1\<rparr>)"
      using ub
      by (cases r0) (auto simp: execute_random_bridge_def execute_random_bridge_body_def)
    then show ?thesis using failed by simp
  next
    case True
    then obtain b where b: "r0 = Returned b" "b \<noteq> []" by blast
    obtain r1 g1 where sel: "select_random_transaction wa (map fst b) (available_tokens_of b)
                               (random_state a) = (r1, g1)"
      by (cases "select_random_transaction wa (map fst b) (available_tokens_of b) (random_state a)")
    show ?thesis
    proof (cases "\<exists>t. r1 = Returned (Some t)")
      case False
      then have "execute_random_bridge P wa a = (None, a\<lparr>random_state := g1, run_state := st1\<rparr>)"
        using ub b sel
        by (cases r1)
           (auto simp: execute_random_bridge_def execute_random_bridge_body_def
              split: option.splits)
      then show ?thesis using failed by simp
    next
      case True
      then obtain fc tc tok addr amt where t: "r1 = Returned (Some (fc, tc, tok, addr, amt))"
        by (metis prod_cases5)
      obtain r2 g2 where svc: "select_random_service fc tc tok g1 = (r2, g2)"
        by (cases "select_random_service fc tc tok g1")
      show ?thesis
      proof (cases r2)
        case None
        then have "execute_random_bridge P wa a =
                     (None, a\<lparr>random_state := g2, run_state := st1\<rparr>)"
          using ub b sel t svc
          by (simp add: execute_random_bridge_def execute_random_bridge_body_def)
        then show ?thesis using failed by simp
      next
        case (Some name)
        show ?thesis
        proof (cases "\<exists>d st2. dispatch_bridge P name wa (fc, tc, tok, addr, amt) st1
                               = Returned (Some d, st2)")
          case False
          then have "\<exists>a'. execute_random_bridge P wa a = (None, a') \<and>
                         transaction_history a' = transaction_history a"
            using ub b sel t svc Some
            by (cases "dispatch_bridge P name wa (fc, tc, tok, addr, amt) st1")
               (auto simp: execute_random_bridge_def execute_random_bridge_body_def
                  split: option.splits)
          then show ?thesis using failed by blast
        next
          case True
          then obtain d st2 where
            dis: "dispatch_bridge P name wa (fc, tc, tok, addr, amt) st1 = Returned (Some d, st2)"
            by blast
          then have "d \<noteq> []" by (rule dispatch_bridge_some)
          then have "execute_random_bridge P wa a =
             (Some d, a\<lparr>transaction_history := transaction_history a @
                           [dict_set d ''service'' (JStr name)],
                        random_state := g2, run_state := st2\<rparr>)"
            using ub b sel t svc Some dis
            by (simp add: execute_random_bridge_def execute_random_bridge_body_def)
          with ub b sel t svc Some dis show ?thesis using bridged by blast
        qed
      qed
    qed
  qed
qed


lemma execute_random_bridge_success:
  assumes "call_world (update_balances P wa) (run_state a) = (Returned b, st1)" and "b \<noteq> []"
    and "select_random_transaction wa (map fst b) (available_tokens_of b) (random_state a) =
           (Returned (Some (fc, tc, tok, addr, amt)), g1)"
    and "select_random_service fc tc tok g1 = (Some name, g2)"
    and "dispatch_bridge P name wa (fc, tc, tok, addr, amt) st1 = Returned (Some d, st2)"
  shows "execute_random_bridge P wa a =
           (Some d, a\<lparr>transaction_history := transaction_history a @
                         [dict_set d ''service'' (JStr name)],
                      random_state := g2, run_state := st2\<rparr>)"
proof -
  have "d \<noteq> []" using assms(5) by (rule dispatch_bridge_some)
  then show ?thesis
    using assms by (simp add: execute_random_bridge_def execute_random_bridge_body_def)
qed

lemma execute_random_bridge_provider_none:
  assumes "call_world (update_balances P wa) (run_state a) = (Returned b, st1)" and "b \<noteq> []"
    and "select_random_transaction wa (map fst b) (available_tokens_of b) (random_state a) =
           (Returned (Some (fc, tc, tok, addr, amt)), g1)"
    and "select_random_service fc tc tok g1 = (Some name, g2)"
    and "dispatch_bridge P name wa (fc, tc, tok, addr, amt) st1 = Returned (None, st2)"
  shows "execute_random_bridge P wa a = (None, a\<lparr>random_state := g2, run_state := st2\<rparr>)"
  using assms by (simp add: execute_random_bridge_def execute_random_bridge_body_def)

lemma execute_random_bridge_outcomes:
  "(fst (execute_random_bridge P wa a) = None \<longrightarrow>
      transaction_history (snd (execute_random_bridge P wa a)) = transaction_history a)
   \<and> (\<forall>d. fst (execute_random_bridge P wa a) = Some d \<longrightarrow>
        (\<exists>b st1 fc tc tok addr amt g1 name g2 st2.
           call_world (update_balances P wa) (run_state a) = (Returned b, st1) \<and> b \<noteq> [] \<and>
           select_random_transaction wa (map fst b) (available_tokens_of b) (random_state a) =
             (Returned (Some (fc, tc, tok, addr, amt)), g1) \<and>
           select_random_service fc tc tok g1 = (Some name, g2) \<and>
           dispatch_bridge P name wa (fc, tc, tok, addr, amt) st1 = Returned (Some d, st2) \<and>
           transaction_history (snd (execute_random_bridge P wa a)) =
             transaction_history a @ [dict_set d ''service'' (JStr name)] \<and>
           map_of (dict_set d ''service'' (JStr name)) ''service'' = Some (JStr name)))
   \<and> (fst (update_balances P wa (rs_world (run_state a))) = Raised \<or>
       fst (update_balances P wa (rs_world (run_state a))) = Returned [] \<longrightarrow>
         fst (execute_random_bridge P wa a) = None)
   \<and> (\<forall>b. fst (update_balances P wa (rs_world (run_state a))) = Returned b \<and>
          fst (select_random_transaction wa (map fst b) (available_tokens_of b) (random_state a))
            = Returned None \<longrightarrow>
         fst (execute_random_bridge P wa a) = None)
   \<and> take (length (transaction_history a))
        (transaction_history (snd (execute_random_bridge P wa a))) = transaction_history a
   \<and> length (transaction_history (snd (execute_random_bridge P wa a)))
        \<le> Suc (length (transaction_history a))"
proof (cases rule: execute_random_bridge_cases [where P=P and wa=wa and a=a])
  case (failed a')
  then show ?thesis by simp
next
  case (bridged b st1 fc tc tok addr amt g1 name g2 d st2)
  have ub: "fst (update_balances P wa (rs_world (run_state a))) = Returned b"
    using bridged(1) by (simp add: call_world_log)
  have m: "map_of (dict_set d ''service'' (JStr name)) ''service'' = Some (JStr name)"
    by (rule map_of_dict_set)
  have h: "transaction_history (snd (execute_random_bridge P wa a)) =
             transaction_history a @ [dict_set d ''service'' (JStr name)]"
    using bridged(6) by simp
  have r: "fst (execute_random_bridge P wa a) = Some d" using bridged(6) by simp
  have ex: "\<exists>b st1 fc tc tok addr amt g1 name g2 st2.
           call_world (update_balances P wa) (run_state a) = (Returned b, st1) \<and> b \<noteq> [] \<and>
           select_random_transaction wa (map fst b) (available_tokens_of b) (random_state a) =
             (Returned (Some (fc, tc, tok, addr, amt)), g1) \<and>
           select_random_service fc tc tok g1 = (Some name, g2) \<and>
           dispatch_bridge P name wa (fc, tc, tok, addr, amt) st1 = Returned (Some d, st2) \<and>
           transaction_history (snd (execute_random_bridge P wa a)) =
             transaction_history a @ [dict_set d ''service'' (JStr name)] \<and>
           map_of (dict_set d ''service'' (JStr name)) ''service'' = Some (JStr name)"
    using bridged(1-5) h m by blast
  have sel: "fst (select_random_transaction wa (map fst b) (available_tokens_of b)
                    (random_state a)) \<noteq> Returned None"
    using bridged(3) by simp
  show ?thesis
    using r ex ub bridged(2) sel h by auto
qed

lemma example_balances_call:
  "call_world (update_balances example_ports ''0xw'') example_state =
     (Returned [(''X'', [(''USDC'', 100)]), (''Y'', [(''ETH'', 1)])],
      \<lparr>rs_world = 1, rs_calls = []\<rparr>)"
  by (simp add: call_world_def example_ports_def example_state_def)

lemma example_available_tokens:
  "available_tokens_of [(''X'', [(''USDC'', 100)]), (''Y'', [(''ETH'', 1)])] = example_tokens"
  by (simp add: available_tokens_of_def example_tokens_def)


lemma example_selection:
  "fst (select_random_transaction ''0xw'' [''X'', ''Y''] example_tokens
          (rng_of_list [0, 0, 0, 0, 3])) =
     Returned (Some (''X'', ''Y'', ''USDC'', Some ''0x...'', Finite 10))"
  by (simp add: selection_eval example_tokens_def)

lemma example_selection_next:
  "snd (select_random_transaction ''0xw'' [''X'', ''Y''] example_tokens
          (rng_of_list [0, 0, 0, 0, 3])) 0 = 3"
  by (simp add: selection_eval example_tokens_def)

lemma example_service_relay:
  "g 0 = 3 \<Longrightarrow> fst (select_random_service ''X'' ''Y'' ''USDC'' g) = Some ''relay''"
  by (simp add: select_random_service_def supported_services_def stargate_condition_def
      dict_has_def STARGATE_CHAINS_def random_choice_def rng_next_def
      numeral_2_eq_2 [symmetric])

lemma example_relay_run:
  "relay_execute_bridge example_ports ''0xw'' ''X'' ''Y'' (JStr ''0x...'') (JStr ''0x...'')
     ''10.0'' \<lparr>rs_world = Suc 0, rs_calls = []\<rparr> =
   (Some [(''tx_hash'', JStr ''0xb2''), (''bridge_type'', JStr ''relay''),
          (''request_id'', JStr ''req-1''), (''from_chain_id'', JStr ''X''),
          (''to_chain_id'', JStr ''Y''), (''from_token'', JStr ''0x...''),
          (''to_token'', JStr ''0x...''), (''amount'', JStr ''10.0''),
          (''status'', JStr ''pending''), (''timestamp'', JStr ''2026-01-01T00:00:00'')],
    \<lparr>rs_world = 5, rs_calls =
      [Send ''0xw'' (JStr ''8453'') (JStr ''0x5678'') 0 (JStr ''0xef'') (Returned (Some ''0xb2'')),
       Notify (JStr ''req-1'') ''0xb2'' False,
       Wait (JStr ''8453'') ''0xb2'' 300 (Returned True)]\<rparr>)"
  by (simp add: adapter_eval py_int_eval)

lemma example_dispatch_relay:
  "dispatch_bridge example_ports ''relay'' ''0xw'' (''X'', ''Y'', ''USDC'', Some ''0x...'', Finite 10) st =
     Returned (relay_execute_bridge example_ports ''0xw'' ''X'' ''Y'' (JStr ''0x...'')
                 (JStr ''0x...'') ''10.0'' st)"
  by (simp add: dispatch_bridge_def jval_of_def example_ports_def)


lemma example_selection_zero:
  "fst (select_random_transaction ''0xw'' [''X'', ''Y''] example_tokens (rng_of_list [])) =
     Returned (Some (''X'', ''Y'', ''USDC'', Some ''0x...'', Finite 10))"
  by (simp add: selection_eval example_tokens_def)

lemma example_selection_zero_next:
  "snd (select_random_transaction ''0xw'' [''X'', ''Y''] example_tokens (rng_of_list [])) 0 = 0"
  by (simp add: selection_eval example_tokens_def)

lemma example_service_jumper:
  "g 0 = 0 \<Longrightarrow> fst (select_random_service ''X'' ''Y'' ''USDC'' g) = Some ''jumper''"
  by (simp add: select_random_service_def supported_services_def stargate_condition_def
      dict_has_def STARGATE_CHAINS_def random_choice_def rng_next_def)

lemma example_jumper_run:
  "fst (jumper_execute_bridge example_ports ''0xw'' ''X'' ''Y'' ''USDC'' ''USDC'' ''10.0''
     \<lparr>rs_world = Suc 0, rs_calls = []\<rparr>) = None"
  by (simp add: adapter_eval py_int_eval)

lemma example_dispatch_jumper:
  "dispatch_bridge example_ports ''jumper'' ''0xw'' (''X'', ''Y'', ''USDC'', Some ''0x...'', Finite 10) st =
     Returned (jumper_execute_bridge example_ports ''0xw'' ''X'' ''Y'' ''USDC'' ''USDC'' ''10.0'' st)"
  by (simp add: dispatch_bridge_def example_ports_def)

text \<open>
  Claim C2. For every call of \<open>execute_random_bridge\<close>: it returns \<open>None\<close> and leaves the
  history unchanged whenever the balances cannot be retrieved (the call raises or returns
  nothing), no transfer is selected, or the chosen provider's adapter returns no result;
  whenever the adapter returns a result, the call returns that result and the history
  becomes the old history followed by exactly one record, the result tagged with the chosen
  service name. Conversely a returned result always comes from such a run, and a \<open>None\<close>
  result always leaves the history unchanged. In every case the old history is a prefix of
  the new one, which is at most one record longer.
\<close>

theorem execute_random_bridge_history:
  "(fst (execute_random_bridge P wa a) = None \<longrightarrow>
      transaction_history (snd (execute_random_bridge P wa a)) = transaction_history a)
   \<and> (fst (update_balances P wa (rs_world (run_state a))) = Raised \<or>
       fst (update_balances P wa (rs_world (run_state a))) = Returned [] \<longrightarrow>
         fst (execute_random_bridge P wa a) = None)
   \<and> (\<forall>b. fst (update_balances P wa (rs_world (run_state a))) = Returned b \<and>
          fst (select_random_transaction wa (map fst b) (available_tokens_of b) (random_state a))
            = Returned None \<longrightarrow>
         fst (execute_random_bridge P wa a) = None)
   \<and> (\<forall>b st1 fc tc tok addr amt g1 name g2 st2.
        call_world (update_balances P wa) (run_state a) = (Returned b, st1) \<and> b \<noteq> [] \<and>
        select_random_transaction wa (map fst b) (available_tokens_of b) (random_state a) =
          (Returned (Some (fc, tc, tok, addr, amt)), g1) \<and>
        select_random_service fc tc tok g1 = (Some name, g2) \<and>
        dispatch_bridge P name wa (fc, tc, tok, addr, amt) st1 = Returned (None, st2) \<longrightarrow>
          execute_random_bridge P wa a = (None, a\<lparr>random_state := g2, run_state := st2\<rparr>))
   \<and> (\<forall>b st1 fc tc tok addr amt g1 name g2 d st2.
        call_world (update_balances P wa) (run_state a) = (Returned b, st1) \<and> b \<noteq> [] \<and>
        select_random_transaction wa (map fst b) (available_tokens_of b) (random_state a) =
          (Returned (Some (fc, tc, tok, addr, amt)), g1) \<and>
        select_random_service fc tc tok g1 = (Some name, g2) \<and>
        dispatch_bridge P name wa (fc, tc, tok, addr, amt) st1 = Returned (Some d, st2) \<longrightarrow>
          execute_random_bridge P wa a =
            (Some d, a\<lparr>transaction_history := transaction_history a @
                          [dict_set d ''service'' (JStr name)],
                       random_state := g2, run_state := st2\<rparr>) \<and>
          map_of (dict_set d ''service'' (JStr name)) ''service'' = Some (JStr name))
   \<and> (\<forall>d. fst (execute_random_bridge P wa a) = Some d \<longrightarrow>
        (\<exists>b st1 fc tc tok addr amt g1 name g2 st2.
           call_world (update_balances P wa) (run_state a) = (Returned b, st1) \<and> b \<noteq> [] \<and>
           select_random_transaction wa (map fst b) (available_tokens_of b) (random_state a) =
             (Returned (Some (fc, tc, tok, addr, amt)), g1) \<and>
           select_random_service fc tc tok g1 = (Some name, g2) \<and>
           dispatch_bridge P name wa (fc, tc, tok, addr, amt) st1 = Returned (Some d, st2) \<and>
           transaction_history (snd (execute_random_bridge P wa a)) =
             transaction_history a @ [dict_set d ''service'' (JStr name)]))
   \<and> take (length (transaction_history a))
        (transaction_history (snd (execute_random_bridge P wa a))) = transaction_history a
   \<and> length (transaction_history (snd (execute_random_bridge P wa a)))
        \<le> Suc (length (transaction_history a))"
proof (intro conjI allI impI)
  note o = execute_random_bridge_outcomes [of P wa a]
  show "transaction_history (snd (execute_random_bridge P wa a)) = transaction_history a"
    if "fst (execute_random_bridge P wa a) = None"
    using o that by blast
  show "fst (execute_random_bridge P wa a) = None"
    if "fst (update_balances P wa (rs_world (run_state a))) = Raised \<or>
        fst (update_balances P wa (rs_world (run_state a))) = Returned []"
    using o that by blast
  show "fst (execute_random_bridge P wa a) = None"
    if "fst (update_balances P wa (rs_world (run_state a))) = Returned b \<and>
          fst (select_random_transaction wa (map fst b) (available_tokens_of b) (random_state a))
            = Returned None" for b
    using o that by blast
  show "execute_random_bridge P wa a = (None, a\<lparr>random_state := g2, run_state := st2\<rparr>)"
    if "call_world (update_balances P wa) (run_state a) = (Returned b, st1) \<and> b \<noteq> [] \<and>
        select_random_transaction wa (map fst b) (available_tokens_of b) (random_state a) =
          (Returned (Some (fc, tc, tok, addr, amt)), g1) \<and>
        select_random_service fc tc tok g1 = (Some name, g2) \<and>
        dispatch_bridge P name wa (fc, tc, tok, addr, amt) st1 = Returned (None, st2)"
    for b st1 fc tc tok addr amt g1 name g2 st2
    using that execute_random_bridge_provider_none [of P wa a b st1 fc tc tok addr amt g1 name g2 st2]
    by blast
  show "execute_random_bridge P wa a =
            (Some d, a\<lparr>transaction_history := transaction_history a @
                          [dict_set d ''service'' (JStr name)],
                       random_state := g2, run_state := st2\<rparr>)"
    if "call_world (update_balances P wa) (run_state a) = (Returned b, st1) \<and> b \<noteq> [] \<and>
        select_random_transaction wa (map fst b) (available_tokens_of b) (random_state a) =
          (Returned (Some (fc, tc, tok, addr, amt)), g1) \<and>
        select_random_service fc tc tok g1 = (Some name, g2) \<and>
        dispatch_bridge P name wa (fc, tc, tok, addr, amt) st1 = Returned (Some d, st2)"
    for b st1 fc tc tok addr amt g1 name g2 d st2
    using that execute_random_bridge_success [of P wa a b st1 fc tc tok addr amt g1 name g2 d st2]
    by blast
  show "map_of (dict_set d ''service'' (JStr name)) ''service'' = Some (JStr name)" for d name
    by (rule map_of_dict_set)
  show "\<exists>b st1 fc tc tok addr amt g1 name g2 st2.
           call_world (update_balances P wa) (run_state a) = (Returned b, st1) \<and> b \<noteq> [] \<and>
           select_random_transaction wa (map fst b) (available_tokens_of b) (random_state a) =
             (Returned (Some (fc, tc, tok, addr, amt)), g1) \<and>
           select_random_service fc tc tok g1 = (Some name, g2) \<and>
           dispatch_bridge P name wa (fc, tc, tok, addr, amt) st1 = Returned (Some d, st2) \<and>
           transaction_history (snd (execute_random_bridge P wa a)) =
             transaction_history a @ [dict_set d ''service'' (JStr name)]"
    if "fst (execute_random_bridge P wa a) = Some d" for d
    using o that by blast
  show "take (length (transaction_history a))
        (transaction_history (snd (execute_random_bridge P wa a))) = transaction_history a"
    using o by blast
  show "length (transaction_history (snd (execute_random_bridge P wa a)))
        \<le> Suc (length (transaction_history a))"
    using o by blast
qed



theorem execute_random_bridge_history_witness:
  "fst (update_balances example_ports ''0xw'' (rs_world (run_state (example_aggregator [0, 0, 0, 0, 3]))))
        = Returned [(''X'', [(''USDC'', 100)]), (''Y'', [(''ETH'', 1)])]
   \<and> fst (select_random_transaction ''0xw'' [''X'', ''Y''] example_tokens
            (rng_of_list [0, 0, 0, 0, 3])) =
        Returned (Some (''X'', ''Y'', ''USDC'', Some ''0x...'', Finite 10))
   \<and> fst (select_random_service ''X'' ''Y'' ''USDC''
            (snd (select_random_transaction ''0xw'' [''X'', ''Y''] example_tokens
                    (rng_of_list [0, 0, 0, 0, 3])))) = Some ''relay''
   \<and> (\<exists>st2. dispatch_bridge example_ports ''relay'' ''0xw''
               (''X'', ''Y'', ''USDC'', Some ''0x...'', Finite 10) \<lparr>rs_world = 1, rs_calls = []\<rparr> =
             Returned (Some [(''tx_hash'', JStr ''0xb2''), (''bridge_type'', JStr ''relay''),
                (''request_id'', JStr ''req-1''), (''from_chain_id'', JStr ''X''),
                (''to_chain_id'', JStr ''Y''), (''from_token'', JStr ''0x...''),
                (''to_token'', JStr ''0x...''), (''amount'', JStr ''10.0''),
                (''status'', JStr ''pending''), (''timestamp'', JStr ''2026-01-01T00:00:00'')], st2))
   \<and> fst (execute_random_bridge example_ports ''0xw'' (example_aggregator [0, 0, 0, 0, 3])) =
        Some [(''tx_hash'', JStr ''0xb2''), (''bridge_type'', JStr ''relay''),
              (''request_id'', JStr ''req-1''), (''from_chain_id'', JStr ''X''),
              (''to_chain_id'', JStr ''Y''), (''from_token'', JStr ''0x...''),
              (''to_token'', JStr ''0x...''), (''amount'', JStr ''10.0''),
              (''status'', JStr ''pending''), (''timestamp'', JStr ''2026-01-01T00:00:00'')]
   \<and> transaction_history
        (snd (execute_random_bridge example_ports ''0xw'' (example_aggregator [0, 0, 0, 0, 3]))) =
        [[(''tx_hash'', JStr ''0x0ld''), (''service'', JStr ''jumper'')],
         [(''tx_hash'', JStr ''0xb2''), (''bridge_type'', JStr ''relay''),
          (''request_id'', JStr ''req-1''), (''from_chain_id'', JStr ''X''),
          (''to_chain_id'', JStr ''Y''), (''from_token'', JStr ''0x...''),
          (''to_token'', JStr ''0x...''), (''amount'', JStr ''10.0''),
          (''status'', JStr ''pending''), (''timestamp'', JStr ''2026-01-01T00:00:00''),
          (''service'', JStr ''relay'')]]
   \<and> take (length (transaction_history (example_aggregator [0, 0, 0, 0, 3])))
        (transaction_history
          (snd (execute_random_bridge example_ports ''0xw'' (example_aggregator [0, 0, 0, 0, 3]))))
        = transaction_history (example_aggregator [0, 0, 0, 0, 3])
   \<and> fst (select_random_service ''X'' ''Y'' ''USDC''
            (snd (select_random_transaction ''0xw'' [''X'', ''Y''] example_tokens
                    (rng_of_list [])))) = Some ''jumper''
   \<and> (\<exists>st2. dispatch_bridge example_ports ''jumper'' ''0xw''
               (''X'', ''Y'', ''USDC'', Some ''0x...'', Finite 10) \<lparr>rs_world = 1, rs_calls = []\<rparr> =
             Returned (None, st2))
   \<and> fst (execute_random_bridge example_ports ''0xw'' (example_aggregator [])) = None
   \<and> transaction_history (snd (execute_random_bridge example_ports ''0xw'' (example_aggregator [])))
        = transaction_history (example_aggregator [])
   \<and> (\<exists>name. transaction_history
        (snd (execute_random_bridge example_ports ''0xw'' (example_aggregator [0, 0, 0, 0, 3]))) =
        transaction_history (example_aggregator [0, 0, 0, 0, 3]) @
          [dict_set [(''tx_hash'', JStr ''0xb2''), (''bridge_type'', JStr ''relay''),
              (''request_id'', JStr ''req-1''), (''from_chain_id'', JStr ''X''),
              (''to_chain_id'', JStr ''Y''), (''from_token'', JStr ''0x...''),
              (''to_token'', JStr ''0x...''), (''amount'', JStr ''10.0''),
              (''status'', JStr ''pending''), (''timestamp'', JStr ''2026-01-01T00:00:00'')]
             ''service'' (JStr name)])
   \<and> fst (update_balances (example_ports\<lparr>update_balances := (\<lambda>address w. (Raised, w))\<rparr>) ''0xw''
            (rs_world (run_state (example_aggregator [])))) = Raised
   \<and> fst (execute_random_bridge (example_ports\<lparr>update_balances := (\<lambda>address w. (Raised, w))\<rparr>)
            ''0xw'' (example_aggregator [])) = None
   \<and> fst (select_random_transaction ''0xw'' (map fst [(''X'', [(''USDC'', 0 :: real)])])
            (available_tokens_of [(''X'', [(''USDC'', 0)])])
            (random_state (example_aggregator []))) = Returned None
   \<and> fst (execute_random_bridge
            (example_ports\<lparr>update_balances :=
               (\<lambda>address w. (Returned [(''X'', [(''USDC'', 0)])], w))\<rparr>)
            ''0xw'' (example_aggregator [])) = None"
proof -
  let ?b = "[(''X'', [(''USDC'', 100)]), (''Y'', [(''ETH'', 1)])] :: (string \<times> (string \<times> real) list) list"
  let ?st1 = "\<lparr>rs_world = Suc 0, rs_calls = []\<rparr> :: nat run_state"
  let ?t = "(''X'', ''Y'', ''USDC'', Some ''0x...'', Finite 10) :: transfer"
  let ?d = "[(''tx_hash'', JStr ''0xb2''), (''bridge_type'', JStr ''relay''),
              (''request_id'', JStr ''req-1''), (''from_chain_id'', JStr ''X''),
              (''to_chain_id'', JStr ''Y''), (''from_token'', JStr ''0x...''),
              (''to_token'', JStr ''0x...''), (''amount'', JStr ''10.0''),
              (''status'', JStr ''pending''), (''timestamp'', JStr ''2026-01-01T00:00:00'')]"
  have ub: "call_world (update_balances example_ports ''0xw'') (run_state (example_aggregator ds)) =
              (Returned ?b, ?st1)" for ds
    using example_balances_call by (simp add: example_aggregator_def)
  have ub': "fst (update_balances example_ports ''0xw''
                    (rs_world (run_state (example_aggregator [0, 0, 0, 0, 3])))) = Returned ?b"
    by (simp add: example_ports_def)
  have ne: "?b \<noteq> []" by simp
  have tb: "map fst ?b = [''X'', ''Y'']" "available_tokens_of ?b = example_tokens"
    using example_available_tokens by simp_all
  have rs: "random_state (example_aggregator ds) = rng_of_list ds" for ds
    by (simp add: example_aggregator_def)
  obtain h1 where t1: "select_random_transaction ''0xw'' [''X'', ''Y''] example_tokens
        (rng_of_list [0, 0, 0, 0, 3]) = (Returned (Some ?t), h1)"
    and h1: "h1 0 = 3"
    using example_selection example_selection_next by (metis prod.collapse)
  obtain h2 where t2: "select_random_service ''X'' ''Y'' ''USDC'' h1 = (Some ''relay'', h2)"
    using example_service_relay [of h1] h1 by (metis prod.collapse)
  obtain st2 where dr: "dispatch_bridge example_ports ''relay'' ''0xw'' ?t ?st1 =
      Returned (Some ?d, st2)"
    using example_dispatch_relay [of ?st1] example_relay_run by simp
  have sel1: "select_random_transaction ''0xw'' (map fst ?b) (available_tokens_of ?b)
                (random_state (example_aggregator [0, 0, 0, 0, 3])) = (Returned (Some ?t), h1)"
    unfolding tb rs by (rule t1)
  note u2 = execute_random_bridge_history
              [of example_ports "''0xw''" "example_aggregator [0, 0, 0, 0, 3]"]
  note success = u2 [THEN conjunct2, THEN conjunct2, THEN conjunct2, THEN conjunct2,
                      THEN conjunct1, rule_format, THEN conjunct1]
  have run: "execute_random_bridge example_ports ''0xw'' (example_aggregator [0, 0, 0, 0, 3]) =
      (Some ?d, (example_aggregator [0, 0, 0, 0, 3])
         \<lparr>transaction_history := transaction_history (example_aggregator [0, 0, 0, 0, 3]) @
             [dict_set ?d ''service'' (JStr ''relay'')],
          random_state := h2, run_state := st2\<rparr>)"
    by (rule success, intro conjI, rule ub, rule ne, rule sel1, rule t2, rule dr)
  have s: "fst (execute_random_bridge example_ports ''0xw'' (example_aggregator [0, 0, 0, 0, 3])) =
      Some ?d"
    unfolding run by simp
  have h: "transaction_history
        (snd (execute_random_bridge example_ports ''0xw'' (example_aggregator [0, 0, 0, 0, 3]))) =
        [[(''tx_hash'', JStr ''0x0ld''), (''service'', JStr ''jumper'')],
         [(''tx_hash'', JStr ''0xb2''), (''bridge_type'', JStr ''relay''),
          (''request_id'', JStr ''req-1''), (''from_chain_id'', JStr ''X''),
          (''to_chain_id'', JStr ''Y''), (''from_token'', JStr ''0x...''),
          (''to_token'', JStr ''0x...''), (''amount'', JStr ''10.0''),
          (''status'', JStr ''pending''), (''timestamp'', JStr ''2026-01-01T00:00:00''),
          (''service'', JStr ''relay'')]]"
    unfolding run by (simp add: example_aggregator_def dict_set_def dict_has_def)
  from u2 have pre: "take (length (transaction_history (example_aggregator [0, 0, 0, 0, 3])))
        (transaction_history
          (snd (execute_random_bridge example_ports ''0xw'' (example_aggregator [0, 0, 0, 0, 3]))))
        = transaction_history (example_aggregator [0, 0, 0, 0, 3])"
    by blast
  obtain g1 where s1: "select_random_transaction ''0xw'' [''X'', ''Y''] example_tokens
        (rng_of_list []) = (Returned (Some ?t), g1)"
    and g1: "g1 0 = 0"
    using example_selection_zero example_selection_zero_next by (metis prod.collapse)
  obtain g2 where s2: "select_random_service ''X'' ''Y'' ''USDC'' g1 = (Some ''jumper'', g2)"
    using example_service_jumper [of g1] g1 by (metis prod.collapse)
  obtain st3 where j: "jumper_execute_bridge example_ports ''0xw'' ''X'' ''Y'' ''USDC'' ''USDC''
        ''10.0'' ?st1 = (None, st3)"
    using example_jumper_run by (metis prod.collapse)
  have dj: "dispatch_bridge example_ports ''jumper'' ''0xw'' ?t ?st1 = Returned (None, st3)"
    using example_dispatch_jumper [of ?st1] j by simp
  have sel0: "select_random_transaction ''0xw'' (map fst ?b) (available_tokens_of ?b)
                (random_state (example_aggregator [])) = (Returned (Some ?t), g1)"
    unfolding tb rs by (rule s1)
  note u1 = execute_random_bridge_history [of example_ports "''0xw''" "example_aggregator []"]
  note none = u1 [THEN conjunct2, THEN conjunct2, THEN conjunct2, THEN conjunct1, rule_format]
  have run0: "execute_random_bridge example_ports ''0xw'' (example_aggregator []) =
      (None, (example_aggregator []) \<lparr>random_state := g2, run_state := st3\<rparr>)"
    by (rule none, intro conjI, rule ub, rule ne, rule sel0, rule s2, rule dj)
  have f: "fst (execute_random_bridge example_ports ''0xw'' (example_aggregator [])) = None"
    unfolding run0 by simp
  from u1 f have h0: "transaction_history
      (snd (execute_random_bridge example_ports ''0xw'' (example_aggregator [])))
        = transaction_history (example_aggregator [])"
    by blast
  have a1: "fst (select_random_service ''X'' ''Y'' ''USDC''
            (snd (select_random_transaction ''0xw'' [''X'', ''Y''] example_tokens
                    (rng_of_list [0, 0, 0, 0, 3])))) = Some ''relay''"
    using t1 t2 by simp
  have a2: "fst (select_random_service ''X'' ''Y'' ''USDC''
            (snd (select_random_transaction ''0xw'' [''X'', ''Y''] example_tokens
                    (rng_of_list [])))) = Some ''jumper''"
    using s1 s2 by simp
  have a3: "fst (select_random_transaction ''0xw'' [''X'', ''Y''] example_tokens
            (rng_of_list [0, 0, 0, 0, 3])) = Returned (Some ?t)"
    using t1 by simp
  have d1: "\<exists>st2. dispatch_bridge example_ports ''relay'' ''0xw'' ?t \<lparr>rs_world = 1, rs_calls = []\<rparr> =
             Returned (Some ?d, st2)"
    using dr by auto
  have d2: "\<exists>st2. dispatch_bridge example_ports ''jumper'' ''0xw'' ?t \<lparr>rs_world = 1, rs_calls = []\<rparr> =
             Returned (None, st2)"
    using dj by auto
  from u2 [THEN conjunct2, THEN conjunct2, THEN conjunct2, THEN conjunct2, THEN conjunct2,
            THEN conjunct1, rule_format, OF s]
  obtain name where
    "transaction_history
        (snd (execute_random_bridge example_ports ''0xw'' (example_aggregator [0, 0, 0, 0, 3]))) =
        transaction_history (example_aggregator [0, 0, 0, 0, 3]) @
          [dict_set ?d ''service'' (JStr name)]"
    by blast
  then have bw: "\<exists>name. transaction_history
        (snd (execute_random_bridge example_ports ''0xw'' (example_aggregator [0, 0, 0, 0, 3]))) =
        transaction_history (example_aggregator [0, 0, 0, 0, 3]) @
          [dict_set ?d ''service'' (JStr name)]"
    by blast
  let ?Pr = "example_ports\<lparr>update_balances := (\<lambda>address w. (Raised, w))\<rparr>"
  let ?Pz = "example_ports\<lparr>update_balances :=
               (\<lambda>address w. (Returned [(''X'', [(''USDC'', 0)])], w))\<rparr>"
  have r1: "fst (update_balances ?Pr ''0xw'' (rs_world (run_state (example_aggregator [])))) = Raised"
    by simp
  from execute_random_bridge_history [of ?Pr "''0xw''" "example_aggregator []"] r1
  have r2: "fst (execute_random_bridge ?Pr ''0xw'' (example_aggregator [])) = None"
    by blast
  have z1: "fst (update_balances ?Pz ''0xw'' (rs_world (run_state (example_aggregator [])))) =
      Returned [(''X'', [(''USDC'', 0)])]"
    by simp
  have z2: "fst (select_random_transaction ''0xw'' (map fst [(''X'', [(''USDC'', 0 :: real)])])
            (available_tokens_of [(''X'', [(''USDC'', 0)])])
            (random_state (example_aggregator []))) = Returned None"
    by (simp add: selection_eval available_tokens_of_def example_aggregator_def)
  note unselected = execute_random_bridge_history [of ?Pz "''0xw''" "example_aggregator []",
                      THEN conjunct2, THEN conjunct2, THEN conjunct1, rule_format]
  have z3: "fst (execute_random_bridge ?Pz ''0xw'' (example_aggregator [])) = None"
    by (rule unselected, intro conjI, rule z1, rule z2)
  from ub' a3 a1 d1 s h pre a2 d2 f h0 bw r1 r2 z2 z3 show ?thesis by blast
qed

end
